(* ===== verification/GoBase.thy ===== *)
theory GoBase
  imports Complex_Main "HOL-Library.Word"
begin

text \<open>
  The prelude of the development: the values an HTTP handler answers with, the collections of
  rewrite rules the component theories fill, and the generic facts on lists and maps that more
  than one component uses.

  A handler of the Go programs writes one status code and at most one JSON document. A JSON
  document is a value of \<open>json\<close>; Go's \<open>map[string]any\<close> literals become \<open>JObj\<close> with the keys
  in the order in which the source writes them.
\<close>

section \<open>Collections of facts\<close>

named_theorems gostr "characteristic equations of the Go string functions"
named_theorems sql "characteristic equations of the SQL statements on tables"
named_theorems handler "definitions of request handlers, to be unfolded together"

section \<open>JSON documents and HTTP answers\<close>

datatype json =
    JNull
  | JBool bool
  | JInt int
  | JNum rat
  | JStr string
  | JArr "json list"
  | JObj "(string \<times> json) list"

record response =
  code :: nat
  doc :: "json option"

definition answer :: "nat \<Rightarrow> (string \<times> json) list \<Rightarrow> response" where
  "answer c kvs = \<lparr>code = c, doc = Some (JObj kvs)\<rparr>"

definition answer_error :: "nat \<Rightarrow> string \<Rightarrow> response" where
  "answer_error c msg = answer c [(''error'', JStr msg)]"

definition answer_empty :: "nat \<Rightarrow> response" where
  "answer_empty c = \<lparr>code = c, doc = None\<rparr>"

definition answer_list :: "nat \<Rightarrow> json list \<Rightarrow> response" where
  "answer_list c js = \<lparr>code = c, doc = Some (JArr js)\<rparr>"

fun json_field :: "string \<Rightarrow> json \<Rightarrow> json option" where
  "json_field k (JObj kvs) = map_of kvs k"
| "json_field k _ = None"

lemma code_answer [simp]: "code (answer c kvs) = c"
  by (simp add: answer_def)

lemma code_answer_error [simp]: "code (answer_error c m) = c"
  by (simp add: answer_error_def)

lemma code_answer_empty [simp]: "code (answer_empty c) = c"
  by (simp add: answer_empty_def)

lemma code_answer_list [simp]: "code (answer_list c js) = c"
  by (simp add: answer_list_def)

lemma doc_answer [simp]: "doc (answer c kvs) = Some (JObj kvs)"
  by (simp add: answer_def)

section \<open>Lists\<close>

text \<open>Keeping the first occurrence of every element, which is what a loop with a \<open>seen\<close> set does.\<close>

fun uniq :: "'a set \<Rightarrow> 'a list \<Rightarrow> 'a list" where
  "uniq seen [] = []"
| "uniq seen (x # xs) = (if x \<in> seen then uniq seen xs else x # uniq (insert x seen) xs)"

lemma set_uniq [simp]: "set (uniq seen xs) = set xs - seen"
  by (induction seen xs rule: uniq.induct) auto

lemma distinct_uniq [simp]: "distinct (uniq seen xs)"
  by (induction seen xs rule: uniq.induct) auto

lemma uniq_distinct: "distinct xs \<Longrightarrow> set xs \<inter> seen = {} \<Longrightarrow> uniq seen xs = xs"
  by (induction seen xs rule: uniq.induct) auto

lemma uniq_append:
  "uniq seen (xs @ ys) = uniq seen xs @ uniq (seen \<union> set xs) ys"
  by (induction seen xs rule: uniq.induct) (auto simp: insert_absorb)

text \<open>Only the seen elements that occur in the list matter.\<close>

lemma uniq_cong_seen:
  "(\<And>x. x \<in> set xs \<Longrightarrow> x \<in> seen \<longleftrightarrow> x \<in> seen') \<Longrightarrow> uniq seen xs = uniq seen' xs"
proof (induction xs arbitrary: seen seen')
  case Nil
  then show ?case by simp
next
  case (Cons x xs)
  have "uniq (insert x seen) xs = uniq (insert x seen') xs" and "uniq seen xs = uniq seen' xs"
    using Cons.prems by (auto intro!: Cons.IH)
  with Cons.prems show ?case by simp
qed

lemma uniq_filter: "uniq seen (filter P xs) = filter P (uniq seen xs)"
proof (induction xs arbitrary: seen)
  case Nil
  then show ?case by simp
next
  case (Cons x xs)
  have "uniq (insert x seen) (filter P xs) = uniq seen (filter P xs)" if "\<not> P x"
    using that by (intro uniq_cong_seen) auto
  then show ?case
    using Cons.IH [of seen] Cons.IH [of "insert x seen"] by auto
qed

lemma find_Some_set: "List.find P xs = Some x \<Longrightarrow> x \<in> set xs \<and> P x"
  by (induction xs) (auto split: if_splits)

lemma find_None_all: "List.find P xs = None \<longleftrightarrow> (\<forall>x \<in> set xs. \<not> P x)"
  by (induction xs) auto

lemma set_map_filter: "set (List.map_filter f xs) = {y. \<exists>x \<in> set xs. f x = Some y}"
  by (induction xs) (auto simp: map_filter_simps split: option.splits)

lemma filter_update_length:
  "(\<And>x. x \<in> set xs \<Longrightarrow> P (f x) = P x) \<Longrightarrow> length (filter P (map f xs)) = length (filter P xs)"
  by (induction xs) auto

end
