(* ===== verification/GoStrings.thy ===== *)
theory GoStrings
  imports GoBase
begin

text \<open>
  What the programs use of Go's packages \<open>strings\<close> and \<open>unicode\<close>, on byte strings (a Go string is
  a sequence of bytes, and so is a value of type \<open>string\<close>).

  \<open>TrimSpace\<close> removes the white space of \<open>unicode.IsSpace\<close>, given here by the UTF-8 encodings of
  its code points, so that the model is exact on non-ASCII input too. \<open>EqualFold\<close> is only ever
  called with an ASCII literal as its second argument; the two non-ASCII code points that fold to
  an ASCII letter (U+017F to s, U+212A to k) are part of the model.
\<close>

section \<open>Prefixes, suffixes and cs sets\<close>

definition HasPrefix :: "string \<Rightarrow> string \<Rightarrow> bool" where
  "HasPrefix s p \<longleftrightarrow> take (length p) s = p"

definition HasSuffix :: "string \<Rightarrow> string \<Rightarrow> bool" where
  "HasSuffix s p \<longleftrightarrow> HasPrefix (rev s) (rev p)"

definition TrimPrefix :: "string \<Rightarrow> string \<Rightarrow> string" where
  "TrimPrefix s p = (if HasPrefix s p then drop (length p) s else s)"

definition TrimSuffix :: "string \<Rightarrow> string \<Rightarrow> string" where
  "TrimSuffix s p = (if HasSuffix s p then take (length s - length p) s else s)"

definition TrimLeft :: "string \<Rightarrow> string \<Rightarrow> string" where
  "TrimLeft s cs = dropWhile (\<lambda>c. c \<in> set cs) s"

definition TrimRight :: "string \<Rightarrow> string \<Rightarrow> string" where
  "TrimRight s cs = rev (dropWhile (\<lambda>c. c \<in> set cs) (rev s))"

definition Trim :: "string \<Rightarrow> string \<Rightarrow> string" where
  "Trim s cs = TrimRight (TrimLeft s cs) cs"

lemma HasPrefix_iff: "HasPrefix s p \<longleftrightarrow> (\<exists>t. s = p @ t)"
  unfolding HasPrefix_def by (metis append_eq_conv_conj append_take_drop_id)

lemma HasPrefix_append [simp]: "HasPrefix (p @ s) p"
  by (simp add: HasPrefix_def)

lemma HasPrefix_Cons1 [simp]: "HasPrefix s [c] \<longleftrightarrow> (case s of [] \<Rightarrow> False | x # _ \<Rightarrow> x = c)"
  by (cases s) (auto simp: HasPrefix_def)

lemma TrimPrefix_append [simp]: "TrimPrefix (p @ s) p = s"
  by (simp add: TrimPrefix_def)

lemma HasSuffix_append [simp]: "HasSuffix (s @ p) p"
  by (simp add: HasSuffix_def)

lemma TrimSuffix_append [simp]: "TrimSuffix (s @ p) p = s"
  by (simp add: TrimSuffix_def)

lemma set_TrimLeft: "set (TrimLeft s cs) \<subseteq> set s"
  by (auto simp: TrimLeft_def dest: set_dropWhileD)

lemma set_TrimRight: "set (TrimRight s cs) \<subseteq> set s"
  by (auto simp: TrimRight_def dest: set_dropWhileD)

lemma set_Trim: "set (Trim s cs) \<subseteq> set s"
  using set_TrimLeft set_TrimRight by (fastforce simp: Trim_def)

lemma TrimLeft_hd: "TrimLeft s cs \<noteq> [] \<Longrightarrow> hd (TrimLeft s cs) \<notin> set cs"
  unfolding TrimLeft_def by (metis hd_dropWhile)

lemma TrimRight_last: "TrimRight s cs \<noteq> [] \<Longrightarrow> last (TrimRight s cs) \<notin> set cs"
  unfolding TrimRight_def by (metis hd_dropWhile last_rev rev_is_Nil_conv)

lemma TrimLeft_id: "s = [] \<or> hd s \<notin> set cs \<Longrightarrow> TrimLeft s cs = s"
  by (cases s) (auto simp: TrimLeft_def)

lemma TrimRight_id: "s = [] \<or> last s \<notin> set cs \<Longrightarrow> TrimRight s cs = s"
  by (cases s rule: rev_cases) (auto simp: TrimRight_def)

lemma TrimRight_idem [simp]: "TrimRight (TrimRight s cs) cs = TrimRight s cs"
  using TrimRight_last TrimRight_id by blast

section \<open>White space\<close>

definition go_spaces :: "string list" where
  "go_spaces =
     [[CHR 0x09], [CHR 0x0A], [CHR 0x0B], [CHR 0x0C], [CHR 0x0D], [CHR 0x20],
      [CHR 0xC2, CHR 0x85], [CHR 0xC2, CHR 0xA0], [CHR 0xE1, CHR 0x9A, CHR 0x80],
      [CHR 0xE2, CHR 0x80, CHR 0x80], [CHR 0xE2, CHR 0x80, CHR 0x81],
      [CHR 0xE2, CHR 0x80, CHR 0x82], [CHR 0xE2, CHR 0x80, CHR 0x83],
      [CHR 0xE2, CHR 0x80, CHR 0x84], [CHR 0xE2, CHR 0x80, CHR 0x85],
      [CHR 0xE2, CHR 0x80, CHR 0x86], [CHR 0xE2, CHR 0x80, CHR 0x87],
      [CHR 0xE2, CHR 0x80, CHR 0x88], [CHR 0xE2, CHR 0x80, CHR 0x89],
      [CHR 0xE2, CHR 0x80, CHR 0x8A], [CHR 0xE2, CHR 0x80, CHR 0xA8],
      [CHR 0xE2, CHR 0x80, CHR 0xA9], [CHR 0xE2, CHR 0x80, CHR 0xAF],
      [CHR 0xE2, CHR 0x81, CHR 0x9F], [CHR 0xE3, CHR 0x80, CHR 0x80]]"

text \<open>Removing, from the front, patterns of a list for as long as one of them matches.\<close>

function strip :: "string list \<Rightarrow> string \<Rightarrow> string" where
  "strip ps s =
     (case List.find (\<lambda>p. p \<noteq> [] \<and> HasPrefix s p) ps of
        None \<Rightarrow> s
      | Some p \<Rightarrow> strip ps (drop (length p) s))"
  by pat_completeness auto
termination
proof (relation "measure (\<lambda>(ps, s). length s)")
  show "wf (measure (\<lambda>(ps :: string list, s :: string). length s))" by simp
next
  fix ps s p
  assume "List.find (\<lambda>p. p \<noteq> [] \<and> HasPrefix s p) ps = Some p"
  then have "p \<noteq> [] \<and> HasPrefix s p" by (rule find_Some_set [THEN conjunct2])
  then show "((ps, drop (length p) s), ps, s) \<in> measure (\<lambda>(ps, s). length s)"
    by (cases s) (auto simp: HasPrefix_def)
qed

declare strip.simps [simp del]

definition TrimSpace :: "string \<Rightarrow> string" where
  "TrimSpace s = rev (strip (map rev go_spaces) (rev (strip go_spaces s)))"

lemma strip_fixed: "List.find (\<lambda>p. p \<noteq> [] \<and> HasPrefix s p) ps = None \<Longrightarrow> strip ps s = s"
  by (simp add: strip.simps [of ps s])

lemma strip_step:
  "List.find (\<lambda>p. p \<noteq> [] \<and> HasPrefix s p) ps = Some p \<Longrightarrow> strip ps s = strip ps (drop (length p) s)"
  by (simp add: strip.simps [of ps s])

lemma strip_stops: "List.find (\<lambda>p. p \<noteq> [] \<and> HasPrefix (strip ps s) p) ps = None"
proof (induction ps s rule: strip.induct)
  case (1 ps s)
  show ?case
  proof (cases "List.find (\<lambda>p. p \<noteq> [] \<and> HasPrefix s p) ps")
    case None
    show ?thesis unfolding strip_fixed [OF None] by (rule None)
  next
    case (Some p)
    show ?thesis unfolding strip_step [OF Some] by (rule "1.IH" [OF Some])
  qed
qed

lemma strip_idem [simp]: "strip ps (strip ps s) = strip ps s"
  by (rule strip_fixed) (rule strip_stops)

lemma strip_suffix: "\<exists>t. s = t @ strip ps s"
proof (induction ps s rule: strip.induct)
  case (1 ps s)
  show ?case
  proof (cases "List.find (\<lambda>p. p \<noteq> [] \<and> HasPrefix s p) ps")
    case None
    have "s = [] @ strip ps s" unfolding strip_fixed [OF None] by simp
    then show ?thesis ..
  next
    case (Some p)
    obtain t where t: "drop (length p) s = t @ strip ps (drop (length p) s)"
      using "1.IH" [OF Some] by blast
    have "s = (take (length p) s @ t) @ strip ps s"
      unfolding strip_step [OF Some] append.assoc t [symmetric] by simp
    then show ?thesis ..
  qed
qed

lemma strip_Nil [simp]: "strip ps [] = []"
  using strip_suffix [of "[]" ps] by simp

lemma HasPrefix_mono: "HasPrefix s p \<Longrightarrow> HasPrefix (s @ t) p"
  by (auto simp: HasPrefix_iff)

text \<open>Trimming the right end does not create a match at the left end.\<close>

lemma TrimSpace_left_fixed:
  "strip go_spaces (TrimSpace s) = TrimSpace s"
proof (rule strip_fixed)
  let ?l = "strip go_spaces s"
  obtain t where "rev ?l = t @ strip (map rev go_spaces) (rev ?l)"
    using strip_suffix by blast
  then have l: "?l = TrimSpace s @ rev t"
    by (metis TrimSpace_def rev_append rev_rev_ident)
  show "List.find (\<lambda>p. p \<noteq> [] \<and> HasPrefix (TrimSpace s) p) go_spaces = None"
    using strip_stops [of go_spaces s] HasPrefix_mono [of "TrimSpace s" _ "rev t"]
    unfolding find_None_all l by blast
qed

lemma TrimSpace_idem [simp]: "TrimSpace (TrimSpace s) = TrimSpace s"
proof -
  have "TrimSpace (TrimSpace s) = rev (strip (map rev go_spaces) (rev (TrimSpace s)))"
    by (simp add: TrimSpace_def [of "TrimSpace s"] TrimSpace_left_fixed)
  also have "\<dots> = TrimSpace s"
    by (simp add: TrimSpace_def)
  finally show ?thesis .
qed

lemma TrimSpace_Nil [simp]: "TrimSpace [] = []"
  by (simp add: TrimSpace_def)

lemma TrimSpace_infix: "\<exists>a b. s = a @ TrimSpace s @ b"
proof -
  obtain a where a: "s = a @ strip go_spaces s" using strip_suffix by blast
  obtain t where "rev (strip go_spaces s) = t @ strip (map rev go_spaces) (rev (strip go_spaces s))"
    using strip_suffix by blast
  then have "strip go_spaces s = TrimSpace s @ rev t"
    by (metis TrimSpace_def rev_append rev_rev_ident)
  with a show ?thesis by metis
qed

lemma set_TrimSpace: "set (TrimSpace s) \<subseteq> set s"
proof -
  obtain a b where "s = a @ TrimSpace s @ b" using TrimSpace_infix by blast
  then have "set s = set a \<union> set (TrimSpace s) \<union> set b" by (metis set_append sup.assoc)
  then show ?thesis by blast
qed

text \<open>The bytes that begin or end an encoding of white space.\<close>

definition space_byte :: "char \<Rightarrow> bool" where
  "space_byte c \<longleftrightarrow> c \<in> set (map hd go_spaces) \<union> set (map last go_spaces)"

lemma find_hd_None:
  assumes "s = [] \<or> hd s \<notin> set (map hd ps)"
  shows "List.find (\<lambda>p. p \<noteq> [] \<and> HasPrefix s p) ps = None"
  using assms unfolding find_None_all HasPrefix_iff by (cases s) (auto, metis hd_append image_eqI list.sel(1))

lemma TrimSpace_id:
  assumes "s = [] \<or> \<not> space_byte (hd s) \<and> \<not> space_byte (last s)"
  shows "TrimSpace s = s"
proof -
  have 1: "strip go_spaces s = s"
    using assms by (intro strip_fixed find_hd_None) (auto simp: space_byte_def)
  have "hd (rev s) \<notin> set (map hd (map rev go_spaces))" if "s \<noteq> []"
    using assms that by (auto simp: space_byte_def hd_rev)
  then have "strip (map rev go_spaces) (rev s) = rev s"
    by (intro strip_fixed find_hd_None) auto
  with 1 show ?thesis by (simp add: TrimSpace_def)
qed

section \<open>Splitting and joining\<close>

text \<open>\<open>strings.Split\<close> with a separator of one byte: one piece more than there are separators.\<close>

fun split_on :: "char \<Rightarrow> string \<Rightarrow> string list" where
  "split_on c [] = [[]]"
| "split_on c (x # xs) =
     (if x = c then [] # split_on c xs
      else (case split_on c xs of [] \<Rightarrow> [[x]] | y # ys \<Rightarrow> (x # y) # ys))"

fun join_with :: "char \<Rightarrow> string list \<Rightarrow> string" where
  "join_with c [] = []"
| "join_with c [x] = x"
| "join_with c (x # y # ys) = x @ c # join_with c (y # ys)"

lemma split_on_neq_Nil [simp]: "split_on c s \<noteq> []"
  by (induction s) (auto split: list.splits)

lemma split_on_pieces: "p \<in> set (split_on c s) \<Longrightarrow> c \<notin> set p"
  by (induction s arbitrary: p) (auto split: list.splits if_splits)

lemma join_split [simp]: "join_with c (split_on c s) = s"
proof (induction s)
  case Nil
  then show ?case by simp
next
  case (Cons x xs)
  obtain y ys where sp: "split_on c xs = y # ys" by (cases "split_on c xs") auto
  with Cons show ?case by (cases ys) auto
qed

lemma split_on_append_sep:
  "c \<notin> set p \<Longrightarrow> split_on c (p @ c # s) = p # split_on c s"
  by (induction p) auto

lemma split_on_single: "c \<notin> set p \<Longrightarrow> split_on c p = [p]"
  by (induction p) auto

lemma split_join:
  "xs \<noteq> [] \<Longrightarrow> (\<And>p. p \<in> set xs \<Longrightarrow> c \<notin> set p) \<Longrightarrow> split_on c (join_with c xs) = xs"
  by (induction c xs rule: join_with.induct) (auto simp: split_on_append_sep split_on_single)

lemma split_on_concat: "p \<in> set (split_on c s) \<Longrightarrow> set p \<subseteq> set s"
proof (induction s arbitrary: p)
  case Nil
  then show ?case by simp
next
  case (Cons x xs)
  obtain y ys where "split_on c xs = y # ys" by (cases "split_on c xs") auto
  with Cons.prems Cons.IH [of y] Cons.IH [of p] show ?case by (auto split: if_splits)
qed

section \<open>Characters and letter case\<close>

definition char_code :: "char \<Rightarrow> nat" where
  "char_code c = of_char c"

definition is_digit :: "char \<Rightarrow> bool" where
  "is_digit c \<longleftrightarrow> 48 \<le> char_code c \<and> char_code c \<le> 57"

definition is_lower :: "char \<Rightarrow> bool" where
  "is_lower c \<longleftrightarrow> 97 \<le> char_code c \<and> char_code c \<le> 122"

definition lower_char :: "char \<Rightarrow> char" where
  "lower_char c = (if 65 \<le> char_code c \<and> char_code c \<le> 90 then char_of (char_code c + 32) else c)"

text \<open>
  The comparison key of \<open>strings.EqualFold\<close>: ASCII letters in lower case, and the code points
  U+017F and U+212A as the ASCII letters they fold to.
\<close>

fun fold_key :: "string \<Rightarrow> string" where
  "fold_key [] = []"
| "fold_key (c # cs) =
     (if c = CHR 0xC5 \<and> take 1 cs = [CHR 0xBF] then CHR ''s'' # fold_key (drop 1 cs)
      else if c = CHR 0xE2 \<and> take 2 cs = [CHR 0x84, CHR 0xAA] then CHR ''k'' # fold_key (drop 2 cs)
      else lower_char c # fold_key cs)"

definition EqualFold :: "string \<Rightarrow> string \<Rightarrow> bool" where
  "EqualFold s t \<longleftrightarrow> fold_key s = fold_key t"

text \<open>
  \<open>strings.ToLower\<close> as far as ASCII bytes of the result go: the two non-ASCII code points whose
  lower case is ASCII (U+0130 to i, U+212A to k) are mapped, every other non-ASCII byte is kept.
\<close>

fun lower_ascii :: "string \<Rightarrow> string" where
  "lower_ascii [] = []"
| "lower_ascii (c # cs) =
     (if c = CHR 0xC4 \<and> take 1 cs = [CHR 0xB0] then CHR ''i'' # lower_ascii (drop 1 cs)
      else if c = CHR 0xE2 \<and> take 2 cs = [CHR 0x84, CHR 0xAA] then CHR ''k'' # lower_ascii (drop 2 cs)
      else lower_char c # lower_ascii cs)"

fun contains :: "string \<Rightarrow> string \<Rightarrow> bool" where
  "contains [] p \<longleftrightarrow> p = []"
| "contains (c # cs) p \<longleftrightarrow> HasPrefix (c # cs) p \<or> contains cs p"

text \<open>\<open>strings.NewReplacer\<close> with pairs of one byte each.\<close>

definition replace_chars :: "(char \<times> char) list \<Rightarrow> string \<Rightarrow> string" where
  "replace_chars rs s = map (\<lambda>c. case map_of rs c of None \<Rightarrow> c | Some d \<Rightarrow> d) s"

lemma EqualFold_refl [simp]: "EqualFold s s"
  by (simp add: EqualFold_def)

lemma char_of_code [simp]: "char_of (char_code c) = c"
  by (simp add: char_code_def)

lemma char_code_of: "n < 256 \<Longrightarrow> char_code (char_of n) = n"
  by (simp add: char_code_def)

lemma char_code_inject [simp]: "char_code c = char_code d \<longleftrightarrow> c = d"
  by (simp add: char_code_def)

lemma is_digit_not_space: "is_digit c \<Longrightarrow> \<not> space_byte c"
  by (auto simp: is_digit_def char_code_def space_byte_def go_spaces_def)

lemma is_lower_not_space: "is_lower c \<Longrightarrow> \<not> space_byte c"
  by (auto simp: is_lower_def char_code_def space_byte_def go_spaces_def)

lemma lower_char_id: "is_digit c \<or> is_lower c \<Longrightarrow> lower_char c = c"
  by (auto simp: is_digit_def is_lower_def lower_char_def)

end
