(* ===== verification/GoNumbers.thy ===== *)
theory GoNumbers
  imports GoStrings
begin

text \<open>
  What the programs use of Go's package \<open>strconv\<close>: \<open>Itoa\<close> (and \<open>%d\<close>), \<open>ParseInt\<close> with base 10
  and 64 bits, and \<open>Atoi\<close>, which is \<open>ParseInt\<close> for Go's 64-bit \<open>int\<close>. The programs often ignore
  the error of a conversion and keep the value, which is 0 after a syntax error and the nearest
  bound after a range error; \<open>atoi_value\<close> is that value.
\<close>

datatype num_result = NumOk int | NumSyntax | NumRange int

section \<open>Printing\<close>

definition digit_char :: "nat \<Rightarrow> char" where
  "digit_char d = char_of (48 + d)"

fun nat_digits :: "nat \<Rightarrow> string" where
  "nat_digits n = (if n < 10 then [digit_char n] else nat_digits (n div 10) @ [digit_char (n mod 10)])"

declare nat_digits.simps [simp del]

definition Itoa :: "int \<Rightarrow> string" where
  "Itoa n = (if n < 0 then CHR ''-'' # nat_digits (nat (- n)) else nat_digits (nat n))"

section \<open>Parsing\<close>

definition max_uint64 :: nat where
  "max_uint64 = 2 ^ 64 - 1"

definition digit_value :: "char \<Rightarrow> nat" where
  "digit_value c = char_code c - 48"

text \<open>The loop of \<open>ParseUint\<close>: it stops at the first byte that is not a digit or overflows.\<close>

fun uint_loop :: "nat \<Rightarrow> string \<Rightarrow> num_result" where
  "uint_loop n [] = NumOk (int n)"
| "uint_loop n (c # cs) =
     (if \<not> is_digit c then NumSyntax
      else if 10 * n + digit_value c > max_uint64 then NumRange (int max_uint64)
      else uint_loop (10 * n + digit_value c) cs)"

definition ParseUint :: "string \<Rightarrow> num_result" where
  "ParseUint s = (if s = [] then NumSyntax else uint_loop 0 s)"

definition clamp_int64 :: "bool \<Rightarrow> int \<Rightarrow> bool \<Rightarrow> num_result" where
  "clamp_int64 neg un in_range =
     (if \<not> neg \<and> un \<ge> 2 ^ 63 then NumRange (2 ^ 63 - 1)
      else if neg \<and> un > 2 ^ 63 then NumRange (- (2 ^ 63))
      else let v = (if neg then - un else un) in if in_range then NumOk v else NumRange v)"

definition ParseInt :: "string \<Rightarrow> num_result" where
  "ParseInt s =
     (let neg = HasPrefix s ''-'';
          t = (if neg \<or> HasPrefix s ''+'' then tl s else s)
      in case ParseUint t of
           NumSyntax \<Rightarrow> NumSyntax
         | NumRange un \<Rightarrow> clamp_int64 neg un False
         | NumOk un \<Rightarrow> clamp_int64 neg un True)"

definition Atoi :: "string \<Rightarrow> num_result" where
  "Atoi s = ParseInt s"

fun num_value :: "num_result \<Rightarrow> int" where
  "num_value (NumOk v) = v"
| "num_value NumSyntax = 0"
| "num_value (NumRange v) = v"

definition atoi_value :: "string \<Rightarrow> int" where
  "atoi_value s = num_value (Atoi s)"

definition int64_range :: "int set" where
  "int64_range = {- (2 ^ 63)..2 ^ 63 - 1}"

section \<open>Printing and parsing back\<close>

lemma is_digit_digit_char [simp]: "d < 10 \<Longrightarrow> is_digit (digit_char d)"
  by (simp add: is_digit_def digit_char_def char_code_of)

lemma digit_value_char [simp]: "d < 10 \<Longrightarrow> digit_value (digit_char d) = d"
  by (simp add: digit_value_def digit_char_def char_code_of)

lemma digit_value_less: "is_digit c \<Longrightarrow> digit_value c < 10"
  by (auto simp: is_digit_def digit_value_def)

definition digits_value :: "nat \<Rightarrow> string \<Rightarrow> nat" where
  "digits_value a cs = foldl (\<lambda>n c. 10 * n + digit_value c) a cs"

lemma digits_value_simps [simp]:
  "digits_value a [] = a"
  "digits_value a (c # cs) = digits_value (10 * a + digit_value c) cs"
  "digits_value a (cs @ [c]) = 10 * digits_value a cs + digit_value c"
  by (simp_all add: digits_value_def)

lemma digits_value_ge: "a \<le> digits_value a cs"
proof (induction cs arbitrary: a)
  case Nil
  then show ?case by simp
next
  case (Cons c cs)
  have "a \<le> 10 * a + digit_value c" by simp
  also have "\<dots> \<le> digits_value a (c # cs)" using Cons.IH by simp
  finally show ?case .
qed

lemma uint_loop_digits:
  "list_all is_digit cs \<Longrightarrow> digits_value a cs \<le> max_uint64
   \<Longrightarrow> uint_loop a cs = NumOk (int (digits_value a cs))"
proof (induction cs arbitrary: a)
  case Nil
  then show ?case by simp
next
  case (Cons c cs)
  have "10 * a + digit_value c \<le> max_uint64"
    using Cons.prems(2) digits_value_ge [of "10 * a + digit_value c" cs] by simp
  with Cons show ?case by simp
qed

lemma nat_digits_digits [simp]: "list_all is_digit (nat_digits n)"
proof (induction n rule: nat_digits.induct)
  case (1 n)
  then show ?case by (subst nat_digits.simps) auto
qed

lemma nat_digits_neq_Nil [simp]: "nat_digits n \<noteq> []"
  by (subst nat_digits.simps) simp

lemma digits_value_nat_digits [simp]: "digits_value 0 (nat_digits n) = n"
proof (induction n rule: nat_digits.induct)
  case (1 n)
  then show ?case by (subst nat_digits.simps) auto
qed

lemma ParseUint_nat_digits: "n \<le> max_uint64 \<Longrightarrow> ParseUint (nat_digits n) = NumOk (int n)"
  by (simp add: ParseUint_def uint_loop_digits)

lemma is_digit_not_sign: "is_digit c \<Longrightarrow> c \<noteq> CHR ''-'' \<and> c \<noteq> CHR ''+''"
  by (auto simp: is_digit_def char_code_def)

lemma nat_digits_hd: "\<exists>c cs. nat_digits n = c # cs \<and> is_digit c"
  using nat_digits_digits [of n] by (cases "nat_digits n") auto

lemma ParseInt_digits:
  assumes "n < 2 ^ 63"
  shows "ParseInt (nat_digits n) = NumOk (int n)"
proof -
  obtain c cs where c: "nat_digits n = c # cs" "is_digit c" using nat_digits_hd by blast
  have le: "n \<le> max_uint64" using assms by (simp add: max_uint64_def)
  have "int n < 2 ^ 63" using assms by simp
  then show ?thesis
    using is_digit_not_sign [OF c(2)] ParseUint_nat_digits [OF le]
    by (simp add: ParseInt_def c(1) clamp_int64_def)
qed

lemma ParseInt_neg_digits:
  assumes "n \<le> 2 ^ 63"
  shows "ParseInt (CHR ''-'' # nat_digits n) = NumOk (- int n)"
proof -
  have le: "n \<le> max_uint64" using assms by (simp add: max_uint64_def)
  have "int n \<le> 2 ^ 63" using assms by simp
  then show ?thesis
    by (simp add: ParseInt_def clamp_int64_def ParseUint_nat_digits [OF le])
qed

lemma ParseInt_Itoa:
  assumes "n \<in> int64_range"
  shows "ParseInt (Itoa n) = NumOk n"
proof (cases "n < 0")
  case True
  then have "nat (- n) \<le> 2 ^ 63" using assms by (simp add: int64_range_def nat_le_iff)
  with True show ?thesis by (simp add: Itoa_def ParseInt_neg_digits)
next
  case False
  then have "nat n < 2 ^ 63" using assms by (simp add: int64_range_def nat_less_iff)
  with False show ?thesis by (simp add: Itoa_def ParseInt_digits)
qed

lemma atoi_value_Itoa [simp]: "n \<in> int64_range \<Longrightarrow> atoi_value (Itoa n) = n"
  by (simp add: atoi_value_def Atoi_def ParseInt_Itoa)

lemma atoi_value_range: "atoi_value s \<in> int64_range"
proof -
  have "num_value (clamp_int64 neg un b) \<in> int64_range" if "0 \<le> un" for neg un b
    using that by (auto simp: clamp_int64_def int64_range_def Let_def)
  moreover have "ParseUint t = NumOk un \<Longrightarrow> 0 \<le> un" and "ParseUint t = NumRange un \<Longrightarrow> 0 \<le> un"
    for t un
  proof -
    have "uint_loop n cs = NumOk un \<or> uint_loop n cs = NumRange un \<Longrightarrow> 0 \<le> un" for n cs
      by (induction n cs rule: uint_loop.induct) (auto split: if_splits)
    then show "ParseUint t = NumOk un \<Longrightarrow> 0 \<le> un" and "ParseUint t = NumRange un \<Longrightarrow> 0 \<le> un"
      by (auto simp: ParseUint_def split: if_splits)
  qed
  moreover have "(0::int) \<in> int64_range" by (simp add: int64_range_def)
  ultimately show ?thesis
    by (auto simp: atoi_value_def Atoi_def ParseInt_def Let_def split: num_result.splits)
qed

end
