(* ===== verification/Dialing.thy ===== *)
theory Dialing
  imports GoNumbers
begin

text \<open>
  The control API's normalisation of operator input: telephone numbers and dialing regions, E.164
  numbers of a workspace, participant roles and workspace slugs. All of it is pure; the source is
  components/phonarch-platform-api/cmd/control-api/main.go.
\<close>

section \<open>The functions\<close>

definition supportedDialRegions :: "string list" where
  "supportedDialRegions = [''+1'', ''+44'', ''+61'', ''+65'', ''+91'', ''+971'']"

definition normalizeDialRegion :: "string \<Rightarrow> string" where
  "normalizeDialRegion region =
     (let region = TrimSpace region in
      if region \<in> set supportedDialRegions then region else ''+91'')"

definition normalizeDialNumber :: "string \<Rightarrow> string \<Rightarrow> string" where
  "normalizeDialNumber phone region =
     (let phone = TrimSpace phone in
      if phone = '''' then ''''
      else let digits = filter is_digit phone in
        if digits = '''' then ''''
        else if HasPrefix phone ''+'' then ''+'' @ digits
        else let digits = TrimLeft digits ''0'' in
          if digits = '''' then '''' else normalizeDialRegion region @ digits)"

definition canonicalE164 :: "string \<Rightarrow> string" where
  "canonicalE164 value =
     (let digits = filter is_digit (TrimSpace value) in
      if length digits < 7 \<or> length digits > 15 \<or> \<not> HasPrefix (TrimSpace value) ''+'' then ''''
      else ''+'' @ digits)"

definition normalizeParticipantRole :: "string \<Rightarrow> string" where
  "normalizeParticipantRole role = (if EqualFold (TrimSpace role) ''HOST'' then ''HOST'' else ''LISTENER'')"

definition coalesce :: "string \<Rightarrow> string \<Rightarrow> string" where
  "coalesce a b = (if TrimSpace a \<noteq> '''' then a else b)"

definition maxInt :: "int \<Rightarrow> int \<Rightarrow> int" where
  "maxInt value fallback = (if value > 0 then value else fallback)"

text \<open>
  The loop of \<open>slugify\<close>: \<open>b\<close> is the string built so far, \<open>lastDash\<close> its flag. The source ranges
  over code points; a code point outside ASCII is a run of bytes that are neither letters nor
  digits, and a run is collapsed to one dash either way.
\<close>

fun slugify_loop :: "string \<Rightarrow> bool \<Rightarrow> string \<Rightarrow> string" where
  "slugify_loop b lastDash [] = b"
| "slugify_loop b lastDash (r # rs) =
     (if is_lower r \<or> is_digit r then slugify_loop (b @ [r]) False rs
      else if \<not> lastDash \<and> length b > 0 then slugify_loop (b @ ''-'') True rs
      else slugify_loop b lastDash rs)"

definition slugify :: "string \<Rightarrow> string" where
  "slugify value = Trim (slugify_loop '''' False (lower_ascii (TrimSpace value))) ''-''"

section \<open>Well-formed results\<close>

definition dialable :: "string \<Rightarrow> bool" where
  "dialable s \<longleftrightarrow> (case s of [] \<Rightarrow> False | c # ds \<Rightarrow> c = CHR ''+'' \<and> ds \<noteq> [] \<and> list_all is_digit ds)"

definition slug_char :: "char \<Rightarrow> bool" where
  "slug_char c \<longleftrightarrow> is_lower c \<or> is_digit c \<or> c = CHR ''-''"

definition well_formed_slug :: "string \<Rightarrow> bool" where
  "well_formed_slug s \<longleftrightarrow>
     list_all slug_char s \<and>
     successively (\<lambda>a b. \<not> (a = CHR ''-'' \<and> b = CHR ''-'')) s \<and>
     (s \<noteq> [] \<longrightarrow> hd s \<noteq> CHR ''-'' \<and> last s \<noteq> CHR ''-'')"

lemma plus_not_digit [simp]: "\<not> is_digit CHR ''+''"
  by (simp add: is_digit_def char_code_def)

lemma plus_not_space [simp]: "\<not> space_byte CHR ''+''"
  by (simp add: space_byte_def go_spaces_def)

lemma dash_not_alnum [simp]: "\<not> is_digit CHR ''-''" "\<not> is_lower CHR ''-''"
  by (simp_all add: is_digit_def is_lower_def char_code_def)

lemma dialableI: "ds \<noteq> [] \<Longrightarrow> list_all is_digit ds \<Longrightarrow> dialable (CHR ''+'' # ds)"
  by (simp add: dialable_def)

lemma dialableE:
  assumes "dialable s"
  obtains ds where "s = CHR ''+'' # ds" and "ds \<noteq> []" and "list_all is_digit ds"
  using assms by (auto simp: dialable_def split: list.splits)

lemma list_all_filter [simp]: "list_all P (filter P xs)"
  by (simp add: list_all_iff)

lemma filter_all: "list_all P xs \<Longrightarrow> filter P xs = xs"
  by (simp add: list_all_iff filter_id_conv)

lemma supported_dialable: "r \<in> set supportedDialRegions \<Longrightarrow> dialable r"
  by (auto simp: supportedDialRegions_def dialable_def is_digit_def char_code_def)

lemma normalizeDialRegion_supported: "normalizeDialRegion r \<in> set supportedDialRegions"
  by (simp add: normalizeDialRegion_def supportedDialRegions_def Let_def)

lemma dialable_append: "dialable s \<Longrightarrow> list_all is_digit ds \<Longrightarrow> dialable (s @ ds)"
  by (auto simp: dialable_def split: list.splits)

lemma normalizeDialNumber_cases:
  "normalizeDialNumber phone region = [] \<or> dialable (normalizeDialNumber phone region)"
proof -
  let ?ds = "filter is_digit (TrimSpace phone)"
  have "list_all is_digit (TrimLeft ?ds ''0'')"
    using set_TrimLeft [of ?ds "''0''"] by (auto simp: list_all_iff)
  moreover have "dialable (normalizeDialRegion region)"
    by (rule supported_dialable) (rule normalizeDialRegion_supported)
  ultimately show ?thesis
    by (simp add: normalizeDialNumber_def Let_def dialableI dialable_append)
qed

lemma TrimSpace_dialable: "dialable s \<Longrightarrow> TrimSpace s = s"
proof (erule dialableE)
  fix ds
  assume s: "s = CHR ''+'' # ds" "ds \<noteq> []" "list_all is_digit ds"
  then have "is_digit (last s)" by (simp add: list_all_iff)
  with s show "TrimSpace s = s" by (intro TrimSpace_id) (simp add: is_digit_not_space)
qed

lemma normalizeDialNumber_dialable [simp]: "dialable s \<Longrightarrow> normalizeDialNumber s region = s"
  by (frule TrimSpace_dialable, erule dialableE)
    (simp add: normalizeDialNumber_def Let_def filter_all)

lemma normalizeDialNumber_Nil [simp]: "normalizeDialNumber [] region = []"
  by (simp add: normalizeDialNumber_def)

lemma canonicalE164_cases:
  "canonicalE164 v = [] \<or> dialable (canonicalE164 v) \<and> 8 \<le> length (canonicalE164 v) \<and> length (canonicalE164 v) \<le> 16"
proof (cases "canonicalE164 v = []")
  case False
  then have "filter is_digit (TrimSpace v) \<noteq> []"
    by (auto simp: canonicalE164_def Let_def split: if_splits)
  with False show ?thesis
    by (auto simp: canonicalE164_def Let_def dialableI split: if_splits)
qed simp

lemma canonicalE164_dialable:
  "dialable s \<Longrightarrow> 8 \<le> length s \<Longrightarrow> length s \<le> 16 \<Longrightarrow> canonicalE164 s = s"
  by (frule TrimSpace_dialable, erule dialableE)
    (simp add: canonicalE164_def Let_def filter_all)

section \<open>Slugs\<close>

definition slug_inv :: "string \<Rightarrow> bool \<Rightarrow> bool" where
  "slug_inv b lastDash \<longleftrightarrow>
     list_all slug_char b \<and>
     successively (\<lambda>a b. \<not> (a = CHR ''-'' \<and> b = CHR ''-'')) b \<and>
     (b \<noteq> [] \<longrightarrow> hd b \<noteq> CHR ''-'' \<and> (last b = CHR ''-'' \<longrightarrow> lastDash))"

lemma slugify_loop_inv:
  "slug_inv b ld \<Longrightarrow> \<exists>ld'. slug_inv (slugify_loop b ld s) ld'"
proof (induction b ld s rule: slugify_loop.induct)
  case (1 b ld)
  then show ?case by auto
next
  case (2 b ld r rs)
  have "slug_inv (b @ [r]) False" if "is_lower r \<or> is_digit r"
    using "2.prems" that
    by (auto simp: slug_inv_def slug_char_def successively_append_iff hd_append)
  moreover have "slug_inv (b @ ''-'') True" if "\<not> ld" "b \<noteq> []"
    using "2.prems" that by (auto simp: slug_inv_def slug_char_def successively_append_iff)
  ultimately show ?case using "2.IH" "2.prems" by auto
qed

lemma TrimLeft_dash_id: "b = [] \<or> hd b \<noteq> CHR ''-'' \<Longrightarrow> TrimLeft b ''-'' = b"
  by (rule TrimLeft_id) auto

lemma TrimRight_prefix: "\<exists>t. s = TrimRight s cs @ t"
proof -
  have "rev s = takeWhile (\<lambda>c. c \<in> set cs) (rev s) @ dropWhile (\<lambda>c. c \<in> set cs) (rev s)" by simp
  then have "s = TrimRight s cs @ rev (takeWhile (\<lambda>c. c \<in> set cs) (rev s))"
    unfolding TrimRight_def by (metis rev_append rev_rev_ident)
  then show ?thesis ..
qed

lemma Trim_slug_inv:
  assumes "slug_inv b ld"
  shows "well_formed_slug (Trim b ''-'')"
proof -
  have eq: "Trim b ''-'' = TrimRight b ''-''"
    using assms by (auto simp: Trim_def slug_inv_def TrimLeft_dash_id)
  obtain t where t: "b = TrimRight b ''-'' @ t" using TrimRight_prefix by blast
  let ?r = "TrimRight b ''-''"
  have "list_all slug_char (?r @ t)" "successively (\<lambda>a b. \<not> (a = CHR ''-'' \<and> b = CHR ''-'')) (?r @ t)"
    using assms t by (simp_all add: slug_inv_def)
  moreover have "hd ?r \<noteq> CHR ''-''" if "?r \<noteq> []"
    using assms that t by (metis append_is_Nil_conv hd_append2 slug_inv_def)
  ultimately show ?thesis
    using TrimRight_last [of b "''-''"]
    unfolding eq well_formed_slug_def by (auto simp: successively_append_iff)
qed

lemma slugify_wf: "well_formed_slug (slugify value)"
proof -
  have "slug_inv [] False" by (simp add: slug_inv_def)
  then show ?thesis
    using slugify_loop_inv Trim_slug_inv unfolding slugify_def by blast
qed

lemma lower_ascii_slug: "list_all slug_char s \<Longrightarrow> lower_ascii s = s"
proof (induction s)
  case Nil
  then show ?case by simp
next
  case (Cons c s)
  have "c \<noteq> CHR 0xC4" "c \<noteq> CHR 0xE2" "lower_char c = c"
    using Cons.prems
    by (auto simp: slug_char_def is_lower_def is_digit_def lower_char_def char_code_def)
  with Cons show ?case by simp
qed

lemma slugify_loop_fixed:
  assumes "list_all slug_char s"
    and "successively (\<lambda>a b. \<not> (a = CHR ''-'' \<and> b = CHR ''-'')) s"
    and "s \<noteq> [] \<Longrightarrow> hd s = CHR ''-'' \<Longrightarrow> b \<noteq> [] \<and> \<not> ld"
  shows "slugify_loop b ld s = b @ s"
  using assms
proof (induction s arbitrary: b ld)
  case Nil
  then show ?case by simp
next
  case (Cons c s)
  have nd: "s \<noteq> [] \<Longrightarrow> c = CHR ''-'' \<Longrightarrow> hd s \<noteq> CHR ''-''"
    and sc: "successively (\<lambda>a b. \<not> (a = CHR ''-'' \<and> b = CHR ''-'')) s"
    using Cons.prems(2) by (cases s; auto)+
  show ?case
  proof (cases "c = CHR ''-''")
    case True
    with Cons.prems(3) have "b \<noteq> [] \<and> \<not> ld" by simp
    with True nd sc Cons.prems(1) Cons.IH [of "b @ ''-''" True] show ?thesis by auto
  next
    case False
    with sc Cons.prems(1) Cons.IH [of "b @ [c]" False] show ?thesis
      by (auto simp: slug_char_def)
  qed
qed

lemma slugify_fixed:
  assumes "well_formed_slug s"
  shows "slugify s = s"
proof (cases "s = []")
  case True
  then show ?thesis by (simp add: slugify_def Trim_def TrimLeft_def TrimRight_def)
next
  case False
  then have ends: "slug_char (hd s)" "slug_char (last s)" "hd s \<noteq> CHR ''-''" "last s \<noteq> CHR ''-''"
    using assms by (auto simp: well_formed_slug_def list_all_iff)
  then have "TrimSpace s = s"
    by (intro TrimSpace_id) (auto simp: slug_char_def is_digit_not_space is_lower_not_space)
  moreover have "slugify_loop [] False s = s"
    using assms ends by (subst slugify_loop_fixed) (auto simp: well_formed_slug_def)
  moreover have "Trim s ''-'' = s"
    using ends by (simp add: Trim_def TrimLeft_dash_id TrimRight_id)
  ultimately show ?thesis
    using assms by (simp add: slugify_def lower_ascii_slug well_formed_slug_def)
qed

section \<open>Roles\<close>

lemma normalizeParticipantRole_cases: "normalizeParticipantRole r = ''HOST'' \<or> normalizeParticipantRole r = ''LISTENER''"
  by (simp add: normalizeParticipantRole_def)

lemma normalizeParticipantRole_idem [simp]:
  "normalizeParticipantRole (normalizeParticipantRole r) = normalizeParticipantRole r"
proof -
  have "TrimSpace ''HOST'' = ''HOST''" "TrimSpace ''LISTENER'' = ''LISTENER''"
    by (simp_all add: TrimSpace_id space_byte_def go_spaces_def)
  moreover have "\<not> EqualFold ''LISTENER'' ''HOST''"
    by (simp add: EqualFold_def lower_char_def char_code_def)
  ultimately show ?thesis by (simp add: normalizeParticipantRole_def)
qed

end
