(* ===== verification/GoFloat.thy ===== *)
theory GoFloat
  imports GoNumbers
begin

text \<open>
  Go's \<open>float64\<close>: the finite doubles are rationals, and an arithmetic operation returns the exact
  result rounded to the nearest double, ties to even. \<open>f64\<close> is that rounding, for results below
  the largest double (load scores are quotients of small counters, so overflow to infinity does
  not arise). A rational is a double when rounding leaves it unchanged.
\<close>

fun bit_length :: "nat \<Rightarrow> nat" where
  "bit_length n = (if n = 0 then 0 else Suc (bit_length (n div 2)))"

declare bit_length.simps [simp del]

definition pow2 :: "int \<Rightarrow> rat" where
  "pow2 e = (if e < 0 then 1 / 2 ^ nat (- e) else 2 ^ nat e)"

text \<open>The exponent of a positive rational: the largest \<open>e\<close> with \<open>pow2 e \<le> x\<close>.\<close>

definition flog2 :: "rat \<Rightarrow> int" where
  "flog2 x =
     (let (a, b) = quotient_of x;
          e = int (bit_length (nat a)) - int (bit_length (nat b))
      in if pow2 e \<le> x then e else e - 1)"

definition round_even :: "rat \<Rightarrow> int" where
  "round_even q =
     (let f = \<lfloor>q\<rfloor>; d = q - of_int f
      in if d < 1 / 2 then f else if d > 1 / 2 then f + 1 else if even f then f else f + 1)"

text \<open>The unit in the last place of a magnitude: 53 bits of precision, at least \<open>pow2 (-1074)\<close>.\<close>

definition ulp_exp :: "rat \<Rightarrow> int" where
  "ulp_exp x = max (flog2 x - 52) (- 1074)"

definition f64_pos :: "rat \<Rightarrow> rat" where
  "f64_pos x = of_int (round_even (x / pow2 (ulp_exp x))) * pow2 (ulp_exp x)"

definition f64 :: "rat \<Rightarrow> rat" where
  "f64 x = (if x = 0 then 0 else if x < 0 then - f64_pos (- x) else f64_pos x)"

definition is_f64 :: "rat \<Rightarrow> bool" where
  "is_f64 x \<longleftrightarrow> f64 x = x"

definition f64_add :: "rat \<Rightarrow> rat \<Rightarrow> rat" where
  "f64_add x y = f64 (x + y)"

definition f64_div :: "rat \<Rightarrow> rat \<Rightarrow> rat" where
  "f64_div x y = f64 (x / y)"

section \<open>Powers of two\<close>

lemma pow2_pos [simp]: "0 < pow2 e"
  by (simp add: pow2_def)

lemma pow2_powi: "pow2 e = 2 powi e"
  by (auto simp: pow2_def power_int_def inverse_eq_divide power_divide)

lemma pow2_add: "pow2 (a + b) = pow2 a * pow2 b"
  by (simp add: pow2_powi power_int_add)

lemma pow2_mono: "a \<le> b \<Longrightarrow> pow2 a \<le> pow2 b"
  by (simp add: pow2_powi power_int_increasing)

lemma pow2_diff: "pow2 a / pow2 b = pow2 (a - b)"
  by (simp add: pow2_powi power_int_diff)

lemma pow2_int: "0 \<le> e \<Longrightarrow> pow2 e = of_int (2 ^ nat e)"
  by (simp add: pow2_def)

lemma pow2_less_cancel: "pow2 a < pow2 b \<Longrightarrow> a < b"
  using pow2_mono [of b a] by force

lemma bit_length_bounds: "0 < n \<Longrightarrow> 2 ^ (bit_length n - 1) \<le> n \<and> n < 2 ^ bit_length n \<and> 0 < bit_length n"
proof (induction n rule: bit_length.induct)
  case (1 n)
  show ?case
  proof (cases "n div 2 = 0")
    case True
    with "1.prems" have "n = 1" by auto
    then show ?thesis by (simp add: bit_length.simps)
  next
    case False
    let ?k = "bit_length (n div 2)"
    have k: "2 ^ (?k - 1) \<le> n div 2 \<and> n div 2 < 2 ^ ?k \<and> 0 < ?k"
      using "1.IH" "1.prems" False by auto
    have "2 * 2 ^ (?k - 1) = (2::nat) ^ ?k" using k by (cases "?k") auto
    with k have "2 ^ ?k \<le> 2 * (n div 2)" and "2 * (n div 2) + 2 \<le> 2 ^ Suc ?k" by auto
    then have "2 ^ ?k \<le> n \<and> n < 2 ^ Suc ?k" by linarith
    with "1.prems" show ?thesis by (simp add: bit_length.simps [of n])
  qed
qed

lemma flog2_bounds:
  assumes "0 < x"
  shows "pow2 (flog2 x) \<le> x \<and> x < pow2 (flog2 x + 1)"
proof -
  obtain a b where q: "quotient_of x = (a, b)" by (cases "quotient_of x")
  have b: "0 < b" and x: "x = of_int a / of_int b"
    using q quotient_of_denom_pos quotient_of_div by blast+
  with assms have a: "0 < a" by (simp add: zero_less_divide_iff)
  define la lb where "la = int (bit_length (nat a))" and "lb = int (bit_length (nat b))"
  have A: "2 ^ (bit_length (nat a) - 1) \<le> nat a \<and> nat a < 2 ^ bit_length (nat a) \<and> 0 < bit_length (nat a)"
    using a by (intro bit_length_bounds) simp
  have B: "2 ^ (bit_length (nat b) - 1) \<le> nat b \<and> nat b < 2 ^ bit_length (nat b) \<and> 0 < bit_length (nat b)"
    using b by (intro bit_length_bounds) simp
  have up: "of_int a < pow2 la" "of_int b < pow2 lb"
  proof -
    have "(of_nat (nat a) :: rat) < of_nat (2 ^ bit_length (nat a))" using A of_nat_less_iff by blast
    then show "of_int a < pow2 la" using a by (simp add: la_def pow2_def)
    have "(of_nat (nat b) :: rat) < of_nat (2 ^ bit_length (nat b))" using B of_nat_less_iff by blast
    then show "of_int b < pow2 lb" using b by (simp add: lb_def pow2_def)
  qed
  have low: "pow2 (la - 1) \<le> of_int a" "pow2 (lb - 1) \<le> of_int b"
  proof -
    have "(of_nat (2 ^ (bit_length (nat a) - 1)) :: rat) \<le> of_nat (nat a)" using A of_nat_le_iff by blast
    moreover have "nat (la - 1) = bit_length (nat a) - 1" "\<not> la - 1 < 0" using A by (auto simp: la_def)
    ultimately show "pow2 (la - 1) \<le> of_int a" using a by (simp add: pow2_def)
    have "(of_nat (2 ^ (bit_length (nat b) - 1)) :: rat) \<le> of_nat (nat b)" using B of_nat_le_iff by blast
    moreover have "nat (lb - 1) = bit_length (nat b) - 1" "\<not> lb - 1 < 0" using B by (auto simp: lb_def)
    ultimately show "pow2 (lb - 1) \<le> of_int b" using b by (simp add: pow2_def)
  qed
  have bpos: "(0::rat) < of_int b" using b by simp
  have "x < pow2 la / pow2 (lb - 1)"
    unfolding x using up(1) low(2) bpos a by (intro frac_less) simp_all
  then have hi: "x < pow2 (la - lb + 1)" by (simp add: pow2_diff algebra_simps)
  have "pow2 (la - 1) / pow2 lb \<le> x"
    unfolding x using low(1) up(2) bpos a by (intro frac_le) simp_all
  then have lo: "pow2 (la - lb - 1) \<le> x" by (simp add: pow2_diff algebra_simps)
  have f: "flog2 x = (if pow2 (la - lb) \<le> x then la - lb else la - lb - 1)"
    by (simp add: flog2_def q la_def lb_def Let_def)
  show ?thesis using hi lo by (auto simp: f)
qed

lemma flog2_mono: "0 < x \<Longrightarrow> x \<le> y \<Longrightarrow> flog2 x \<le> flog2 y"
proof -
  assume "0 < x" "x \<le> y"
  then have "pow2 (flog2 x) < pow2 (flog2 y + 1)"
    using flog2_bounds [of x] flog2_bounds [of y] by linarith
  then show ?thesis using pow2_less_cancel by fastforce
qed

section \<open>Rounding is monotone\<close>

lemma round_even_of_int [simp]: "round_even (of_int n) = n"
  by (simp add: round_even_def)

lemma round_even_between: "\<lfloor>q\<rfloor> \<le> round_even q \<and> round_even q \<le> \<lfloor>q\<rfloor> + 1"
  by (auto simp: round_even_def Let_def)

lemma round_even_mono:
  assumes "p \<le> q"
  shows "round_even p \<le> round_even q"
proof (cases "\<lfloor>p\<rfloor> = \<lfloor>q\<rfloor>")
  case True
  with assms show ?thesis by (auto simp: round_even_def Let_def)
next
  case False
  with assms have "\<lfloor>p\<rfloor> + 1 \<le> \<lfloor>q\<rfloor>" using floor_mono [OF assms] by linarith
  then show ?thesis using round_even_between [of p] round_even_between [of q] by linarith
qed

lemma f64_pos_pow2:
  assumes "e \<le> k"
  shows "of_int (round_even (pow2 k / pow2 e)) * pow2 e = pow2 k"
proof -
  have "pow2 k / pow2 e = of_int (2 ^ nat (k - e))"
    using assms by (simp add: pow2_diff pow2_int)
  then show ?thesis by (metis nonzero_divide_eq_eq pow2_pos round_even_of_int less_irrefl)
qed

lemma ulp_exp_le: "ulp_exp x < ulp_exp y \<Longrightarrow> ulp_exp x \<le> flog2 y \<and> ulp_exp y \<le> flog2 y \<and> flog2 x < flog2 y"
  by (auto simp: ulp_exp_def max_def split: if_splits)

lemma f64_pos_mono:
  assumes "0 < x" "x \<le> y"
  shows "f64_pos x \<le> f64_pos y"
proof (cases "ulp_exp x = ulp_exp y")
  case True
  have "x / pow2 (ulp_exp y) \<le> y / pow2 (ulp_exp y)"
    using assms by (simp add: divide_right_mono less_imp_le)
  then have "of_int (round_even (x / pow2 (ulp_exp y))) \<le> (of_int (round_even (y / pow2 (ulp_exp y))) :: rat)"
    using round_even_mono by simp
  then show ?thesis by (simp add: f64_pos_def True mult_right_mono less_imp_le)
next
  case False
  have "ulp_exp x \<le> ulp_exp y" using flog2_mono [OF assms] by (simp add: ulp_exp_def)
  with False have le: "ulp_exp x \<le> flog2 y" "ulp_exp y \<le> flog2 y" "flog2 x < flog2 y"
    using ulp_exp_le [of x y] by auto
  have y: "pow2 (flog2 y) \<le> y" using flog2_bounds [of y] assms by auto
  have "x < pow2 (flog2 x + 1)" using flog2_bounds [of x] assms by auto
  also have "\<dots> \<le> pow2 (flog2 y)" using le(3) by (intro pow2_mono) simp
  finally have x: "x \<le> pow2 (flog2 y)" by simp
  have "f64_pos x \<le> of_int (round_even (pow2 (flog2 y) / pow2 (ulp_exp x))) * pow2 (ulp_exp x)"
    using x by (simp add: f64_pos_def mult_right_mono less_imp_le round_even_mono divide_right_mono)
  also have "\<dots> = of_int (round_even (pow2 (flog2 y) / pow2 (ulp_exp y))) * pow2 (ulp_exp y)"
    using le by (simp add: f64_pos_pow2)
  also have "\<dots> \<le> f64_pos y"
    using y by (simp add: f64_pos_def mult_right_mono less_imp_le round_even_mono divide_right_mono)
  finally show ?thesis .
qed

lemma f64_pos_nonneg: "0 < x \<Longrightarrow> 0 \<le> f64_pos x"
proof -
  assume "0 < x"
  then have "0 \<le> x / pow2 (ulp_exp x)" by (simp add: less_imp_le)
  then have "round_even 0 \<le> round_even (x / pow2 (ulp_exp x))" by (rule round_even_mono)
  then show ?thesis
    using round_even_of_int [of 0] by (simp add: f64_pos_def less_imp_le)
qed

lemma f64_mono:
  assumes "x \<le> y"
  shows "f64 x \<le> f64 y"
proof -
  consider "0 < x" | "y < 0" | "x \<le> 0" "0 \<le> y" by linarith
  then show ?thesis
  proof cases
    case 1
    then show ?thesis using assms f64_pos_mono [of x y] by (simp add: f64_def)
  next
    case 2
    then show ?thesis using assms f64_pos_mono [of "- y" "- x"] by (simp add: f64_def)
  next
    case 3
    then show ?thesis
      using f64_pos_nonneg [of "- x"] f64_pos_nonneg [of y] by (auto simp: f64_def)
  qed
qed

lemma f64_0 [simp]: "f64 0 = 0"
  by (simp add: f64_def)

text \<open>Adding something that is not negative to a double does not decrease it.\<close>

lemma f64_add_ge: "is_f64 x \<Longrightarrow> 0 \<le> d \<Longrightarrow> x \<le> f64_add x d"
  using f64_mono [of x "x + d"] by (simp add: f64_add_def is_f64_def)

lemma f64_add_mono: "x \<le> y \<Longrightarrow> f64_add x d \<le> f64_add y d"
  by (simp add: f64_add_def f64_mono)

end
