(* ===== verification/Placement.thy ===== *)
theory Placement
  imports GoFloat
begin

text \<open>
  The contract of choosing a PBX node for a new call, which two components promise: the control
  API's \<open>chooseNode\<close> and the SIP edge's \<open>selectNode\<close>. A policy is given by the nodes it may use,
  the load it compares and the slack within which loads count as equal.
\<close>

locale placement =
  fixes usable :: "'n \<Rightarrow> bool"
    and load :: "'n \<Rightarrow> rat"
    and slack :: "rat \<Rightarrow> rat"
    and pick :: "'n list \<Rightarrow> 'n option"
  assumes pick_usable: "pick ns = Some n \<Longrightarrow> n \<in> set ns \<and> usable n"
    and pick_load: "pick ns = Some n \<Longrightarrow> m \<in> set ns \<Longrightarrow> usable m \<Longrightarrow> load n \<le> slack (load m)"
    and pick_none: "pick ns = None \<longleftrightarrow> (\<forall>m \<in> set ns. \<not> usable m)"
begin

lemma pick_total: "m \<in> set ns \<Longrightarrow> usable m \<Longrightarrow> \<exists>n. pick ns = Some n"
  using pick_none by (cases "pick ns") auto

lemma pick_avoids_overload:
  "pick ns = Some n \<Longrightarrow> m \<in> set ns \<Longrightarrow> usable m \<Longrightarrow> slack (load m) < k \<Longrightarrow> load n \<noteq> k"
  using pick_load by force

lemma pick_only: "\<forall>m \<in> set ns. usable m \<longrightarrow> m = n \<Longrightarrow> n \<in> set ns \<Longrightarrow> usable n \<Longrightarrow> pick ns = Some n"
  using pick_total pick_usable by blast

lemma pick_spec:
  "(\<exists>n. pick ns = Some n \<and> n \<in> set ns \<and> usable n \<and>
      (\<forall>m \<in> set ns. usable m \<longrightarrow> load n \<le> slack (load m))) \<or>
   pick ns = None \<and> (\<forall>m \<in> set ns. \<not> usable m)"
  using pick_usable pick_load pick_none by (cases "pick ns") auto

end

end
