(* ===== verification/EdgeSelect.thy ===== *)
theory EdgeSelect
  imports Placement
begin

text \<open>
  The SIP edge's choice of a PBX node for a new dialog (components/phonarch-sip-gateway,
  cmd/sipgo-lb/main.go, \<open>selectNode\<close>): weighted least load with a round-robin cursor among the
  nodes whose load is within \<open>epsilon\<close> of the least. The cursor is Go's 64-bit \<open>int\<close>, and its
  remainder is Go's, so a cursor that has wrapped to a negative value is an index out of range:
  the panic is a value of the model.
\<close>

section \<open>Nodes as the edge keeps them\<close>

record pbx_node =
  pnNodeID :: string
  pnPrivateIP :: string
  pnMediaPublicIP :: string
  pnSIPUDPPort :: int
  pnSIPTCPPort :: int
  pnControlURL :: string
  pnRole :: string
  pnDrainState :: string
  pnCapacity :: int
  pnActiveCalls :: int
  pnActiveBridges :: int
  pnActiveRTP :: int
  pnRTPPacketsPerSecond :: int
  pnActiveSpeakers :: int
  pnLoadScore :: rat
  pnNodeEpoch :: int
  pnLastSeenUnix :: int

definition node_destination :: "pbx_node \<Rightarrow> string" where
  "node_destination n = pnPrivateIP n @ '':'' @ Itoa (pnSIPUDPPort n)"

section \<open>The choice\<close>

datatype selection = Selected pbx_node | ListFailed | NoLiveNodes | AllAtCapacity | IndexPanic

definition eligible :: "pbx_node \<Rightarrow> bool" where
  "eligible n \<longleftrightarrow>
     pnDrainState n \<noteq> ''DRAINING'' \<and> pnDrainState n \<noteq> ''DRAINED'' \<and> pnActiveCalls n < pnCapacity n"

fun least_load :: "rat \<Rightarrow> pbx_node list \<Rightarrow> rat" where
  "least_load m [] = m"
| "least_load m (n # ns) = least_load (if pnLoadScore n < m then pnLoadScore n else m) ns"

definition load_epsilon :: rat where
  "load_epsilon = f64 (1 / 1000000)"

definition select_candidates :: "pbx_node list \<Rightarrow> pbx_node list" where
  "select_candidates ns =
     (let es = filter eligible ns in
      case es of
        [] \<Rightarrow> []
      | e # rest \<Rightarrow>
          (let min = least_load (pnLoadScore e) rest
           in filter (\<lambda>n. pnLoadScore n \<le> f64_add min load_epsilon) es))"

text \<open>Go's \<open>%\<close> truncates: the remainder has the sign of the dividend.\<close>

definition go_rem :: "int \<Rightarrow> int \<Rightarrow> int" where
  "go_rem a b = sgn a * (\<bar>a\<bar> mod \<bar>b\<bar>)"

definition index_selection :: "pbx_node list \<Rightarrow> int \<Rightarrow> selection" where
  "index_selection cs i = (if 0 \<le> i \<and> i < int (length cs) then Selected (cs ! nat i) else IndexPanic)"

text \<open>\<open>selectNode\<close>: the listing of the registry (an error or the live nodes) and the cursor to the
  selection and the new cursor. A panic leaves the cursor alone.\<close>

definition selectNode :: "unit + pbx_node list \<Rightarrow> 64 word \<Rightarrow> selection \<times> 64 word" where
  "selectNode listing cursor =
     (case listing of
        Inl _ \<Rightarrow> (ListFailed, cursor)
      | Inr ns \<Rightarrow>
          if ns = [] then (NoLiveNodes, cursor)
          else if filter eligible ns = [] then (AllAtCapacity, cursor)
          else let cs = select_candidates ns in
            if cs = [] then (IndexPanic, cursor)
            else case index_selection cs (go_rem (sint cursor) (int (length cs))) of
                IndexPanic \<Rightarrow> (IndexPanic, cursor)
              | sel \<Rightarrow> (sel, cursor + 1))"

section \<open>Facts\<close>

lemma load_epsilon_nonneg: "0 \<le> load_epsilon"
  using f64_mono [of 0 "1 / 1000000"] by (simp add: load_epsilon_def)

lemma least_load_le: "least_load m ns \<le> m \<and> (\<forall>n \<in> set ns. least_load m ns \<le> pnLoadScore n)"
  by (induction m ns rule: least_load.induct) force+

lemma least_load_mem: "least_load m ns = m \<or> (\<exists>n \<in> set ns. least_load m ns = pnLoadScore n)"
  by (induction m ns rule: least_load.induct) auto

definition least :: "pbx_node list \<Rightarrow> rat" where
  "least ns = (case filter eligible ns of [] \<Rightarrow> 0 | e # rest \<Rightarrow> least_load (pnLoadScore e) rest)"

lemma least_lower: "n \<in> set ns \<Longrightarrow> eligible n \<Longrightarrow> least ns \<le> pnLoadScore n"
proof -
  assume "n \<in> set ns" "eligible n"
  then have "n \<in> set (filter eligible ns)" by simp
  then show ?thesis
    using least_load_le by (cases "filter eligible ns") (auto simp: least_def simp del: filter_eq_Cons_iff)
qed

lemma least_attained: "filter eligible ns \<noteq> [] \<Longrightarrow> \<exists>n \<in> set (filter eligible ns). pnLoadScore n = least ns"
proof (cases "filter eligible ns")
  case Nil
  assume "filter eligible ns \<noteq> []"
  with Nil show ?thesis by simp
next
  case (Cons e rest)
  then show ?thesis
    using least_load_mem [of "pnLoadScore e" rest] unfolding Cons by (auto simp: least_def Cons)
qed

lemma select_candidates_eq:
  "select_candidates ns = filter (\<lambda>n. eligible n \<and> pnLoadScore n \<le> f64_add (least ns) load_epsilon) ns"
proof (cases "filter eligible ns")
  case Nil
  have "filter (\<lambda>n. eligible n \<and> pnLoadScore n \<le> f64_add (least ns) load_epsilon) ns =
      filter (\<lambda>n. pnLoadScore n \<le> f64_add (least ns) load_epsilon) (filter eligible ns)"
    by (simp add: conj_commute)
  then show ?thesis by (simp add: select_candidates_def Nil)
next
  case (Cons e rest)
  have "select_candidates ns = filter (\<lambda>n. pnLoadScore n \<le> f64_add (least ns) load_epsilon) (filter eligible ns)"
    by (simp add: select_candidates_def least_def Cons)
  then show ?thesis by (simp add: conj_commute)
qed

text \<open>With doubles as loads, the least loaded node is among the candidates: no division by zero.\<close>

lemma select_candidates_nonempty:
  assumes "\<forall>n \<in> set ns. is_f64 (pnLoadScore n)" and "filter eligible ns \<noteq> []"
  shows "select_candidates ns \<noteq> []"
proof -
  obtain n where n: "n \<in> set (filter eligible ns)" "pnLoadScore n = least ns"
    using least_attained [OF assms(2)] by blast
  then have "is_f64 (least ns)" using assms(1) by (metis filter_is_subset subsetD)
  then have "least ns \<le> f64_add (least ns) load_epsilon"
    by (rule f64_add_ge) (rule load_epsilon_nonneg)
  with n have "n \<in> set (select_candidates ns)" by (simp add: select_candidates_eq)
  then show ?thesis by auto
qed

lemma go_rem_nonneg: "0 \<le> a \<Longrightarrow> 0 < b \<Longrightarrow> go_rem a b = a mod b"
  by (cases "a = 0") (simp_all add: go_rem_def)

lemma selectNode_Selected:
  assumes "ns \<noteq> []" "select_candidates ns \<noteq> []" "filter eligible ns \<noteq> []" "0 \<le> sint c"
  shows "selectNode (Inr ns) c =
    (Selected (select_candidates ns ! nat (sint c mod int (length (select_candidates ns)))), c + 1)"
proof -
  let ?k = "int (length (select_candidates ns))"
  have k: "0 < ?k" using assms(2) by simp
  have "0 \<le> sint c mod ?k \<and> sint c mod ?k < ?k" using k by simp
  with assms k show ?thesis
    by (simp add: selectNode_def Let_def go_rem_nonneg index_selection_def)
qed

lemma selectNode_cases:
  assumes "\<forall>n \<in> set ns. is_f64 (pnLoadScore n)" and "0 \<le> sint c"
  shows "selectNode (Inr ns) c =
    (if ns = [] then (NoLiveNodes, c)
     else if filter eligible ns = [] then (AllAtCapacity, c)
     else (Selected (select_candidates ns ! nat (sint c mod int (length (select_candidates ns)))), c + 1))"
  using selectNode_Selected select_candidates_nonempty [OF assms(1)] assms(2)
  by (simp add: selectNode_def)

lemma selectNode_Selected_mem:
  "selectNode (Inr ns) c = (Selected n, c') \<Longrightarrow> n \<in> set (select_candidates ns)"
  by (auto simp: selectNode_def Let_def index_selection_def split: if_splits selection.splits)

text \<open>The choice as a placement policy, for a cursor that has not wrapped.\<close>

definition edge_pick :: "64 word \<Rightarrow> pbx_node list \<Rightarrow> pbx_node option" where
  "edge_pick c ns =
     (let ds = filter (\<lambda>n. is_f64 (pnLoadScore n)) ns in
      case fst (selectNode (Inr ds) (if 0 \<le> sint c then c else 0)) of Selected n \<Rightarrow> Some n | _ \<Rightarrow> None)"

interpretation edge_placement:
  placement "\<lambda>n. eligible n \<and> is_f64 (pnLoadScore n)" pnLoadScore "\<lambda>x. f64_add x load_epsilon" "edge_pick c"
  for c
proof -
  define d where "d = (if 0 \<le> sint c then c else 0)"
  have d: "0 \<le> sint d" by (simp add: d_def)
  have pick: "edge_pick c ns =
      (let ds = filter (\<lambda>n. is_f64 (pnLoadScore n)) ns in
       if filter eligible ds = [] then None
       else Some (select_candidates ds ! nat (sint d mod int (length (select_candidates ds)))))" for ns
    unfolding edge_pick_def d_def [symmetric] Let_def
    by (subst selectNode_cases) (auto simp: d filter_empty_conv)
  have mem: "n \<in> set (select_candidates (filter (\<lambda>n. is_f64 (pnLoadScore n)) ns))"
    if "edge_pick c ns = Some n" for ns n
  proof -
    let ?cs = "select_candidates (filter (\<lambda>n. is_f64 (pnLoadScore n)) ns)"
    have ne: "?cs \<noteq> []"
      using that by (intro select_candidates_nonempty) (auto simp: pick Let_def split: if_splits)
    then have "nat (sint d mod int (length ?cs)) < length ?cs" by (simp add: nat_less_iff)
    with that show ?thesis by (auto simp: pick Let_def split: if_splits)
  qed
  show "placement (\<lambda>n. eligible n \<and> is_f64 (pnLoadScore n)) pnLoadScore (\<lambda>x. f64_add x load_epsilon) (edge_pick c)"
  proof
    show "edge_pick c ns = Some n \<Longrightarrow> n \<in> set ns \<and> eligible n \<and> is_f64 (pnLoadScore n)" for ns n
      using mem [of ns n] by (simp add: select_candidates_eq)
    show "edge_pick c ns = Some n \<Longrightarrow> m \<in> set ns \<Longrightarrow> eligible m \<and> is_f64 (pnLoadScore m) \<Longrightarrow>
        pnLoadScore n \<le> f64_add (pnLoadScore m) load_epsilon" for ns n m
    proof -
      assume n: "edge_pick c ns = Some n" and m: "m \<in> set ns" "eligible m \<and> is_f64 (pnLoadScore m)"
      let ?ds = "filter (\<lambda>n. is_f64 (pnLoadScore n)) ns"
      have "pnLoadScore n \<le> f64_add (least ?ds) load_epsilon"
        using mem [OF n] by (simp add: select_candidates_eq)
      also have "\<dots> \<le> f64_add (pnLoadScore m) load_epsilon"
        using m by (intro f64_add_mono least_lower) simp_all
      finally show "pnLoadScore n \<le> f64_add (pnLoadScore m) load_epsilon" .
    qed
    show "edge_pick c ns = None \<longleftrightarrow> (\<forall>m \<in> set ns. \<not> (eligible m \<and> is_f64 (pnLoadScore m)))" for ns
      by (auto simp: pick Let_def filter_empty_conv)
  qed
qed

section \<open>Round robin\<close>

text \<open>Successive selections while the registry's listing does not change.\<close>

fun select_run :: "nat \<Rightarrow> pbx_node list \<Rightarrow> 64 word \<Rightarrow> selection list" where
  "select_run 0 ns c = []"
| "select_run (Suc k) ns c = (case selectNode (Inr ns) c of (s, c') \<Rightarrow> s # select_run k ns c')"

lemma sint_succ: "sint (c :: 64 word) < 2 ^ 63 - 1 \<Longrightarrow> sint (c + 1) = sint c + 1"
proof -
  assume a: "sint c < 2 ^ 63 - 1"
  have "- (2 ^ 63) \<le> sint c" using sint_ge [of c] by simp
  then have "signed_take_bit 63 (sint c + 1) = sint c + 1"
    using a by (intro signed_take_bit_int_eq_self) simp_all
  then show ?thesis by (simp add: sint_word_ariths(1))
qed

lemma select_run_eq:
  assumes "\<forall>n \<in> set ns. is_f64 (pnLoadScore n)" "filter eligible ns \<noteq> []"
  shows "0 \<le> sint c \<Longrightarrow> sint c + int k < 2 ^ 63 \<Longrightarrow>
    select_run k ns c =
      map (\<lambda>i. Selected (select_candidates ns ! nat ((sint c + int i) mod int (length (select_candidates ns))))) [0..<k]"
proof (induction k arbitrary: c)
  case 0
  then show ?case by simp
next
  case (Suc k)
  have ns: "ns \<noteq> []" using assms(2) by auto
  have s: "sint (c + 1) = sint c + 1" using Suc.prems by (intro sint_succ) simp
  have upt: "[0..<Suc k] = 0 # map Suc [0..<k]" by (simp add: map_Suc_upt upt_conv_Cons del: upt_Suc)
  have shift: "sint c + 1 + int i = sint c + int (Suc i)" for i by simp
  have "select_run k ns (c + 1) =
      map (\<lambda>i. Selected (select_candidates ns ! nat ((sint c + int (Suc i)) mod int (length (select_candidates ns))))) [0..<k]"
    using Suc.IH [of "c + 1"] Suc.prems unfolding s shift by simp
  then show ?case
    using Suc.prems(1) assms ns by (simp add: upt selectNode_cases o_def del: upt_Suc of_nat_Suc)
qed

lemma shift_mod_surj:
  assumes "0 < k" "0 \<le> c"
  shows "(\<lambda>i. nat ((c + int i) mod int k)) ` {0..<k} = {0..<k}"
proof (rule card_subset_eq)
  show "finite {0..<k}" by simp
  show "(\<lambda>i. nat ((c + int i) mod int k)) ` {0..<k} \<subseteq> {0..<k}"
    using assms by (auto simp: nat_less_iff)
  have "inj_on (\<lambda>i. nat ((c + int i) mod int k)) {0..<k}"
  proof (rule inj_onI)
    fix i j
    assume ij: "i \<in> {0..<k}" "j \<in> {0..<k}" "nat ((c + int i) mod int k) = nat ((c + int j) mod int k)"
    then have "(c + int i) mod int k = (c + int j) mod int k" using assms by (simp add: nat_eq_iff2)
    then have "int i mod int k = int j mod int k" by (metis add.commute mod_add_right_eq add_diff_cancel_left' mod_diff_left_eq)
    with ij show "i = j" by simp
  qed
  then show "card ((\<lambda>i. nat ((c + int i) mod int k)) ` {0..<k}) = card {0..<k}"
    by (rule card_image)
qed

lemma select_run_fair:
  assumes "\<forall>n \<in> set ns. is_f64 (pnLoadScore n)" "filter eligible ns \<noteq> []"
    and "0 \<le> sint c" "sint c + int (length (select_candidates ns)) < 2 ^ 63"
  shows "set (select_run (length (select_candidates ns)) ns c) = Selected ` set (select_candidates ns)"
proof -
  let ?cs = "select_candidates ns"
  have pos: "0 < length ?cs" using select_candidates_nonempty [OF assms(1,2)] by simp
  have "set (select_run (length ?cs) ns c) =
      (\<lambda>i. Selected (?cs ! i)) ` ((\<lambda>i. nat ((sint c + int i) mod int (length ?cs))) ` {0..<length ?cs})"
    unfolding select_run_eq [OF assms] by (simp add: image_image)
  also have "\<dots> = (\<lambda>i. Selected (?cs ! i)) ` {0..<length ?cs}"
    using shift_mod_surj [OF pos assms(3)] by simp
  also have "\<dots> = Selected ` set ?cs"
    by (metis image_image list.set_map map_nth set_upt)
  finally show ?thesis .
qed

end
