(* ===== verification/RedisStore.thy ===== *)
theory RedisStore
  imports GoStrings
begin

text \<open>
  The Redis commands the programs rely on, as an interface: \<open>SET\<close> with an expiry, \<open>GET\<close>, \<open>DEL\<close>
  and \<open>SCAN\<close> with a prefix pattern. Redis itself is not part of the repository, so the definitions
  that use it take a client \<open>R\<close> as an argument; the locale \<open>redis_store\<close> states the documented
  behaviour they rely on. Times are nanoseconds.

  \<open>ttl_client\<close> is a client over an association list with expiry times; it satisfies the interface,
  and the concrete examples run on it.
\<close>

record ('r, 'v) redis_client =
  rget :: "'r \<Rightarrow> int \<Rightarrow> string \<Rightarrow> 'v option"
  rset :: "'r \<Rightarrow> int \<Rightarrow> string \<Rightarrow> 'v \<Rightarrow> int \<Rightarrow> 'r"
  rdel :: "'r \<Rightarrow> string \<Rightarrow> 'r"
  rscan :: "'r \<Rightarrow> int \<Rightarrow> string \<Rightarrow> string list"

locale redis_store =
  fixes R :: "('r, 'v) redis_client"
  assumes get_set: "0 < ttl \<Longrightarrow> t \<le> u \<Longrightarrow> u < t + ttl \<Longrightarrow> rget R (rset R r t k v ttl) u k = Some v"
    and get_set_expired: "0 < ttl \<Longrightarrow> t + ttl \<le> u \<Longrightarrow> rget R (rset R r t k v ttl) u k = None"
    and get_set_other: "j \<noteq> k \<Longrightarrow> rget R (rset R r t k v ttl) u j = rget R r u j"
    and get_del: "rget R (rdel R r k) u j = (if j = k then None else rget R r u j)"
    and scan_keys: "set (rscan R r u p) = {k. HasPrefix k p \<and> rget R r u k \<noteq> None}"
begin

lemma get_set_twice:
  assumes "0 < ttl" "t \<le> u" "u < t + ttl"
  shows "rget R (rset R (rset R r t k v ttl) t j v ttl) u k = Some v"
  using assms by (cases "k = j") (simp_all add: get_set get_set_other)

lemma scan_set:
  assumes "0 < ttl" "t \<le> u" "u < t + ttl"
  shows "set (rscan R (rset R r t k v ttl) u p) =
    (if HasPrefix k p then insert k (set (rscan R r u p)) else set (rscan R r u p))"
proof -
  have "rget R (rset R r t k v ttl) u j \<noteq> None \<longleftrightarrow> j = k \<or> rget R r u j \<noteq> None" for j
    using assms by (cases "j = k") (simp_all add: get_set get_set_other)
  then show ?thesis by (auto simp: scan_keys)
qed

lemma scan_del: "set (rscan R (rdel R r k) u p) = set (rscan R r u p) - {k}"
  by (auto simp: scan_keys get_del)

end

section \<open>A client over an association list\<close>

type_synonym 'v ttl_map = "(string \<times> 'v \<times> int) list"

definition ttl_get :: "'v ttl_map \<Rightarrow> int \<Rightarrow> string \<Rightarrow> 'v option" where
  "ttl_get r u k = (case map_of r k of None \<Rightarrow> None | Some (v, e) \<Rightarrow> if u < e then Some v else None)"

definition ttl_set :: "'v ttl_map \<Rightarrow> int \<Rightarrow> string \<Rightarrow> 'v \<Rightarrow> int \<Rightarrow> 'v ttl_map" where
  "ttl_set r t k v ttl = (k, v, t + ttl) # r"

definition ttl_del :: "'v ttl_map \<Rightarrow> string \<Rightarrow> 'v ttl_map" where
  "ttl_del r k = filter (\<lambda>e. fst e \<noteq> k) r"

definition ttl_scan :: "'v ttl_map \<Rightarrow> int \<Rightarrow> string \<Rightarrow> string list" where
  "ttl_scan r u p = filter (\<lambda>k. HasPrefix k p \<and> \<not> Option.is_none (ttl_get r u k)) (remdups (map fst r))"

definition ttl_client :: "('v ttl_map, 'v) redis_client" where
  "ttl_client = \<lparr>rget = ttl_get, rset = ttl_set, rdel = ttl_del, rscan = ttl_scan\<rparr>"

lemma map_of_filter_key: "map_of (filter (\<lambda>e. fst e \<noteq> k) r) j = (if j = k then None else map_of r j)"
  by (induction r) auto

interpretation ttl_store: redis_store "ttl_client :: ('v ttl_map, 'v) redis_client"
proof
  fix ttl t u :: int and r :: "'v ttl_map" and v :: 'v and j k p :: string
  show "0 < ttl \<Longrightarrow> t \<le> u \<Longrightarrow> u < t + ttl \<Longrightarrow> rget ttl_client (rset ttl_client r t k v ttl) u k = Some v"
    by (simp add: ttl_client_def ttl_get_def ttl_set_def)
  show "0 < ttl \<Longrightarrow> t + ttl \<le> u \<Longrightarrow> rget ttl_client (rset ttl_client r t k v ttl) u k = None"
    by (simp add: ttl_client_def ttl_get_def ttl_set_def)
  show "j \<noteq> k \<Longrightarrow> rget ttl_client (rset ttl_client r t k v ttl) u j = rget ttl_client r u j"
    by (simp add: ttl_client_def ttl_get_def ttl_set_def)
  show "rget ttl_client (rdel ttl_client r k) u j = (if j = k then None else rget ttl_client r u j)"
    by (simp add: ttl_client_def ttl_get_def ttl_del_def map_of_filter_key)
  have "ttl_get r u k \<noteq> None \<Longrightarrow> k \<in> fst ` set r" for k
    by (auto simp: ttl_get_def split: option.splits dest!: map_of_SomeD intro: rev_image_eqI)
  then show "set (rscan ttl_client r u p) = {k. HasPrefix k p \<and> rget ttl_client r u k \<noteq> None}"
    by (auto simp: ttl_client_def ttl_scan_def Option.is_none_def)
qed

end
