(* ===== verification/EdgeDialogs.thy ===== *)
theory EdgeDialogs
  imports EdgeSelect RedisStore
begin

text \<open>
  The SIP edge's registry and request handlers (components/phonarch-sip-gateway,
  cmd/sipgo-lb/main.go). State: the round-robin cursor and the in-memory affinity map of the
  process, and the Redis store shared by all edges. A SIP request is what the handlers read of
  sipgo's type: the header lookup \<open>GetHeaders\<close>, the Call-ID, the parameters of From and To, the
  method and the body. Redis failures are the argument \<open>F\<close> of each handler, the outcome of
  sending a client transaction is \<open>tx_ok\<close>.
\<close>

section \<open>State\<close>

record affinity_entry =
  aeCallID :: string
  aeDestination :: string
  aeFromTag :: string
  aeToTag :: string
  aeNodeEpoch :: int
  aeExpiresAt :: int

record sipgo_advertisement =
  avNodeID :: string
  avPrivateIP :: string
  avPublicIP :: string
  avSIPUDPPort :: int
  avSIPTCPPort :: int
  avHTTPURL :: string
  avRole :: string
  avNodeEpoch :: int
  avLastSeenUnix :: int

datatype redis_value = NodeValue pbx_node | AffinityValue affinity_entry | AdvertValue sipgo_advertisement

record 'r edge =
  cursor :: "64 word"
  affinity :: "string \<rightharpoonup> affinity_entry"
  rdb :: 'r

record sip_request =
  reqMethod :: string
  GetHeaders :: "string \<Rightarrow> string list"
  CallID :: "string option"
  FromParams :: "(string \<rightharpoonup> string) option"
  ToParams :: "(string \<rightharpoonup> string) option"
  Body :: string

record redis_faults =
  scan_ok :: bool
  get_ok :: "string \<Rightarrow> bool"
  exec_ok :: bool

type_synonym 'r client = "('r, redis_value) redis_client"

section \<open>The registry of live nodes\<close>

definition pbx_key :: "string \<Rightarrow> string" where
  "pbx_key nodeID = ''active-pbx:'' @ nodeID"

definition registry_upsert ::
  "'r client \<Rightarrow> int \<Rightarrow> redis_faults \<Rightarrow> int \<Rightarrow> pbx_node \<Rightarrow> 'r \<Rightarrow> bool \<times> 'r" where
  "registry_upsert R now F ttl n r =
     (let n = n\<lparr>pnLastSeenUnix := now div 1000000000\<rparr> in
      if exec_ok F then (True, rset R r now (pbx_key (pnNodeID n)) (NodeValue n) ttl) else (False, r))"

definition registry_remove :: "'r client \<Rightarrow> redis_faults \<Rightarrow> string \<Rightarrow> 'r \<Rightarrow> bool \<times> 'r" where
  "registry_remove R F nodeID r =
     (if exec_ok F then (True, rdel R r (pbx_key nodeID)) else (False, r))"

definition well_formed_node :: "pbx_node \<Rightarrow> bool" where
  "well_formed_node n \<longleftrightarrow> pnNodeID n \<noteq> [] \<and> pnPrivateIP n \<noteq> [] \<and> pnCapacity n > 0"

definition listed_node :: "'r client \<Rightarrow> int \<Rightarrow> redis_faults \<Rightarrow> 'r \<Rightarrow> string \<Rightarrow> pbx_node option" where
  "listed_node R now F r key =
     (if \<not> get_ok F key then None
      else case rget R r now key of
          Some (NodeValue n) \<Rightarrow> if well_formed_node n then Some n else None
        | _ \<Rightarrow> None)"

definition registry_list :: "'r client \<Rightarrow> int \<Rightarrow> redis_faults \<Rightarrow> 'r \<Rightarrow> unit + pbx_node list" where
  "registry_list R now F r =
     (if scan_ok F then Inr (List.map_filter (listed_node R now F r) (rscan R r now ''active-pbx:''))
      else Inl ())"

section \<open>Dialog affinity\<close>

definition dialogTags :: "sip_request \<Rightarrow> string \<times> string" where
  "dialogTags req =
     (let tag = (\<lambda>h. case h of None \<Rightarrow> '''' | Some ps \<Rightarrow> (case ps ''tag'' of None \<Rightarrow> '''' | Some t \<Rightarrow> t))
      in (tag (FromParams req), tag (ToParams req)))"

definition dialogKey :: "string \<Rightarrow> string \<Rightarrow> string \<Rightarrow> string" where
  "dialogKey callID fromTag toTag =
     (if callID = '''' then '''' else ''sip-dialog:'' @ callID @ '':'' @ fromTag @ '':'' @ toTag)"

definition call_id_of :: "sip_request \<Rightarrow> string" where
  "call_id_of req = (case CallID req of None \<Rightarrow> '''' | Some c \<Rightarrow> c)"

definition dialog_ttl :: int where
  "dialog_ttl = 2 * 3600 * 1000000000"

definition base_key :: "string \<Rightarrow> string" where
  "base_key callID = ''sip-dialog:'' @ callID"

text \<open>\<open>bind\<close>: the in-memory entry is written before Redis is asked, and stays when Redis fails.\<close>

definition bind_dialog ::
  "'r client \<Rightarrow> int \<Rightarrow> redis_faults \<Rightarrow> sip_request \<Rightarrow> string \<Rightarrow> int \<Rightarrow> 'r edge \<Rightarrow> bool \<times> 'r edge" where
  "bind_dialog R now F req dst epoch e =
     (let callID = call_id_of req;
          (fromTag, toTag) = dialogTags req;
          entry = \<lparr>aeCallID = callID, aeDestination = dst, aeFromTag = fromTag, aeToTag = toTag,
                   aeNodeEpoch = epoch, aeExpiresAt = now + dialog_ttl\<rparr>;
          e = e\<lparr>affinity := (affinity e)(callID \<mapsto> entry)\<rparr>;
          key = dialogKey callID fromTag toTag
      in if \<not> exec_ok F then (False, e)
         else let r = rset R (rdb e) now (base_key callID) (AffinityValue entry) dialog_ttl;
                  r = (if key \<noteq> '''' then rset R r now key (AffinityValue entry) dialog_ttl else r)
              in (True, e\<lparr>rdb := r\<rparr>))"

definition dialog_get :: "'r client \<Rightarrow> int \<Rightarrow> redis_faults \<Rightarrow> 'r \<Rightarrow> string \<Rightarrow> redis_value option" where
  "dialog_get R now F r key = (if get_ok F key then rget R r now key else None)"

definition destination ::
  "'r client \<Rightarrow> int \<Rightarrow> redis_faults \<Rightarrow> sip_request \<Rightarrow> 'r edge \<Rightarrow> string \<times> 'r edge" where
  "destination R now F req e =
     (let callID = call_id_of req; (fromTag, toTag) = dialogTags req;
          remote =
            (let key = dialogKey callID fromTag toTag;
                 raw = (if key \<noteq> '''' then dialog_get R now F (rdb e) key else None);
                 raw = (case raw of None \<Rightarrow> dialog_get R now F (rdb e) (base_key callID) | Some v \<Rightarrow> Some v)
             in case raw of
                  Some (AffinityValue entry) \<Rightarrow>
                    if now > aeExpiresAt entry then ('''', e)
                    else (aeDestination entry, e\<lparr>affinity := (affinity e)(callID \<mapsto> entry)\<rparr>)
                | _ \<Rightarrow> ('''', e))
      in case affinity e callID of
           Some entry \<Rightarrow> if now < aeExpiresAt entry then (aeDestination entry, e) else remote
         | None \<Rightarrow> remote)"

definition unbind_dialog :: "'r client \<Rightarrow> redis_faults \<Rightarrow> string \<Rightarrow> 'r edge \<Rightarrow> 'r edge" where
  "unbind_dialog R F callID e =
     (let e = e\<lparr>affinity := (affinity e)(callID := None)\<rparr>
      in if exec_ok F then e\<lparr>rdb := rdel R (rdb e) (base_key callID)\<rparr> else e)"

section \<open>Request handlers\<close>

datatype edge_action =
    Respond nat string
  | Forward string
  | WriteAck string
  | NotifyDTMF string
  | NilPanic

definition forward :: "bool \<Rightarrow> string \<Rightarrow> edge_action list" where
  "forward tx_ok dst =
     (if dst = '''' then [Respond 503 ''No PBX Available'']
      else if \<not> tx_ok then [Respond 502 ''Bad Gateway'']
      else [Forward dst])"

definition invite ::
  "'r client \<Rightarrow> int \<Rightarrow> redis_faults \<Rightarrow> bool \<Rightarrow> sip_request \<Rightarrow> 'r edge \<Rightarrow> edge_action list \<times> 'r edge" where
  "invite R now F tx_ok req e =
     (if snd (dialogTags req) \<noteq> '''' then
        (let (dst, e) = destination R now F req e in
         if dst \<noteq> '''' then (forward tx_ok dst, e)
         else ([Respond 481 ''Dialog Does Not Exist''], e))
      else
        (let (sel, c) = selectNode (registry_list R now F (rdb e)) (cursor e); e = e\<lparr>cursor := c\<rparr> in
         case sel of
           Selected n \<Rightarrow>
             (let (ok, e) = bind_dialog R now F req (node_destination n) (pnNodeEpoch n) e in
              if ok then (forward tx_ok (node_destination n), e)
              else ([Respond 503 ''Dialog State Unavailable''], e))
         | IndexPanic \<Rightarrow> ([NilPanic], e)
         | _ \<Rightarrow> ([Respond 503 ''No PBX Available''], e)))"

definition inDialog ::
  "'r client \<Rightarrow> int \<Rightarrow> redis_faults \<Rightarrow> bool \<Rightarrow> sip_request \<Rightarrow> 'r edge \<Rightarrow> edge_action list \<times> 'r edge" where
  "inDialog R now F tx_ok req e =
     (case CallID req of
        None \<Rightarrow> ([NilPanic], e)
      | Some callID \<Rightarrow>
          (let (dst, e) = destination R now F req e in
           if dst = '''' then ([Respond 481 ''Dialog Does Not Exist''], e)
           else if reqMethod req = ''ACK'' then ([WriteAck dst], e)
           else (forward tx_ok dst,
                 if reqMethod req = ''BYE'' \<or> reqMethod req = ''CANCEL'' then unbind_dialog R F callID e else e)))"

section \<open>Facts on an arbitrary store\<close>

lemma dialog_ttl_pos [simp]: "0 < dialog_ttl"
  by (simp add: dialog_ttl_def)

lemma bind_dialog_affinity:
  "bind_dialog R now F req dst ep e = (ok, e') \<Longrightarrow>
     affinity e' = (affinity e)(call_id_of req \<mapsto>
       \<lparr>aeCallID = call_id_of req, aeDestination = dst, aeFromTag = fst (dialogTags req),
        aeToTag = snd (dialogTags req), aeNodeEpoch = ep, aeExpiresAt = now + dialog_ttl\<rparr>) \<and>
     cursor e' = cursor e"
  by (auto simp: bind_dialog_def Let_def split: prod.splits if_splits)

lemma destination_memory:
  "affinity e (call_id_of req) = Some entry \<Longrightarrow> now < aeExpiresAt entry \<Longrightarrow>
     destination R now F req e = (aeDestination entry, e)"
  by (simp add: destination_def Let_def split: prod.splits)

lemma destination_cursor: "destination R now F req e = (d, e') \<Longrightarrow> cursor e' = cursor e \<and> rdb e' = rdb e"
  by (auto simp: destination_def Let_def split: prod.splits option.splits redis_value.splits if_splits)

lemma destination_other:
  "destination R now F req e = (d, e') \<Longrightarrow> c \<noteq> call_id_of req \<Longrightarrow> affinity e' c = affinity e c"
  by (auto simp: destination_def Let_def split: prod.splits option.splits redis_value.splits if_splits)

lemma base_key_inject [simp]: "base_key a = base_key b \<longleftrightarrow> a = b"
  by (simp add: base_key_def)

lemma destination_remote:
  assumes "affinity e (call_id_of req) = None \<or>
      (\<exists>old. affinity e (call_id_of req) = Some old \<and> aeExpiresAt old \<le> now)"
    and "dialog_get R now F (rdb e) (dialogKey (call_id_of req) (fst (dialogTags req)) (snd (dialogTags req))) = None"
    and "dialog_get R now F (rdb e) (base_key (call_id_of req)) = Some (AffinityValue entry)"
    and "now \<le> aeExpiresAt entry"
  shows "destination R now F req e = (aeDestination entry, e\<lparr>affinity := (affinity e)(call_id_of req \<mapsto> entry)\<rparr>)"
  using assms by (auto simp: destination_def Let_def split: prod.splits option.splits)

lemma destination_remote_qualified:
  assumes "affinity e (call_id_of req) = None"
    and "call_id_of req \<noteq> []"
    and "dialog_get R now F (rdb e) (dialogKey (call_id_of req) (fst (dialogTags req)) (snd (dialogTags req))) =
         Some (AffinityValue entry)"
    and "now \<le> aeExpiresAt entry"
  shows "destination R now F req e = (aeDestination entry, e\<lparr>affinity := (affinity e)(call_id_of req \<mapsto> entry)\<rparr>)"
  using assms by (auto simp: destination_def dialogKey_def Let_def split: prod.splits)

lemma destination_unknown:
  assumes "affinity e (call_id_of req) = None"
    and "dialog_get R now F (rdb e) (dialogKey (call_id_of req) (fst (dialogTags req)) (snd (dialogTags req))) = None"
    and "dialog_get R now F (rdb e) (base_key (call_id_of req)) = None"
  shows "destination R now F req e = ('''', e)"
  using assms by (auto simp: destination_def Let_def split: prod.splits)

lemma pbx_key_prefix [simp]: "HasPrefix (pbx_key i) ''active-pbx:''"
  unfolding pbx_key_def by (rule HasPrefix_append)

section \<open>Facts on a store that behaves like Redis\<close>

locale edge_store = redis_store R for R :: "('r, redis_value) redis_client"
begin

lemma bind_base_get:
  assumes "bind_dialog R now F req dst ep e = (True, e')" and "now \<le> u" "u < now + dialog_ttl"
  shows "\<exists>entry. rget R (rdb e') u (base_key (call_id_of req)) = Some (AffinityValue entry) \<and>
     aeDestination entry = dst \<and> aeExpiresAt entry = now + dialog_ttl"
  using assms(1) get_set [OF dialog_ttl_pos assms(2,3)] get_set_twice [OF dialog_ttl_pos assms(2,3)]
  by (auto simp: bind_dialog_def Let_def split: prod.splits if_splits)

lemma bind_qualified_get:
  assumes "bind_dialog R now F req dst ep e = (True, e')" and "now \<le> u" "u < now + dialog_ttl"
    and "call_id_of req \<noteq> []"
  shows "\<exists>entry. rget R (rdb e') u (dialogKey (call_id_of req) (fst (dialogTags req)) (snd (dialogTags req))) =
     Some (AffinityValue entry) \<and> aeDestination entry = dst \<and> aeExpiresAt entry = now + dialog_ttl"
  using assms(1,4) get_set [OF dialog_ttl_pos assms(2,3)]
  by (auto simp: bind_dialog_def dialogKey_def Let_def split: prod.splits if_splits)

lemma bind_other_get:
  assumes "bind_dialog R now F req dst ep e = (True, e')"
    and "k \<noteq> base_key (call_id_of req)"
    and "k \<noteq> dialogKey (call_id_of req) (fst (dialogTags req)) (snd (dialogTags req))"
  shows "rget R (rdb e') u k = rget R (rdb e) u k"
  using assms by (auto simp: bind_dialog_def get_set_other Let_def split: prod.splits if_splits)

text \<open>Within the dialog lifetime a bound Call-ID is found by a process that has lost its memory,
  whatever tags the request carries.\<close>

lemma bound_after_restart:
  assumes "bind_dialog R now F req dst ep e = (True, e1)"
    and "now \<le> u" "u < now + dialog_ttl"
    and "call_id_of req' = call_id_of req"
    and "\<forall>k. get_ok F' k"
    and "rget R (rdb e) u (dialogKey (call_id_of req') (fst (dialogTags req')) (snd (dialogTags req'))) = None"
    and "affinity e2 (call_id_of req) = None" and "rdb e2 = rdb e1"
    and "call_id_of req \<noteq> []"
  shows "fst (destination R u F' req' e2) = dst"
proof -
  let ?q = "dialogKey (call_id_of req') (fst (dialogTags req')) (snd (dialogTags req'))"
  let ?qual = "dialogKey (call_id_of req) (fst (dialogTags req)) (snd (dialogTags req))"
  obtain b where b: "rget R (rdb e1) u (base_key (call_id_of req)) = Some (AffinityValue b)"
    "aeDestination b = dst" "aeExpiresAt b = now + dialog_ttl"
    using bind_base_get [OF assms(1-3)] by blast
  obtain q where q: "rget R (rdb e1) u ?qual = Some (AffinityValue q)"
    "aeDestination q = dst" "aeExpiresAt q = now + dialog_ttl"
    using bind_qualified_get [OF assms(1-3,9)] by blast
  have q_ne_base: "?q \<noteq> base_key (call_id_of req)"
    using assms(9) by (simp add: assms(4) dialogKey_def base_key_def)
  show ?thesis
  proof (cases "?q = ?qual")
    case True
    have "dialog_get R u F' (rdb e2) ?qual = Some (AffinityValue q)"
      using q assms(5,8) by (simp add: dialog_get_def)
    then have d: "dialog_get R u F' (rdb e2) ?q = Some (AffinityValue q)"
      by (rule ssubst [OF True])
    have a: "affinity e2 (call_id_of req') = None" "call_id_of req' \<noteq> []" "u \<le> aeExpiresAt q"
      using assms q by simp_all
    show ?thesis
      unfolding destination_remote_qualified [OF a(1,2) d a(3)] using q by simp
  next
    case False
    then have "rget R (rdb e1) u ?q = None"
      using bind_other_get [OF assms(1) q_ne_base] assms(6) by simp
    then have "dialog_get R u F' (rdb e2) ?q = None" using assms(8) by (simp add: dialog_get_def)
    moreover have "dialog_get R u F' (rdb e2) (base_key (call_id_of req')) = Some (AffinityValue b)"
      using b assms(4,5,8) by (simp add: dialog_get_def)
    ultimately show ?thesis
      using assms b by (subst destination_remote [where entry = b]) simp_all
  qed
qed

lemma unbind_forgets:
  assumes "exec_ok F"
  shows "affinity (unbind_dialog R F c e) c = None"
    and "rget R (rdb (unbind_dialog R F c e)) u (base_key c) = None"
    and "k \<noteq> base_key c \<Longrightarrow> rget R (rdb (unbind_dialog R F c e)) u k = rget R (rdb e) u k"
  using assms by (simp_all add: unbind_dialog_def get_del)

lemma listed_after_upsert:
  assumes "registry_upsert R now F ttl n r = (True, r')" and "0 < ttl" "now \<le> u" "u < now + ttl"
    and "well_formed_node n" and "scan_ok F'" "get_ok F' (pbx_key (pnNodeID n))"
  shows "\<exists>ns. registry_list R u F' r' = Inr ns \<and> n\<lparr>pnLastSeenUnix := now div 1000000000\<rparr> \<in> set ns"
proof -
  let ?n = "n\<lparr>pnLastSeenUnix := now div 1000000000\<rparr>"
  have r': "r' = rset R r now (pbx_key (pnNodeID n)) (NodeValue ?n) ttl"
    using assms(1) by (auto simp: registry_upsert_def Let_def split: if_splits)
  have got: "rget R r' u (pbx_key (pnNodeID n)) = Some (NodeValue ?n)"
    unfolding r' by (rule get_set [OF assms(2-4)])
  then have "pbx_key (pnNodeID n) \<in> set (rscan R r' u ''active-pbx:'')"
    by (simp add: scan_keys pbx_key_prefix)
  moreover have "listed_node R u F' r' (pbx_key (pnNodeID n)) = Some ?n"
    using assms(5,7) got by (simp add: listed_node_def well_formed_node_def)
  ultimately show ?thesis
    using assms(6) by (auto simp: registry_list_def set_map_filter)
qed

lemma expired_not_listed:
  assumes "registry_upsert R now F ttl n r = (True, r')" and "0 < ttl" "now + ttl \<le> u"
  shows "pbx_key (pnNodeID n) \<notin> set (rscan R r' u ''active-pbx:'')"
  using assms by (auto simp: registry_upsert_def Let_def scan_keys get_set_expired split: if_splits)

end

interpretation ttl_edge: edge_store "ttl_client :: (redis_value ttl_map, redis_value) redis_client"
  by unfold_locales

lemma listed_node_well_formed: "listed_node R now F r k = Some n \<Longrightarrow> well_formed_node n"
  by (auto simp: listed_node_def split: if_splits option.splits redis_value.splits)

lemma registry_list_well_formed:
  "registry_list R now F r = Inr ns \<Longrightarrow> n \<in> set ns \<Longrightarrow> well_formed_node n"
  by (auto simp: registry_list_def set_map_filter split: if_splits dest: listed_node_well_formed)

end
