(* ===== verification/EdgeDtmf.thy ===== *)
theory EdgeDtmf
  imports EdgeDialogs
begin

text \<open>
  DTMF relay at the SIP edge (components/phonarch-sip-gateway): recognising a digit in the body of
  a SIP INFO and the INFO handler. The regular expression of the source,
  \<open>(?im)(?:^|[\r\n])\s*(?:signal|digit)\s*[:=]\s*([0-9*#abcd])\<close>, is written out as a
  left-to-right search; after the anchor every step of a match is determined by the next byte, so
  the first position that matches is the match Go's leftmost-first search returns.
\<close>

definition headerValue :: "sip_request \<Rightarrow> string \<Rightarrow> string" where
  "headerValue req name =
     (case GetHeaders req name of
        h # _ \<Rightarrow> h
      | [] \<Rightarrow> (case GetHeaders req (map lower_char name) of h # _ \<Rightarrow> h | [] \<Rightarrow> ''''))"

text \<open>\<open>\s\<close> of Go's regular expressions.\<close>

definition re_space :: "char \<Rightarrow> bool" where
  "re_space c \<longleftrightarrow> c \<in> {CHR 0x09, CHR 0x0A, CHR 0x0C, CHR 0x0D, CHR 0x20}"

text \<open>Matching a lower-case ASCII word without regard to case; U+017F folds to s.\<close>

fun match_fold :: "string \<Rightarrow> string \<Rightarrow> string option" where
  "match_fold [] s = Some s"
| "match_fold (w # ws) [] = None"
| "match_fold (w # ws) (c # cs) =
     (if lower_char c = w then match_fold ws cs
      else if w = CHR ''s'' \<and> c = CHR 0xC5 \<and> take 1 cs = [CHR 0xBF] then match_fold ws (drop 1 cs)
      else None)"

definition dtmf_char :: "char \<Rightarrow> bool" where
  "dtmf_char c \<longleftrightarrow> c \<in> set ''0123456789*#abcdABCD''"

definition dtmf_after_anchor :: "string \<Rightarrow> char option" where
  "dtmf_after_anchor s =
     (let s = dropWhile re_space s;
          rest = (case match_fold ''signal'' s of Some r \<Rightarrow> Some r | None \<Rightarrow> match_fold ''digit'' s)
      in case rest of
           None \<Rightarrow> None
         | Some r \<Rightarrow>
             (case dropWhile re_space r of
                [] \<Rightarrow> None
              | sep # r \<Rightarrow>
                  if sep = CHR '':'' \<or> sep = CHR ''='' then
                    (case dropWhile re_space r of
                       [] \<Rightarrow> None
                     | d # _ \<Rightarrow> if dtmf_char d then Some d else None)
                  else None))"

fun dtmf_search :: "bool \<Rightarrow> string \<Rightarrow> char option" where
  "dtmf_search bol s =
     (case (if bol then dtmf_after_anchor s else None) of
        Some d \<Rightarrow> Some d
      | None \<Rightarrow>
          (case s of
             [] \<Rightarrow> None
           | c # cs \<Rightarrow>
               (case (if c = CHR 0x0D \<or> c = CHR 0x0A then dtmf_after_anchor cs else None) of
                  Some d \<Rightarrow> Some d
                | None \<Rightarrow> dtmf_search (c = CHR 0x0A) cs)))"

declare dtmf_search.simps [simp del]

definition upper_char :: "char \<Rightarrow> char" where
  "upper_char c = (if 97 \<le> char_code c \<and> char_code c \<le> 122 then char_of (char_code c - 32) else c)"

definition parseDTMF :: "sip_request \<Rightarrow> string" where
  "parseDTMF req =
     (let contentType = lower_ascii (headerValue req ''Content-Type'') in
      if \<not> contains contentType ''dtmf'' \<and> \<not> contains contentType ''info-package'' then ''''
      else case dtmf_search True (Body req) of
          None \<Rightarrow> ''''
        | Some d \<Rightarrow> map upper_char (TrimSpace [d]))"

text \<open>The INFO handler: DTMF is answered at the edge, other INFO is in-dialog traffic.\<close>

definition info_handler ::
  "'r client \<Rightarrow> int \<Rightarrow> redis_faults \<Rightarrow> bool \<Rightarrow> sip_request \<Rightarrow> 'r edge \<Rightarrow> edge_action list \<times> 'r edge" where
  "info_handler R now F tx_ok req e =
     (let digit = parseDTMF req in
      if digit = '''' then inDialog R now F tx_ok req e
      else let (dst, e) = destination R now F req e in
        if dst = '''' then ([Respond 481 ''Dialog Does Not Exist''], e)
        else ([NotifyDTMF digit, Respond 200 ''OK''], e))"

section \<open>Facts\<close>

lemma dtmf_after_anchor_char: "dtmf_after_anchor s = Some d \<Longrightarrow> dtmf_char d"
  by (auto simp: dtmf_after_anchor_def Let_def split: option.splits list.splits if_splits)

lemma dtmf_search_char: "dtmf_search bol s = Some d \<Longrightarrow> dtmf_char d"
proof (induction bol s rule: dtmf_search.induct)
  case (1 bol s)
  show ?case
  proof (cases s)
    case Nil
    with "1.prems" show ?thesis
      by (subst (asm) dtmf_search.simps) (auto split: if_splits option.splits intro: dtmf_after_anchor_char)
  next
    case (Cons c cs)
    with "1.prems" "1.IH" [OF _ Cons] show ?thesis
      by (subst (asm) dtmf_search.simps)
        (auto split: if_splits option.splits intro: dtmf_after_anchor_char)
  qed
qed

lemma dtmf_upper: "dtmf_char d \<Longrightarrow> map upper_char (TrimSpace [d]) \<in> (\<lambda>c. [c]) ` set ''0123456789*#ABCD''"
proof -
  assume d: "dtmf_char d"
  then have "\<not> space_byte d" by (auto simp: dtmf_char_def space_byte_def go_spaces_def)
  then have "TrimSpace [d] = [d]" by (intro TrimSpace_id) simp
  moreover have "upper_char d \<in> set ''0123456789*#ABCD''"
  proof -
    have "list_all (\<lambda>c. upper_char c \<in> set ''0123456789*#ABCD'') ''0123456789*#abcdABCD''" by code_simp
    with d show ?thesis by (simp only: dtmf_char_def list_all_iff)
  qed
  ultimately show ?thesis by (simp only: list.map image_eqI)
qed

lemma parseDTMF_range: "parseDTMF req = [] \<or> (\<exists>c \<in> set ''0123456789*#ABCD''. parseDTMF req = [c])"
  using dtmf_upper [OF dtmf_search_char [of True "Body req"]]
  by (auto simp: parseDTMF_def Let_def split: option.splits)

end
