(* ===== verification/Targets.thy ===== *)
theory Targets
  imports GoNumbers
begin

text \<open>
  Lists of addresses in configuration values: the sidecar's heartbeat targets
  (\<open>splitTargets\<close> in phonarch-pbx-sidecar), the standalone heartbeat's (\<open>targets\<close> in
  phonarch-rustpbx/heartbeat) and the control API's SipGo base URLs (\<open>httpTargets\<close>). The three
  loops promise the same: one entry per distinct address, in the order of first occurrence, blanks
  left out. The locale \<open>target_parser\<close> states that promise once.
\<close>

section \<open>The loops\<close>

text \<open>\<open>httpBase\<close> of the control API: a base URL with a scheme and without trailing slashes.\<close>

definition httpBase :: "string \<Rightarrow> string" where
  "httpBase value =
     (if HasPrefix value ''http://'' \<or> HasPrefix value ''https://'' then TrimRight value ''/''
      else ''http://'' @ TrimRight value ''/'')"

text \<open>The loop of \<open>splitTargets\<close>; its state is the map \<open>seen\<close> and the slice \<open>targets\<close>.\<close>

fun splitTargets_loop :: "string set \<Rightarrow> string list \<Rightarrow> string list \<Rightarrow> string list" where
  "splitTargets_loop seen ts [] = ts"
| "splitTargets_loop seen ts (raw # rest) =
     (let target = TrimSpace raw in
      if target = [] then splitTargets_loop seen ts rest
      else if target \<in> seen then splitTargets_loop seen ts rest
      else splitTargets_loop (insert target seen) (ts @ [target]) rest)"

definition splitTargets :: "string \<Rightarrow> string list" where
  "splitTargets value = splitTargets_loop {} [] (split_on CHR '','' value)"

text \<open>The standalone heartbeat's loop.\<close>

fun heartbeat_targets_loop :: "string set \<Rightarrow> string list \<Rightarrow> string list \<Rightarrow> string list" where
  "heartbeat_targets_loop seen out [] = out"
| "heartbeat_targets_loop seen out (raw # rest) =
     (let target = TrimSpace raw in
      if target = [] then heartbeat_targets_loop seen out rest
      else if target \<in> seen then heartbeat_targets_loop seen out rest
      else heartbeat_targets_loop (insert target seen) (out @ [target]) rest)"

definition heartbeat_targets :: "string \<Rightarrow> string list" where
  "heartbeat_targets value = heartbeat_targets_loop {} [] (split_on CHR '','' value)"

text \<open>The control API's loop: the base URL is formed before the duplicate test.\<close>

fun httpTargets_loop :: "string set \<Rightarrow> string list \<Rightarrow> string list \<Rightarrow> string list" where
  "httpTargets_loop seen out [] = out"
| "httpTargets_loop seen out (raw # rest) =
     (let target = TrimSpace raw in
      if target = [] then httpTargets_loop seen out rest
      else let target = httpBase target in
        if target \<in> seen then httpTargets_loop seen out rest
        else httpTargets_loop (insert target seen) (out @ [target]) rest)"

definition httpTargets :: "string \<Rightarrow> string list" where
  "httpTargets value = httpTargets_loop {} [] (split_on CHR '','' value)"

section \<open>The contract\<close>

text \<open>The entries of a value before duplicates are removed.\<close>

definition target_entries :: "(string \<Rightarrow> string) \<Rightarrow> string \<Rightarrow> string list" where
  "target_entries canon value =
     map canon (filter (\<lambda>t. t \<noteq> []) (map TrimSpace (split_on CHR '','' value)))"

locale target_parser =
  fixes parse :: "string \<Rightarrow> string list"
    and canon :: "string \<Rightarrow> string"
  assumes parse_entries: "parse value = uniq {} (target_entries canon value)"
begin

lemma parse_distinct: "distinct (parse value)"
  by (simp add: parse_entries)

lemma parse_member:
  "t \<in> set (parse value) \<longleftrightarrow>
     (\<exists>raw \<in> set (split_on CHR '','' value). TrimSpace raw \<noteq> [] \<and> t = canon (TrimSpace raw))"
  by (auto simp: parse_entries target_entries_def)

text \<open>Joining clean, distinct entries with commas and parsing gives them back.\<close>

lemma parse_join:
  assumes "ts \<noteq> []" and "distinct (map canon ts)"
    and clean: "\<And>t. t \<in> set ts \<Longrightarrow> t \<noteq> [] \<and> CHR '','' \<notin> set t \<and> TrimSpace t = t"
  shows "parse (join_with CHR '','' ts) = map canon ts"
proof -
  have "map TrimSpace ts = ts" using clean by (simp add: map_idI)
  moreover have "filter (\<lambda>t. t \<noteq> []) ts = ts" using clean by (auto simp: filter_id_conv)
  ultimately have "target_entries canon (join_with CHR '','' ts) = map canon ts"
    using assms(1) clean by (simp add: target_entries_def split_join)
  with assms(2) show ?thesis by (simp add: parse_entries uniq_distinct)
qed

text \<open>Two values side by side: the entries of the second that the first does not have follow.\<close>

lemma parse_append:
  assumes "CHR '','' \<notin> set a"
  shows "parse (a @ CHR '','' # b) = uniq {} (parse a @ target_entries canon b)"
proof -
  have "target_entries canon (a @ CHR '','' # b) = target_entries canon a @ target_entries canon b"
    using assms by (simp add: target_entries_def split_on_append_sep split_on_single)
  moreover have "uniq {} (uniq {} xs @ ys) = uniq {} (xs @ ys)" for xs ys :: "string list"
    by (simp add: uniq_append uniq_distinct)
  ultimately show ?thesis by (simp add: parse_entries)
qed

end

lemma splitTargets_loop_eq:
  "splitTargets_loop seen ts raws =
     ts @ uniq seen (filter (\<lambda>t. t \<noteq> []) (map TrimSpace raws))"
  by (induction seen ts raws rule: splitTargets_loop.induct) (auto simp: Let_def)

lemma heartbeat_targets_loop_eq:
  "heartbeat_targets_loop seen ts raws =
     ts @ uniq seen (filter (\<lambda>t. t \<noteq> []) (map TrimSpace raws))"
  by (induction seen ts raws rule: heartbeat_targets_loop.induct) (auto simp: Let_def)

lemma httpTargets_loop_eq:
  "httpTargets_loop seen ts raws =
     ts @ uniq seen (map httpBase (filter (\<lambda>t. t \<noteq> []) (map TrimSpace raws)))"
  by (induction seen ts raws rule: httpTargets_loop.induct) (auto simp: Let_def)

interpretation sidecar_targets: target_parser splitTargets "\<lambda>t. t"
  by unfold_locales (simp add: splitTargets_def splitTargets_loop_eq target_entries_def)

interpretation heartbeat_targets: target_parser heartbeat_targets "\<lambda>t. t"
  by unfold_locales (simp add: heartbeat_targets_def heartbeat_targets_loop_eq target_entries_def)

interpretation http_targets: target_parser httpTargets httpBase
  by unfold_locales (simp add: httpTargets_def httpTargets_loop_eq target_entries_def)

section \<open>Base URLs\<close>

lemma httpBase_fixed:
  "HasPrefix v ''http://'' \<or> HasPrefix v ''https://'' \<Longrightarrow> TrimRight v ''/'' = v \<Longrightarrow> httpBase v = v"
  by (simp add: httpBase_def)

lemma httpBase_no_slash: "TrimRight v ''/'' \<noteq> [] \<Longrightarrow> last (httpBase v) \<noteq> CHR ''/''"
  using TrimRight_last [of v "''/''"] by (simp add: httpBase_def)

end
