(* ===== verification/Sidecar.thy ===== *)
theory Sidecar
  imports Targets GoFloat "HOL-Library.AList"
begin

text \<open>
  The PBX sidecar (components/phonarch-pbx-sidecar, cmd/pbx-sidecar/main.go): its store of calls
  and of remembered command results, the originate, participant and room handlers, and the poll of
  the local engine. The engine's answer to a request is an argument of the definitions. The Go maps
  \<open>calls\<close> and \<open>commands\<close> are guarded by one mutex that a handler releases while it waits for the
  engine, so a handler that posts is two steps, \<open>_begin\<close> and \<open>_finish\<close>; the sequential handler is
  their composition. \<open>sActive\<close> is the \<open>active\<close> counter, which the heartbeat reports.
\<close>

section \<open>State, requests and answers\<close>

record call_state =
  csCallID :: string
  csBridgeID :: string
  csParticipantID :: string
  csPBXMemberID :: string
  csDestination :: string
  csRole :: string
  csDesiredMute :: bool
  csState :: string
  csMuted :: bool
  csVolumeDB :: rat
  csUpdatedAt :: int

text \<open>A document the sidecar answers with: an error, a call, or the engine's JSON object, which is
  \<open>None\<close> for a JSON null (a nil Go map).\<close>

datatype reply = ErrorReply string | CallReply call_state | ObjectReply "(string \<times> json) list option"

record sidecar_response =
  srStatus :: nat
  srBody :: reply

record sidecar =
  sNodeID :: string
  sCalls :: "(string \<times> call_state) list"
  sCommands :: "string \<rightharpoonup> reply"
  sActive :: int
  sBridges :: int
  sEpoch :: int
  sInstance :: string

definition newStore :: "string \<Rightarrow> int \<Rightarrow> string \<Rightarrow> sidecar" where
  "newStore node now inst =
     \<lparr>sNodeID = node, sCalls = [], sCommands = Map.empty, sActive = 0, sBridges = 0,
      sEpoch = now, sInstance = inst\<rparr>"

record originate_in =
  oiCommandID :: string
  oiCallID :: string
  oiBridgeID :: string
  oiParticipantID :: string
  oiDestination :: string
  oiRole :: string
  oiDesiredMute :: bool

record participant_in =
  piCommandID :: string
  piCallID :: string
  piPBXMemberID :: string

record room_in =
  riCommandID :: string
  riWorkspaceID :: string
  riRoomID :: string
  riRoomEpoch :: int
  riParticipantID :: string
  riStreamID :: string
  riRootNodeID :: string
  riMuted :: bool

text \<open>What the sidecar sends: requests to the engine and events to the control API.\<close>

datatype pbx_post =
    PostOriginate originate_in
  | PostParticipant string participant_in
  | PostRoom string room_in

datatype sidecar_event =
    CallEvent string string int string call_state
  | ParticipantEvent string string int string string "(string \<times> json) list option"
  | RoomMediaEvent string string int string string string string "(string \<times> json) list option"

section \<open>Configuration\<close>

definition getenv :: "(string \<Rightarrow> string) \<Rightarrow> string \<Rightarrow> string \<Rightarrow> string" where
  "getenv environ k fallback = (if environ k \<noteq> '''' then environ k else fallback)"

definition getenvInt :: "(string \<Rightarrow> string) \<Rightarrow> string \<Rightarrow> int \<Rightarrow> int" where
  "getenvInt environ k fallback =
     (let v = atoi_value (getenv environ k (Itoa fallback)) in if v \<le> 0 then fallback else v)"

text \<open>\<open>load\<close>: the capacity is read from the environment again at every heartbeat.\<close>

definition load :: "(string \<Rightarrow> string) \<Rightarrow> sidecar \<Rightarrow> int \<times> int \<times> rat" where
  "load environ s =
     (let n = sActive s; c = getenvInt environ ''NODE_CAPACITY'' 500
      in (n, sBridges s, f64_div (f64 (of_int n)) (f64 (of_int c))))"

text \<open>\<open>discoverSIPGoTargets\<close>: the advertisements of the edges in scan order. An entry is \<open>None\<close> when
  it could not be read or decoded; the scan is \<open>None\<close> without a Redis client and ends with an error
  when the flag is set.\<close>

fun sipgo_targets_loop :: "string set \<Rightarrow> string list \<Rightarrow> (string \<times> int) option list \<Rightarrow> string list" where
  "sipgo_targets_loop seen ts [] = ts"
| "sipgo_targets_loop seen ts (None # rest) = sipgo_targets_loop seen ts rest"
| "sipgo_targets_loop seen ts (Some (ip, port) # rest) =
     (if ip = '''' \<or> port \<le> 0 then sipgo_targets_loop seen ts rest
      else let address = ip @ '':'' @ Itoa port in
        if address \<in> seen then sipgo_targets_loop seen ts rest
        else sipgo_targets_loop (insert address seen) (ts @ [address]) rest)"

definition discoverSIPGoTargets ::
  "string list \<Rightarrow> (bool \<times> (string \<times> int) option list) option \<Rightarrow> string list" where
  "discoverSIPGoTargets configured scan =
     (case scan of
        None \<Rightarrow> configured
      | Some (scan_err, entries) \<Rightarrow>
          (let targets = sipgo_targets_loop {} [] entries
           in if scan_err \<or> targets = [] then configured else targets))"

section \<open>Originating a call\<close>

definition originate_command :: "string \<Rightarrow> originate_in \<Rightarrow> originate_in" where
  "originate_command hdr i =
     (let i = (if oiCommandID i = '''' then i\<lparr>oiCommandID := hdr\<rparr> else i)
      in if oiCommandID i = '''' then i\<lparr>oiCommandID := oiCallID i @ '':originate''\<rparr> else i)"

definition originate_begin ::
  "string \<Rightarrow> originate_in option \<Rightarrow> sidecar \<Rightarrow> sidecar_response + originate_in" where
  "originate_begin hdr input s =
     (case input of
        None \<Rightarrow> Inl \<lparr>srStatus = 400, srBody = ErrorReply ''call_id and destination are required''\<rparr>
      | Some i \<Rightarrow>
          if oiCallID i = '''' \<or> oiDestination i = ''''
          then Inl \<lparr>srStatus = 400, srBody = ErrorReply ''call_id and destination are required''\<rparr>
          else (let i = originate_command hdr i in
            case sCommands s (oiCommandID i) of
              Some result \<Rightarrow> Inl \<lparr>srStatus = 200, srBody = result\<rparr>
            | None \<Rightarrow> Inr i))"

definition new_call :: "int \<Rightarrow> originate_in \<Rightarrow> string \<Rightarrow> call_state" where
  "new_call now i member =
     \<lparr>csCallID = oiCallID i, csBridgeID = oiBridgeID i, csParticipantID = oiParticipantID i,
      csPBXMemberID = member, csDestination = oiDestination i, csRole = '''', csDesiredMute = False,
      csState = ''DISPATCHED'', csMuted = oiDesiredMute i, csVolumeDB = 0, csUpdatedAt = now\<rparr>"

definition originate_finish ::
  "int \<Rightarrow> originate_in \<Rightarrow> string + string \<Rightarrow> sidecar \<Rightarrow> sidecar_response \<times> sidecar_event list \<times> sidecar" where
  "originate_finish now i engine s =
     (case engine of
        Inl err \<Rightarrow> (\<lparr>srStatus = 502, srBody = ErrorReply err\<rparr>, [], s)
      | Inr member \<Rightarrow>
          (let call = new_call now i member;
               s = s\<lparr>sCalls := AList.update (oiCallID i) call (sCalls s),
                     sCommands := (sCommands s)(oiCommandID i \<mapsto> CallReply call)\<rparr>;
               s = s\<lparr>sActive := sActive s + 1\<rparr>
           in (\<lparr>srStatus = 202, srBody = CallReply call\<rparr>,
               [CallEvent ''call.dispatched'' (sNodeID s) (sEpoch s) (sInstance s) call], s)))"

definition originate ::
  "int \<Rightarrow> string \<Rightarrow> originate_in option \<Rightarrow> string + string \<Rightarrow> sidecar \<Rightarrow>
     sidecar_response \<times> pbx_post list \<times> sidecar_event list \<times> sidecar" where
  "originate now hdr input engine s =
     (case originate_begin hdr input s of
        Inl r \<Rightarrow> (r, [], [], s)
      | Inr i \<Rightarrow> (case originate_finish now i engine s of (r, es, s') \<Rightarrow> (r, [PostOriginate i], es, s')))"

section \<open>Actions on a participant\<close>

text \<open>The lookup of a call for an action that does not name the engine's member: the first call, in
  the order \<open>order\<close> in which Go's \<open>range\<close> delivers the keys, that has the given call id, or the
  participant's when none is given.\<close>

definition action_call :: "string list \<Rightarrow> string \<Rightarrow> participant_in \<Rightarrow> sidecar \<Rightarrow> call_state option" where
  "action_call order pid i s =
     List.find (\<lambda>call. (piCallID i \<noteq> '''' \<and> csCallID call = piCallID i) \<or>
                       (piCallID i = '''' \<and> csParticipantID call = pid))
       (List.map_filter (map_of (sCalls s)) order)"

definition participant_target :: "string list \<Rightarrow> string \<Rightarrow> participant_in \<Rightarrow> sidecar \<Rightarrow> participant_in" where
  "participant_target order pid i s =
     (if piPBXMemberID i = '''' then
        (case action_call order pid i s of
           None \<Rightarrow> i
         | Some call \<Rightarrow> i\<lparr>piCallID := csCallID call, piPBXMemberID := csPBXMemberID call\<rparr>)
      else i)"

definition participant_command :: "string \<Rightarrow> string \<Rightarrow> string \<Rightarrow> participant_in \<Rightarrow> participant_in" where
  "participant_command hdr pid action i =
     (let i = (if piCommandID i = '''' then i\<lparr>piCommandID := hdr\<rparr> else i)
      in if piCommandID i = '''' then i\<lparr>piCommandID := pid @ '':'' @ action\<rparr> else i)"

text \<open>The id in the path of a request for \<open>action\<close>.\<close>

definition participant_id :: "string \<Rightarrow> string \<Rightarrow> string" where
  "participant_id action path = TrimSuffix (TrimPrefix path ''/v1/participants/'') (''/'' @ action)"

text \<open>The input is what the decoder has put into the fields; its error is ignored.\<close>

definition participant_begin ::
  "string list \<Rightarrow> string \<Rightarrow> string \<Rightarrow> string \<Rightarrow> participant_in \<Rightarrow> sidecar \<Rightarrow> sidecar_response + participant_in" where
  "participant_begin order hdr action pid i s =
     (if pid = '''' then Inl \<lparr>srStatus = 400, srBody = ErrorReply ''participant id required''\<rparr>
      else let i = participant_command hdr pid action (participant_target order pid i s)
           in case sCommands s (piCommandID i) of
                Some cached \<Rightarrow> Inl \<lparr>srStatus = 200, srBody = cached\<rparr>
              | None \<Rightarrow> Inr i)"

definition apply_action :: "string \<Rightarrow> int \<Rightarrow> call_state \<Rightarrow> call_state" where
  "apply_action action now call =
     (let call = (if action = ''mute'' then call\<lparr>csMuted := True\<rparr> else call);
          call = (if action = ''unmute'' then call\<lparr>csMuted := False\<rparr> else call);
          call = (if action = ''drop'' then call\<lparr>csState := ''DROPPED''\<rparr> else call)
      in call\<lparr>csUpdatedAt := now\<rparr>)"

text \<open>The loop over the calls; every step writes the entry it has just read, so the order does not
  matter. It counts the active counter down at every call of the participant it drops.\<close>

fun action_loop ::
  "string \<Rightarrow> string \<Rightarrow> int \<Rightarrow> (string \<times> call_state) list \<Rightarrow> int \<Rightarrow> (string \<times> call_state) list \<times> int" where
  "action_loop action pid now [] act = ([], act)"
| "action_loop action pid now ((callID, call) # rest) act =
     (if csParticipantID call = pid then
        (let act = (if action = ''drop'' then act - 1 else act);
             (rest', act) = action_loop action pid now rest act
         in ((callID, apply_action action now call) # rest', act))
      else (let (rest', act) = action_loop action pid now rest act in ((callID, call) # rest', act)))"

definition participant_path :: "string \<Rightarrow> string \<Rightarrow> string" where
  "participant_path pid action = ''/v1/participants/'' @ pid @ ''/'' @ action"

definition participant_finish ::
  "int \<Rightarrow> string \<Rightarrow> string \<Rightarrow> participant_in \<Rightarrow> string + (string \<times> json) list option \<Rightarrow> sidecar \<Rightarrow>
     sidecar_response \<times> sidecar_event list \<times> sidecar" where
  "participant_finish now action pid i engine s =
     (case engine of
        Inl err \<Rightarrow> (\<lparr>srStatus = 502, srBody = ErrorReply err\<rparr>, [], s)
      | Inr out \<Rightarrow>
          (let (cs, act) = action_loop action pid now (sCalls s) (sActive s);
               s = s\<lparr>sCalls := cs, sActive := act,
                     sCommands := (sCommands s)(piCommandID i \<mapsto> ObjectReply out)\<rparr>
           in (\<lparr>srStatus = 200, srBody = ObjectReply out\<rparr>,
               [ParticipantEvent (''participant.'' @ action) (sNodeID s) (sEpoch s) pid (piCallID i) out], s)))"

definition participantAction ::
  "int \<Rightarrow> string list \<Rightarrow> string \<Rightarrow> string \<Rightarrow> string \<Rightarrow> participant_in \<Rightarrow>
     string + (string \<times> json) list option \<Rightarrow> sidecar \<Rightarrow>
     sidecar_response \<times> pbx_post list \<times> sidecar_event list \<times> sidecar" where
  "participantAction now order hdr action path input engine s =
     (let pid = participant_id action path in
      case participant_begin order hdr action pid input s of
        Inl r \<Rightarrow> (r, [], [], s)
      | Inr i \<Rightarrow>
          (case participant_finish now action pid i engine s of
             (r, es, s') \<Rightarrow> (r, [PostParticipant (participant_path pid action) i], es, s')))"

text \<open>The route \<open>/v1/participants/\<close>: the first action whose name ends the path.\<close>

definition participant_route :: "string \<Rightarrow> string option" where
  "participant_route path =
     List.find (\<lambda>action. HasSuffix path (''/'' @ action)) [''mute'', ''unmute'', ''drop'']"

definition participant_request ::
  "int \<Rightarrow> string list \<Rightarrow> string \<Rightarrow> string \<Rightarrow> participant_in \<Rightarrow>
     string + (string \<times> json) list option \<Rightarrow> sidecar \<Rightarrow>
     sidecar_response \<times> pbx_post list \<times> sidecar_event list \<times> sidecar" where
  "participant_request now order hdr path input engine s =
     (case participant_route path of
        Some action \<Rightarrow> participantAction now order hdr action path input engine s
      | None \<Rightarrow> (\<lparr>srStatus = 404, srBody = ErrorReply ''unknown action''\<rparr>, [], [], s))"

section \<open>Room media\<close>

definition room_parts :: "string \<Rightarrow> (string \<times> string) option" where
  "room_parts path =
     (case split_on CHR ''/'' (Trim (TrimPrefix path ''/v1/rooms/'') ''/'') of
        [room, action] \<Rightarrow> if action = '''' then None else Some (room, action)
      | _ \<Rightarrow> None)"

definition room_command :: "string \<Rightarrow> string \<Rightarrow> string \<Rightarrow> string \<Rightarrow> room_in \<Rightarrow> room_in" where
  "room_command nodeID hdr room action i =
     (let i = (if riRoomID i = '''' then i\<lparr>riRoomID := room\<rparr> else i);
          i = (if riCommandID i = '''' then i\<lparr>riCommandID := hdr\<rparr> else i)
      in if riCommandID i = '''' then i\<lparr>riCommandID := nodeID @ '':room:'' @ room @ '':'' @ action\<rparr> else i)"

definition room_begin ::
  "string \<Rightarrow> string \<Rightarrow> room_in option \<Rightarrow> sidecar \<Rightarrow> sidecar_response + (string \<times> string \<times> room_in)" where
  "room_begin hdr path input s =
     (case room_parts path of
        None \<Rightarrow> Inl \<lparr>srStatus = 400, srBody = ErrorReply ''room action required''\<rparr>
      | Some (room, action) \<Rightarrow>
          (case input of
             None \<Rightarrow> Inl \<lparr>srStatus = 400, srBody = ErrorReply ''invalid JSON''\<rparr>
           | Some i \<Rightarrow>
               (let i = room_command (sNodeID s) hdr room action i in
                case sCommands s (riCommandID i) of
                  Some cached \<Rightarrow> Inl \<lparr>srStatus = 200, srBody = cached\<rparr>
                | None \<Rightarrow> Inr (room, action, i))))"

definition room_path :: "string \<Rightarrow> string \<Rightarrow> string" where
  "room_path room action = ''/v1/rooms/'' @ room @ ''/media/'' @ action"

definition room_finish ::
  "string \<Rightarrow> string \<Rightarrow> room_in \<Rightarrow> string + (string \<times> json) list option \<Rightarrow> sidecar \<Rightarrow>
     sidecar_response \<times> sidecar_event list \<times> sidecar" where
  "room_finish room action i engine s =
     (case engine of
        Inl err \<Rightarrow> (\<lparr>srStatus = 502, srBody = ErrorReply err\<rparr>, [], s)
      | Inr out \<Rightarrow>
          (let out = (case out of
                 None \<Rightarrow> Some [(''status'', JStr ''accepted''), (''room_id'', JStr room), (''action'', JStr action)]
               | Some kvs \<Rightarrow> Some kvs);
               s = s\<lparr>sCommands := (sCommands s)(riCommandID i \<mapsto> ObjectReply out)\<rparr>
           in (\<lparr>srStatus = 200, srBody = ObjectReply out\<rparr>,
               [RoomMediaEvent (''room.media.'' @ action) (sNodeID s) (sEpoch s) (riWorkspaceID i) room
                  (riParticipantID i) (riCommandID i) out], s)))"

definition roomMediaAction ::
  "string \<Rightarrow> string \<Rightarrow> room_in option \<Rightarrow> string + (string \<times> json) list option \<Rightarrow> sidecar \<Rightarrow>
     sidecar_response \<times> pbx_post list \<times> sidecar_event list \<times> sidecar" where
  "roomMediaAction hdr path input engine s =
     (case room_begin hdr path input s of
        Inl r \<Rightarrow> (r, [], [], s)
      | Inr (room, action, i) \<Rightarrow>
          (case room_finish room action i engine s of
             (r, es, s') \<Rightarrow> (r, [PostRoom (room_path room action) i], es, s')))"

section \<open>Reading a call, and the poll\<close>

definition get_call :: "string \<Rightarrow> sidecar \<Rightarrow> sidecar_response" where
  "get_call path s =
     (case map_of (sCalls s) (TrimPrefix path ''/v1/calls/'') of
        None \<Rightarrow> \<lparr>srStatus = 404, srBody = ErrorReply ''not found''\<rparr>
      | Some call \<Rightarrow> \<lparr>srStatus = 200, srBody = CallReply call\<rparr>)"

definition terminalState :: "string \<Rightarrow> bool" where
  "terminalState state \<longleftrightarrow> state = ''ENDED'' \<or> state = ''FAILED'' \<or> state = ''DROPPED''"

text \<open>The engine's view of a call.\<close>

record remote_call =
  rcState :: string
  rcPBXMemberID :: string
  rcMuted :: bool
  rcVolumeDB :: rat

definition poll_snapshot :: "sidecar \<Rightarrow> call_state list" where
  "poll_snapshot s = filter (\<lambda>call. \<not> terminalState (csState call)) (map snd (sCalls s))"

definition merge_remote :: "int \<Rightarrow> remote_call \<Rightarrow> call_state \<Rightarrow> call_state" where
  "merge_remote now remote call =
     (let call = call\<lparr>csState := rcState remote\<rparr>;
          call = (if rcPBXMemberID remote \<noteq> '''' then call\<lparr>csPBXMemberID := rcPBXMemberID remote\<rparr> else call)
      in call\<lparr>csMuted := rcMuted remote, csVolumeDB := rcVolumeDB remote, csUpdatedAt := now\<rparr>)"

text \<open>One call of a tick: \<open>call\<close> is the copy taken when the tick began, \<open>remote\<close> the engine's
  answer, \<open>None\<close> when the request failed.\<close>

definition poll_call :: "int \<Rightarrow> remote_call option \<Rightarrow> call_state \<Rightarrow> sidecar \<Rightarrow> sidecar_event list \<times> sidecar" where
  "poll_call now remote call s =
     (case remote of
        None \<Rightarrow> ([], s)
      | Some remote \<Rightarrow>
          if rcState remote = '''' then ([], s)
          else if csState call = rcState remote \<and> csPBXMemberID call = rcPBXMemberID remote \<and>
                  csMuted call = rcMuted remote \<and> csVolumeDB call = rcVolumeDB remote then ([], s)
          else (let call = merge_remote now remote call;
                    previous = map_of (sCalls s) (csCallID call);
                    s = s\<lparr>sCalls := AList.update (csCallID call) call (sCalls s)\<rparr>;
                    s = (case previous of
                           Some p \<Rightarrow> if \<not> terminalState (csState p) \<and> terminalState (csState call)
                                     then s\<lparr>sActive := sActive s - 1\<rparr> else s
                         | None \<Rightarrow> s)
                in ([CallEvent ''call.state'' (sNodeID s) (sEpoch s) (sInstance s) call], s)))"

fun poll_calls :: "int \<Rightarrow> (string \<Rightarrow> remote_call option) \<Rightarrow> call_state list \<Rightarrow> sidecar \<Rightarrow> sidecar_event list \<times> sidecar" where
  "poll_calls now remote [] s = ([], s)"
| "poll_calls now remote (call # rest) s =
     (let (es, s) = poll_call now (remote (csCallID call)) call s;
          (es', s) = poll_calls now remote rest s
      in (es @ es', s))"

definition poll_tick :: "int \<Rightarrow> (string \<Rightarrow> remote_call option) \<Rightarrow> sidecar \<Rightarrow> sidecar_event list \<times> sidecar" where
  "poll_tick now remote s = poll_calls now remote (poll_snapshot s) s"

end
