(* ===== verification/SidecarFacts.thy ===== *)
theory SidecarFacts
  imports Sidecar
begin

text \<open>
  What the sidecar's handlers guarantee. The three handlers that post to the engine share one
  contract, the locale \<open>command_handler\<close>: a command id is looked up before anything is sent, a
  successful answer is remembered under it, a failed one changes nothing. Its lemmas give the
  idempotence of replayed commands. The second part is the invariant of the store: call ids are
  keys, and the active counter is the number of calls that have not ended; the operations keep it
  except for the cases that are stated with it.
\<close>

section \<open>Remembered commands\<close>

locale command_handler =
  fixes lookup :: "'q \<Rightarrow> sidecar \<Rightarrow> sidecar_response + 'c"
    and key :: "'c \<Rightarrow> string"
    and post :: "'c \<Rightarrow> pbx_post"
    and finish :: "'c \<Rightarrow> 'e \<Rightarrow> sidecar \<Rightarrow> sidecar_response \<times> sidecar_event list \<times> sidecar"
    and success :: "'e \<Rightarrow> bool"
    and handle :: "'q \<Rightarrow> 'e \<Rightarrow> sidecar \<Rightarrow> sidecar_response \<times> pbx_post list \<times> sidecar_event list \<times> sidecar"
  assumes handle_eq: "handle q e s =
      (case lookup q s of
         Inl r \<Rightarrow> (r, [], [], s)
       | Inr c \<Rightarrow> (case finish c e s of (r, es, s') \<Rightarrow> (r, [post c], es, s')))"
    and lookup_fresh: "lookup q s = Inr c \<Longrightarrow> sCommands s (key c) = None"
    and lookup_hit: "lookup q s = Inr c \<Longrightarrow> sNodeID s' = sNodeID s \<Longrightarrow> sCommands s' (key c) = Some d \<Longrightarrow>
      lookup q s' = Inl \<lparr>srStatus = 200, srBody = d\<rparr>"
    and finish_success: "success e \<Longrightarrow> finish c e s = (r, es, s') \<Longrightarrow>
      sCommands s' = (sCommands s)(key c \<mapsto> srBody r) \<and> sNodeID s' = sNodeID s \<and> srStatus r < 300"
    and finish_failure: "\<not> success e \<Longrightarrow> finish c e s = (r, es, s') \<Longrightarrow>
      s' = s \<and> es = [] \<and> srStatus r = 502"
begin

lemma handle_Inr:
  "lookup q s = Inr c \<Longrightarrow> handle q e s = (r, ps, es, s') \<Longrightarrow> finish c e s = (r, es, s') \<and> ps = [post c]"
  by (auto simp: handle_eq split: prod.splits)

lemma handle_Inl: "lookup q s = Inl r0 \<Longrightarrow> handle q e s = (r0, [], [], s)"
  by (simp add: handle_eq)

lemma remembers:
  assumes "handle q e s = (r, ps, es, s')" and "sCommands s k = Some d"
  shows "sCommands s' k = Some d"
proof (cases "lookup q s")
  case (Inl r0)
  then show ?thesis using assms handle_Inl [OF Inl, of e] by simp
next
  case (Inr c)
  then have "k \<noteq> key c" using lookup_fresh [OF Inr] assms(2) by force
  moreover have fin: "finish c e s = (r, es, s')" using handle_Inr [OF Inr assms(1)] ..
  ultimately show ?thesis
    using finish_success [OF _ fin] finish_failure [OF _ fin] assms(2) by (cases "success e") simp_all
qed

lemma same_node:
  assumes "handle q e s = (r, ps, es, s')"
  shows "sNodeID s' = sNodeID s"
proof (cases "lookup q s")
  case (Inl r0)
  then show ?thesis using assms handle_Inl [OF Inl, of e] by simp
next
  case (Inr c)
  have fin: "finish c e s = (r, es, s')" using handle_Inr [OF Inr assms(1)] ..
  show ?thesis
    using finish_success [OF _ fin] finish_failure [OF _ fin] by (cases "success e") simp_all
qed

lemma posts_once:
  assumes "handle q e s = (r, ps, es, s')"
  shows "ps = [] \<and> s' = s \<or> (\<exists>c. ps = [post c] \<and> sCommands s (key c) = None)"
  using assms by (auto simp: handle_eq dest: lookup_fresh split: prod.splits sum.splits)

text \<open>A command that has succeeded is answered from memory, whatever the engine would say now.\<close>

lemma replay:
  assumes "handle q e s = (r, p # ps, es, s')" and "success e"
    and "sNodeID t = sNodeID s'"
    and "\<And>k d. sCommands s' k = Some d \<Longrightarrow> sCommands t k = Some d"
  shows "handle q e' t = (\<lparr>srStatus = 200, srBody = srBody r\<rparr>, [], [], t)"
proof -
  obtain c where c: "lookup q s = Inr c" "finish c e s = (r, es, s')"
    using assms(1) by (auto simp: handle_eq split: prod.splits sum.splits)
  then have "sCommands s' (key c) = Some (srBody r)" "sNodeID s' = sNodeID s"
    using finish_success [OF assms(2)] by auto
  with assms(3,4) lookup_hit [OF c(1)] have "lookup q t = Inl \<lparr>srStatus = 200, srBody = srBody r\<rparr>"
    by auto
  then show ?thesis by (simp add: handle_eq)
qed

text \<open>A failed command leaves no trace, so it is tried again.\<close>

lemma failure_retried:
  assumes "handle q e s = (r, p # ps, es, s')" and "\<not> success e"
  shows "srStatus r = 502 \<and> s' = s \<and> es = [] \<and> (\<exists>r' es' s''. handle q e' s' = (r', p # ps, es', s''))"
proof -
  obtain c where c: "lookup q s = Inr c" "finish c e s = (r, es, s')" "p = post c" "ps = []"
    using assms(1) by (auto simp: handle_eq split: prod.splits sum.splits)
  with finish_failure [OF assms(2) c(2)] show ?thesis by (auto simp: handle_eq split: prod.splits)
qed

end

type_synonym 'o engine_answer = "int \<times> (string + 'o)"

definition engine_ok :: "'o engine_answer \<Rightarrow> bool" where
  "engine_ok e = (case snd e of Inl _ \<Rightarrow> False | Inr _ \<Rightarrow> True)"

interpretation originates: command_handler
  "\<lambda>(hdr, i) s. originate_begin hdr i s" oiCommandID PostOriginate
  "\<lambda>i e s. originate_finish (fst e) i (snd e) s" engine_ok
  "\<lambda>(hdr, i) e s. originate (fst e) hdr i (snd e) s"
  by unfold_locales
    (auto simp: originate_def originate_begin_def originate_finish_def engine_ok_def Let_def
      split: option.splits sum.splits if_splits prod.splits)

lemma participant_target_command [simp]:
  "piCommandID (participant_target order pid i s) = piCommandID i"
  by (simp add: participant_target_def split: option.splits)

lemma participant_command_id:
  "piCommandID (participant_command hdr pid action i) =
     (if piCommandID i \<noteq> '''' then piCommandID i else if hdr \<noteq> '''' then hdr else pid @ '':'' @ action)"
  by (simp add: participant_command_def Let_def)

interpretation actions: command_handler
  "\<lambda>(order, hdr, action, path, i) s.
     map_sum (\<lambda>r. r) (\<lambda>c. (action, participant_id action path, c))
       (participant_begin order hdr action (participant_id action path) i s)"
  "\<lambda>(action, pid, c). piCommandID c"
  "\<lambda>(action, pid, c). PostParticipant (participant_path pid action) c"
  "\<lambda>(action, pid, c) e s. participant_finish (fst e) action pid c (snd e) s" engine_ok
  "\<lambda>(order, hdr, action, path, i) e s. participantAction (fst e) order hdr action path i (snd e) s"
  by unfold_locales
    (auto simp: participantAction_def participant_begin_def participant_finish_def engine_ok_def
      participant_command_id Let_def split: option.splits sum.splits if_splits prod.splits)

interpretation room_media: command_handler
  "\<lambda>(hdr, path, i) s. room_begin hdr path i s" "\<lambda>(room, action, c). riCommandID c"
  "\<lambda>(room, action, c). PostRoom (room_path room action) c"
  "\<lambda>(room, action, c) e s. room_finish room action c (snd e) s" "engine_ok"
  "\<lambda>(hdr, path, i) e s. roomMediaAction hdr path i (snd e) s"
  by unfold_locales
    (auto simp: roomMediaAction_def room_begin_def room_finish_def engine_ok_def Let_def
      split: option.splits sum.splits if_splits prod.splits)

section \<open>Runs of one request after the other\<close>

datatype sidecar_op =
    Originate string "originate_in option" "string engine_answer"
  | Action "string list" string string participant_in "(string \<times> json) list option engine_answer"
  | RoomMedia string string "room_in option" "(string \<times> json) list option engine_answer"
  | Poll int "string \<Rightarrow> remote_call option"

fun sidecar_apply :: "sidecar_op \<Rightarrow> sidecar \<Rightarrow> pbx_post list \<times> sidecar" where
  "sidecar_apply (Originate hdr i e) s =
     (case originate (fst e) hdr i (snd e) s of (r, ps, es, s') \<Rightarrow> (ps, s'))"
| "sidecar_apply (Action order hdr path i e) s =
     (case participant_request (fst e) order hdr path i (snd e) s of (r, ps, es, s') \<Rightarrow> (ps, s'))"
| "sidecar_apply (RoomMedia hdr path i e) s =
     (case roomMediaAction hdr path i (snd e) s of (r, ps, es, s') \<Rightarrow> (ps, s'))"
| "sidecar_apply (Poll now remote) s = ([], snd (poll_tick now remote s))"

fun sidecar_run :: "sidecar_op list \<Rightarrow> sidecar \<Rightarrow> pbx_post list \<times> sidecar" where
  "sidecar_run [] s = ([], s)"
| "sidecar_run (op # ops) s =
     (let (ps, s) = sidecar_apply op s; (qs, s) = sidecar_run ops s in (ps @ qs, s))"

lemma poll_call_commands:
  "sCommands (snd (poll_call now r c s)) = sCommands s \<and> sNodeID (snd (poll_call now r c s)) = sNodeID s"
  by (simp add: poll_call_def Let_def split: option.splits)

lemma poll_calls_commands:
  "sCommands (snd (poll_calls now r cs s)) = sCommands s \<and> sNodeID (snd (poll_calls now r cs s)) = sNodeID s"
proof (induction cs arbitrary: s)
  case (Cons c cs)
  then show ?case
    using poll_call_commands [of now "r (csCallID c)" c s]
    by (simp add: case_prod_unfold Let_def)
qed simp

lemma poll_tick_commands:
  "sCommands (snd (poll_tick now r s)) = sCommands s" "sNodeID (snd (poll_tick now r s)) = sNodeID s"
  by (simp_all add: poll_tick_def poll_calls_commands)

lemma apply_remembers:
  assumes "sidecar_apply op s = (ps, s')"
  shows "sNodeID s' = sNodeID s \<and> (\<forall>k d. sCommands s k = Some d \<longrightarrow> sCommands s' k = Some d)"
proof (cases op)
  case (Originate hdr i e)
  with assms obtain r es where "originate (fst e) hdr i (snd e) s = (r, ps, es, s')"
    by (auto split: prod.splits)
  then show ?thesis
    using originates.remembers [of "(hdr, i)" e] originates.same_node [of "(hdr, i)" e] by auto
next
  case (Action order hdr path i e)
  show ?thesis
  proof (cases "participant_route path")
    case None
    with Action assms show ?thesis by (simp add: participant_request_def)
  next
    case (Some action)
    with Action assms obtain r es where
      "participantAction (fst e) order hdr action path i (snd e) s = (r, ps, es, s')"
      by (auto simp: participant_request_def split: prod.splits)
    then show ?thesis
      using actions.remembers [of "(order, hdr, action, path, i)" e]
        actions.same_node [of "(order, hdr, action, path, i)" e] by auto
  qed
next
  case (RoomMedia hdr path i e)
  with assms obtain r es where "roomMediaAction hdr path i (snd e) s = (r, ps, es, s')"
    by (auto split: prod.splits)
  then show ?thesis
    using room_media.remembers [of "(hdr, path, i)" e] room_media.same_node [of "(hdr, path, i)" e] by auto
next
  case (Poll now r)
  with assms show ?thesis using poll_tick_commands [of now r s] by auto
qed

lemma run_remembers:
  "sidecar_run ops s = (ps, s') \<Longrightarrow>
     sNodeID s' = sNodeID s \<and> (\<forall>k d. sCommands s k = Some d \<longrightarrow> sCommands s' k = Some d)"
proof (induction ops arbitrary: s ps)
  case (Cons op ops)
  obtain qs t where t: "sidecar_apply op s = (qs, t)" by fastforce
  with Cons.prems obtain qs' where "sidecar_run ops t = (qs', s')"
    by (auto split: prod.splits)
  with Cons.IH apply_remembers [OF t] show ?case by fastforce
qed simp

section \<open>The active counter\<close>

definition live_calls :: "(string \<times> call_state) list \<Rightarrow> nat" where
  "live_calls cs = length (filter (\<lambda>p. \<not> terminalState (csState (snd p))) cs)"

definition alive :: "call_state \<Rightarrow> int" where
  "alive c = (if terminalState (csState c) then 0 else 1)"

definition alive_opt :: "call_state option \<Rightarrow> int" where
  "alive_opt c = (case c of None \<Rightarrow> 0 | Some c \<Rightarrow> alive c)"

definition keyed :: "sidecar \<Rightarrow> bool" where
  "keyed s \<longleftrightarrow> distinct (map fst (sCalls s)) \<and> (\<forall>(k, c) \<in> set (sCalls s). csCallID c = k)"

definition counted :: "sidecar \<Rightarrow> bool" where
  "counted s \<longleftrightarrow> sActive s = int (live_calls (sCalls s))"

lemma live_calls_simps [simp]:
  "live_calls [] = 0"
  "live_calls ((k, c) # cs) = (if terminalState (csState c) then live_calls cs else Suc (live_calls cs))"
  by (simp_all add: live_calls_def)

lemma live_update:
  "distinct (map fst cs) \<Longrightarrow>
     int (live_calls (AList.update k c cs)) = int (live_calls cs) + alive c - alive_opt (map_of cs k)"
proof (induction cs)
  case (Cons p cs)
  obtain j d where p: "p = (j, d)" by fastforce
  have "map_of cs k = None" if "j = k" using Cons.prems that p by (simp add: map_of_eq_None_iff)
  with Cons p show ?case by (auto simp: alive_opt_def alive_def)
qed (simp add: alive_opt_def alive_def)

lemma keyed_update:
  assumes "keyed s" and "csCallID c = k" and "sCalls s' = AList.update k c (sCalls s)"
  shows "keyed s'"
proof -
  have "csCallID d = j" if "(j, d) \<in> set (AList.update k c (sCalls s))" for j d
  proof -
    have "map_of (AList.update k c (sCalls s)) j = Some d"
      using that assms(1) by (simp add: keyed_def distinct_update)
    then have "j = k \<and> d = c \<or> map_of (sCalls s) j = Some d"
      by (auto simp: update_conv' split: if_splits)
    with assms(1,2) show ?thesis by (auto simp: keyed_def dest: map_of_SomeD)
  qed
  with assms(1,3) show ?thesis by (auto simp: keyed_def distinct_update)
qed

text \<open>The effect of an originate on the counter.\<close>

lemma originate_store:
  assumes "originate now hdr i engine s = (r, ps, es, s')" and "keyed s"
  shows "keyed s' \<and> (ps = [] \<and> s' = s \<or>
     (\<exists>c. ps = [PostOriginate c] \<and> (engine_ok (now, engine) \<or> s' = s) \<and>
       (engine_ok (now, engine) \<longrightarrow>
        sActive s' = sActive s + 1 \<and>
        int (live_calls (sCalls s')) = int (live_calls (sCalls s)) + 1 - alive_opt (map_of (sCalls s) (oiCallID c)))))"
proof (cases "originate_begin hdr i s")
  case (Inl r0)
  then show ?thesis using assms by (simp add: originate_def)
next
  case (Inr c)
  show ?thesis
  proof (cases engine)
    case (Inl e)
    then show ?thesis
      using assms Inr by (auto simp: originate_def originate_finish_def engine_ok_def)
  next
    case eng: (Inr m)
    have s': "sCalls s' = AList.update (oiCallID c) (new_call now c m) (sCalls s)" "sActive s' = sActive s + 1"
      "ps = [PostOriginate c]"
      using assms Inr eng by (auto simp: originate_def originate_finish_def Let_def)
    have "keyed s'" by (rule keyed_update [OF assms(2) _ s'(1)]) (simp add: new_call_def)
    moreover have "alive (new_call now c m) = 1" by (simp add: alive_def new_call_def terminalState_def)
    ultimately show ?thesis
      using assms(2) s' live_update [of "sCalls s" "oiCallID c" "new_call now c m"]
      by (simp add: keyed_def engine_ok_def eng)
  qed
qed

text \<open>Dropping a participant ends every call of the participant, and counts all of them down, those
  that had ended before as well.\<close>

definition calls_of :: "string \<Rightarrow> (string \<times> call_state) list \<Rightarrow> call_state list" where
  "calls_of pid cs = filter (\<lambda>c. csParticipantID c = pid) (map snd cs)"

definition ended_calls_of :: "string \<Rightarrow> (string \<times> call_state) list \<Rightarrow> nat" where
  "ended_calls_of pid cs = length (filter (\<lambda>c. terminalState (csState c)) (calls_of pid cs))"

lemma calls_of_simps [simp]:
  "calls_of pid [] = []"
  "calls_of pid ((k, c) # cs) = (if csParticipantID c = pid then c # calls_of pid cs else calls_of pid cs)"
  by (simp_all add: calls_of_def)

lemma apply_action_simps [simp]:
  "csCallID (apply_action action now c) = csCallID c"
  "csParticipantID (apply_action action now c) = csParticipantID c"
  "csPBXMemberID (apply_action action now c) = csPBXMemberID c"
  "csState (apply_action action now c) = (if action = ''drop'' then ''DROPPED'' else csState c)"
  "csMuted (apply_action action now c) =
     (if action = ''mute'' then True else if action = ''unmute'' then False else csMuted c)"
  by (simp_all add: apply_action_def Let_def)

lemma action_loop_calls:
  "fst (action_loop action pid now cs act) =
     map (\<lambda>(k, c). (k, if csParticipantID c = pid then apply_action action now c else c)) cs"
  by (induction action pid now cs act rule: action_loop.induct) (simp_all add: case_prod_unfold Let_def)

lemma action_loop_active:
  "snd (action_loop action pid now cs act) =
     act - (if action = ''drop'' then int (length (calls_of pid cs)) else 0)"
  by (induction action pid now cs act rule: action_loop.induct)
    (auto simp: case_prod_unfold Let_def)

lemma action_live:
  "int (live_calls (map (\<lambda>(k, c). (k, if csParticipantID c = pid then apply_action action now c else c)) cs)) =
     int (live_calls cs) -
       (if action = ''drop'' then int (length (calls_of pid cs)) - int (ended_calls_of pid cs) else 0)"
  by (induction cs) (auto simp: ended_calls_of_def alive_def terminalState_def)

lemma participant_finish_store:
  assumes "participant_finish now action pid c engine s = (r, es, s')" and "keyed s"
  shows "keyed s'" and "engine_ok (now, engine) \<Longrightarrow>
     sActive s' - int (live_calls (sCalls s')) =
       sActive s - int (live_calls (sCalls s)) - (if action = ''drop'' then int (ended_calls_of pid (sCalls s)) else 0)"
proof -
  have s': "sCalls s' = (if engine_ok (now, engine)
        then map (\<lambda>(k, c). (k, if csParticipantID c = pid then apply_action action now c else c)) (sCalls s)
        else sCalls s)"
    and a: "engine_ok (now, engine) \<Longrightarrow> sActive s' = snd (action_loop action pid now (sCalls s) (sActive s))"
    using assms(1) action_loop_calls [of action pid now "sCalls s" "sActive s"]
    by (auto simp: participant_finish_def engine_ok_def split: sum.splits prod.splits)
  show "keyed s'"
    using assms(2) s' by (auto simp: keyed_def comp_def case_prod_unfold)
  show "engine_ok (now, engine) \<Longrightarrow> sActive s' - int (live_calls (sCalls s')) =
     sActive s - int (live_calls (sCalls s)) - (if action = ''drop'' then int (ended_calls_of pid (sCalls s)) else 0)"
    using s' a by (simp add: action_live action_loop_active)
qed

text \<open>The poll: a call is compared with its own entry, so each step keeps the count.\<close>

lemma merge_remote_id [simp]: "csCallID (merge_remote now r c) = csCallID c"
  by (simp add: merge_remote_def Let_def)

lemma poll_call_cases:
  assumes "map_of (sCalls s) (csCallID c) = Some p"
  obtains "snd (poll_call now r c s) = s"
  | x act where "r = Some x" and "rcState x \<noteq> []"
    and "snd (poll_call now r c s) =
      s\<lparr>sCalls := AList.update (csCallID c) (merge_remote now x c) (sCalls s), sActive := act\<rparr>"
    and "act = sActive s - (if \<not> terminalState (csState p) \<and> terminalState (rcState x) then 1 else 0)"
proof -
  have st: "csState (merge_remote now x c) = rcState x" for x by (simp add: merge_remote_def Let_def)
  show thesis if "snd (poll_call now r c s) = s \<Longrightarrow> thesis"
    and "\<And>x act. r = Some x \<Longrightarrow> rcState x \<noteq> [] \<Longrightarrow> snd (poll_call now r c s) =
      s\<lparr>sCalls := AList.update (csCallID c) (merge_remote now x c) (sCalls s), sActive := act\<rparr> \<Longrightarrow>
      act = sActive s - (if \<not> terminalState (csState p) \<and> terminalState (rcState x) then 1 else 0) \<Longrightarrow> thesis"
  proof (cases "r = None \<or> (\<exists>x. r = Some x \<and> (rcState x = [] \<or>
      csState c = rcState x \<and> csPBXMemberID c = rcPBXMemberID x \<and> csMuted c = rcMuted x \<and> csVolumeDB c = rcVolumeDB x))")
    case True
    then show thesis by (intro that(1)) (auto simp: poll_call_def)
  next
    case False
    then obtain x where x: "r = Some x" "rcState x \<noteq> []" by auto
    show thesis
      by (rule that(2) [OF x _ refl]) (use False x assms in \<open>auto simp: poll_call_def st Let_def\<close>)
  qed
qed

lemma poll_call_keyed:
  assumes "keyed s" and "map_of (sCalls s) (csCallID c) = Some p"
  shows "keyed (snd (poll_call now r c s))"
proof (rule poll_call_cases [OF assms(2), of now r])
  fix x act
  assume x: "snd (poll_call now r c s) =
      s\<lparr>sCalls := AList.update (csCallID c) (merge_remote now x c) (sCalls s), sActive := act\<rparr>"
  show ?thesis
    unfolding x by (rule keyed_update [OF assms(1), where c = "merge_remote now x c"]) simp_all
qed (use assms(1) in simp)

lemma poll_call_other:
  assumes "map_of (sCalls s) (csCallID c) = Some p" and "j \<noteq> csCallID c"
  shows "map_of (sCalls (snd (poll_call now r c s))) j = map_of (sCalls s) j"
  by (rule poll_call_cases [OF assms(1), of now r]) (use assms(2) in \<open>auto simp: update_conv'\<close>)

lemma poll_call_counted:
  assumes "keyed s" and "map_of (sCalls s) (csCallID c) = Some p" and "\<not> terminalState (csState p)"
  shows "sActive (snd (poll_call now r c s)) - int (live_calls (sCalls (snd (poll_call now r c s)))) =
    sActive s - int (live_calls (sCalls s))"
proof (rule poll_call_cases [OF assms(2), of now r])
  fix x act
  assume x: "snd (poll_call now r c s) =
      s\<lparr>sCalls := AList.update (csCallID c) (merge_remote now x c) (sCalls s), sActive := act\<rparr>"
    "act = sActive s - (if \<not> terminalState (csState p) \<and> terminalState (rcState x) then 1 else 0)"
  have "alive (merge_remote now x c) = (if terminalState (rcState x) then 0 else 1)"
    by (simp add: alive_def merge_remote_def Let_def)
  then show ?thesis
    using assms live_update [of "sCalls s" "csCallID c" "merge_remote now x c"]
    unfolding x by (simp add: keyed_def alive_opt_def alive_def)
qed simp

lemma poll_calls_store:
  assumes "keyed s" and "distinct (map csCallID cs)"
    and "\<And>c. c \<in> set cs \<Longrightarrow> map_of (sCalls s) (csCallID c) = Some c \<and> \<not> terminalState (csState c)"
  shows "keyed (snd (poll_calls now r cs s)) \<and>
    sActive (snd (poll_calls now r cs s)) - int (live_calls (sCalls (snd (poll_calls now r cs s)))) =
      sActive s - int (live_calls (sCalls s))"
  using assms
proof (induction cs arbitrary: s)
  case (Cons c cs)
  let ?t = "snd (poll_call now (r (csCallID c)) c s)"
  have c: "map_of (sCalls s) (csCallID c) = Some c" "\<not> terminalState (csState c)" using Cons.prems(3) by auto
  have "map_of (sCalls ?t) (csCallID d) = Some d \<and> \<not> terminalState (csState d)" if "d \<in> set cs" for d
  proof -
    have "csCallID d \<noteq> csCallID c" using Cons.prems(2) imageI [OF that, of csCallID] by auto
    with Cons.prems(3) [of d] that poll_call_other [OF c(1)] show ?thesis by simp
  qed
  then have "keyed (snd (poll_calls now r cs ?t)) \<and>
    sActive (snd (poll_calls now r cs ?t)) - int (live_calls (sCalls (snd (poll_calls now r cs ?t)))) =
      sActive ?t - int (live_calls (sCalls ?t))"
    using Cons.prems(2) by (intro Cons.IH poll_call_keyed [OF Cons.prems(1) c(1)]) simp_all
  with poll_call_counted [OF Cons.prems(1) c] show ?case by (simp add: case_prod_unfold Let_def)
qed simp

lemma poll_tick_store:
  assumes "keyed s"
  shows "keyed (snd (poll_tick now r s))"
    and "sActive (snd (poll_tick now r s)) - int (live_calls (sCalls (snd (poll_tick now r s)))) =
      sActive s - int (live_calls (sCalls s))"
proof -
  have map: "map csCallID (poll_snapshot s) = map fst (filter (\<lambda>p. \<not> terminalState (csState (snd p))) (sCalls s))"
    using assms by (auto simp: poll_snapshot_def keyed_def filter_map comp_def intro!: map_cong)
  have "distinct (map csCallID (poll_snapshot s))"
    unfolding map using assms by (simp add: keyed_def distinct_map_filter)
  moreover have "map_of (sCalls s) (csCallID c) = Some c \<and> \<not> terminalState (csState c)"
    if "c \<in> set (poll_snapshot s)" for c
    using that assms by (auto simp: poll_snapshot_def keyed_def)
  ultimately have "keyed (snd (poll_calls now r (poll_snapshot s) s)) \<and>
    sActive (snd (poll_calls now r (poll_snapshot s) s)) -
      int (live_calls (sCalls (snd (poll_calls now r (poll_snapshot s) s)))) =
      sActive s - int (live_calls (sCalls s))"
    by (rule poll_calls_store [OF assms])
  then show "keyed (snd (poll_tick now r s))"
    and "sActive (snd (poll_tick now r s)) - int (live_calls (sCalls (snd (poll_tick now r s)))) =
      sActive s - int (live_calls (sCalls s))"
    by (simp_all add: poll_tick_def)
qed

text \<open>A run keeps the call ids as keys, and the counter is exact along it as long as every originate
  that reaches the engine names a call that is not live and no drop meets an ended call.\<close>

fun accurate_op :: "sidecar_op \<Rightarrow> sidecar \<Rightarrow> bool" where
  "accurate_op (Originate hdr i e) s =
     (case originate_begin hdr i s of
        Inl r \<Rightarrow> True
      | Inr c \<Rightarrow> alive_opt (map_of (sCalls s) (oiCallID c)) = 0)"
| "accurate_op (Action order hdr path i e) s =
     (participant_route path = Some ''drop'' \<longrightarrow> ended_calls_of (participant_id ''drop'' path) (sCalls s) = 0)"
| "accurate_op (RoomMedia hdr path i e) s = True"
| "accurate_op (Poll now remote) s = True"

fun accurate_run :: "sidecar_op list \<Rightarrow> sidecar \<Rightarrow> bool" where
  "accurate_run [] s = True"
| "accurate_run (op # ops) s = (accurate_op op s \<and> accurate_run ops (snd (sidecar_apply op s)))"

lemma room_store:
  "roomMediaAction hdr path i engine s = (r, ps, es, s') \<Longrightarrow> sCalls s' = sCalls s \<and> sActive s' = sActive s"
  by (auto simp: roomMediaAction_def room_begin_def room_finish_def Let_def
      split: option.splits sum.splits if_splits prod.splits)

lemma action_store:
  assumes "participantAction now order hdr action path i engine s = (r, ps, es, s')" and "keyed s"
  shows "keyed s'" and "action = ''drop'' \<longrightarrow> ended_calls_of (participant_id action path) (sCalls s) = 0 \<Longrightarrow>
    sActive s' - int (live_calls (sCalls s')) = sActive s - int (live_calls (sCalls s))"
proof -
  consider "s' = s" | c where "participant_finish now action (participant_id action path) c engine s = (r, es, s')"
    using assms(1) by (auto simp: participantAction_def Let_def split: sum.splits prod.splits)
  note two = this
  show "keyed s'" using two by cases (use assms(2) participant_finish_store(1) in \<open>auto\<close>)
  assume none: "action = ''drop'' \<longrightarrow> ended_calls_of (participant_id action path) (sCalls s) = 0"
  show "sActive s' - int (live_calls (sCalls s')) = sActive s - int (live_calls (sCalls s))"
    using two
  proof cases
    case (2 c)
    show ?thesis
    proof (cases "engine_ok (now, engine)")
      case True
      with participant_finish_store(2) [OF 2 assms(2)] none show ?thesis by auto
    next
      case False
      with actions.finish_failure [of "(now, engine)" "(action, participant_id action path, c)" s] 2
      show ?thesis by auto
    qed
  qed simp
qed

lemma apply_store:
  assumes "keyed s"
  shows "keyed (snd (sidecar_apply op s))"
    and "accurate_op op s \<Longrightarrow> counted s \<Longrightarrow> counted (snd (sidecar_apply op s))"
proof -
  have "keyed (snd (sidecar_apply op s)) \<and>
    (accurate_op op s \<longrightarrow> counted s \<longrightarrow> counted (snd (sidecar_apply op s)))"
  proof (cases op)
    case (Originate hdr i e)
    obtain r ps es s' where o: "originate (fst e) hdr i (snd e) s = (r, ps, es, s')" by (metis prod_cases4)
    have "counted s'" if "accurate_op op s" "counted s"
      using originate_store [OF o assms] that originates.handle_Inr [of "(hdr, i)" s _ e r ps es s'] o Originate
      by (cases "originate_begin hdr i s") (auto simp: counted_def originate_def)
    with Originate o originate_store [OF o assms] show ?thesis by auto
  next
    case (Action order hdr path i e)
    show ?thesis
    proof (cases "participant_route path")
      case None
      with Action assms show ?thesis by (simp add: participant_request_def)
    next
      case (Some action)
      obtain r ps es s' where o: "participantAction (fst e) order hdr action path i (snd e) s = (r, ps, es, s')"
        by (metis prod_cases4)
      with Action Some action_store [OF o assms] show ?thesis
        by (auto simp: participant_request_def counted_def)
    qed
  next
    case (RoomMedia hdr path i e)
    obtain r ps es s' where o: "roomMediaAction hdr path i (snd e) s = (r, ps, es, s')" by (metis prod_cases4)
    with RoomMedia room_store [OF o] assms show ?thesis by (simp add: keyed_def counted_def)
  next
    case (Poll now r)
    with poll_tick_store [OF assms, of now r] show ?thesis by (simp add: counted_def)
  qed
  then show "keyed (snd (sidecar_apply op s))"
    and "accurate_op op s \<Longrightarrow> counted s \<Longrightarrow> counted (snd (sidecar_apply op s))" by auto
qed

lemma run_keyed: "keyed s \<Longrightarrow> keyed (snd (sidecar_run ops s))"
proof (induction ops arbitrary: s)
  case (Cons op ops)
  with apply_store(1) [of s op] show ?case by (simp add: case_prod_unfold Let_def)
qed simp

lemma run_counted: "keyed s \<Longrightarrow> counted s \<Longrightarrow> accurate_run ops s \<Longrightarrow> counted (snd (sidecar_run ops s))"
proof (induction ops arbitrary: s)
  case (Cons op ops)
  with apply_store [of s op] show ?case by (simp add: case_prod_unfold Let_def)
qed simp

lemma newStore_ok: "keyed (newStore n e i)" "counted (newStore n e i)"
  by (simp_all add: keyed_def counted_def newStore_def)

section \<open>Properties\<close>

text \<open>C23: an originate command that has succeeded is idempotent: whatever requests and polls the
  sidecar serves afterwards, the same request is answered from memory with the same call, sends
  nothing to the engine and changes nothing.\<close>

theorem originate_replay:
  assumes "originate now hdr input (Inr member) s = (r, p # ps, es, s1)"
    and "sidecar_run ops s1 = (posts, s2)"
  shows "originate now' hdr input engine' s2 = (\<lparr>srStatus = 200, srBody = srBody r\<rparr>, [], [], s2)"
  using originates.replay [of "(hdr, input)" "(now, Inr member)" s r p ps es s1 s2 "(now', engine')"]
    run_remembers [OF assms(2)] assms(1) by (simp add: engine_ok_def)

definition sample_call :: originate_in where
  "sample_call = \<lparr>oiCommandID = '''', oiCallID = ''c1'', oiBridgeID = ''b'', oiParticipantID = ''p1'',
     oiDestination = ''+911'', oiRole = ''HOST'', oiDesiredMute = True\<rparr>"

definition sample_node :: sidecar where
  "sample_node = newStore ''core-1'' 7 ''i''"

definition sample_dispatched :: sidecar where
  "sample_dispatched =
     sample_node\<lparr>sCalls := [(''c1'', new_call 9 sample_call ''m'')],
       sCommands := [''c1:originate'' \<mapsto> CallReply (new_call 9 sample_call ''m'')], sActive := 1\<rparr>"

lemmas sample_defs = sample_call_def sample_node_def sample_dispatched_def newStore_def

lemma sample_originate:
  "originate 9 '''' (Some sample_call) (Inr ''m'') sample_node =
     (\<lparr>srStatus = 202, srBody = CallReply (new_call 9 sample_call ''m'')\<rparr>,
      [PostOriginate (sample_call\<lparr>oiCommandID := ''c1:originate''\<rparr>)],
      [CallEvent ''call.dispatched'' ''core-1'' 7 ''i'' (new_call 9 sample_call ''m'')], sample_dispatched)"
  by (simp add: originate_def originate_begin_def originate_command_def originate_finish_def
      new_call_def sample_defs Let_def)

theorem originate_replay_witness:
  "originate 11 '''' (Some sample_call) (Inl ''timeout'') (snd (sidecar_run [Poll 10 (\<lambda>_. None)] sample_dispatched)) =
     (\<lparr>srStatus = 200, srBody = CallReply (new_call 9 sample_call ''m'')\<rparr>, [], [],
      snd (sidecar_run [Poll 10 (\<lambda>_. None)] sample_dispatched))"
  using originate_replay [OF sample_originate, of "[Poll 10 (\<lambda>_. None)]"]
  by (metis prod.collapse sidecar_response.select_convs(2))


definition sample_run :: "sidecar_op list" where
  "sample_run =
     [Originate '''' (Some sample_call) (9, Inr ''m''),
      Poll 10 (\<lambda>_. Some \<lparr>rcState = ''ENDED'', rcPBXMemberID = '''', rcMuted = True, rcVolumeDB = 0\<rparr>)]"


text \<open>A drop that the engine accepts ends every call of its participant and leaves the others as
  they are; the counter goes down by the number of the participant's calls, including those that had
  ended before, so it undercounts by exactly their number.\<close>

theorem drop_effect:
  assumes "participantAction now order hdr ''drop'' path i (Inr out) s = (r, p # ps, es, s')" and "keyed s"
  shows "(\<forall>c \<in> set (calls_of (participant_id ''drop'' path) (sCalls s')). csState c = ''DROPPED'') \<and>
    (\<forall>k c. map_of (sCalls s) k = Some c \<and> csParticipantID c \<noteq> participant_id ''drop'' path \<longrightarrow>
       map_of (sCalls s') k = Some c) \<and>
    sActive s' = sActive s - int (length (calls_of (participant_id ''drop'' path) (sCalls s))) \<and>
    sActive s' - int (live_calls (sCalls s')) =
      sActive s - int (live_calls (sCalls s)) - int (ended_calls_of (participant_id ''drop'' path) (sCalls s))"
proof -
  let ?p = "participant_id ''drop'' path"
  obtain c where f: "participant_finish now ''drop'' ?p c (Inr out) s = (r, es, s')"
    using assms(1) by (auto simp: participantAction_def Let_def split: sum.splits prod.splits)
  then have cs: "sCalls s' = fst (action_loop ''drop'' ?p now (sCalls s) (sActive s))"
    "sActive s' = snd (action_loop ''drop'' ?p now (sCalls s) (sActive s))"
    by (auto simp: participant_finish_def split: prod.splits)
  show ?thesis
    using participant_finish_store(2) [OF f assms(2)]
    by (simp add: cs action_loop_active engine_ok_def)
      (auto simp: action_loop_calls calls_of_def map_of_map_restrict map_of_map)
qed

definition drop_input :: participant_in where
  "drop_input = \<lparr>piCommandID = ''k'', piCallID = '''', piPBXMemberID = ''m''\<rparr>"

text \<open>The participant was called twice: the first call has ended, the second is live.\<close>

definition sample_redialed :: sidecar where
  "sample_redialed =
     sample_node\<lparr>sCalls := [(''c1'', new_call 9 sample_call ''m'' \<lparr>csState := ''ENDED''\<rparr>),
                        (''c2'', new_call 9 (sample_call\<lparr>oiCallID := ''c2''\<rparr>) ''m'')], sActive := 1\<rparr>"

lemma participant_id_path [simp]: "participant_id action (participant_path pid action) = pid"
proof -
  have "TrimPrefix (participant_path pid action) ''/v1/participants/'' = pid @ ''/'' @ action"
    unfolding participant_path_def by (rule TrimPrefix_append)
  then show ?thesis unfolding participant_id_def by (simp only: TrimSuffix_append)
qed

theorem drop_effect_witness:
  "\<exists>r p ps es s'. participantAction 20 [] '''' ''drop'' (participant_path ''p1'' ''drop'') drop_input (Inr None)
       sample_redialed = (r, p # ps, es, s') \<and>
     sActive s' - int (live_calls (sCalls s')) = -1"
proof -
  have b: "participant_begin [] '''' ''drop'' ''p1'' drop_input sample_redialed = Inr drop_input"
    by (simp add: participant_begin_def participant_target_def participant_command_def drop_input_def
        sample_redialed_def sample_defs Let_def)
  obtain r es s' where f: "participant_finish 20 ''drop'' ''p1'' drop_input (Inr None) sample_redialed = (r, es, s')"
    by (metis prod_cases3)
  have a: "participantAction 20 [] '''' ''drop'' (participant_path ''p1'' ''drop'') drop_input (Inr None)
       sample_redialed = (r, PostParticipant (participant_path ''p1'' ''drop'') drop_input # [], es, s')"
    by (simp add: participantAction_def b f)
  have "keyed sample_redialed" "counted sample_redialed" "ended_calls_of ''p1'' (sCalls sample_redialed) = 1"
    by (simp_all add: keyed_def counted_def ended_calls_of_def sample_redialed_def sample_defs new_call_def
        terminalState_def)
  with drop_effect [OF a] a show ?thesis by (auto simp: counted_def)
qed

text \<open>C27: two originate requests with the same command id that are both looked up before either is
  answered are both sent to the engine; when both succeed the counter is one above the number of
  live calls.\<close>

theorem originate_race:
  assumes "originate_begin hdr input s = Inr c" and "keyed s" and "counted s"
    and "alive_opt (map_of (sCalls s) (oiCallID c)) = 0"
    and "originate_finish n1 c (Inr m1) s = (r1, es1, s1)"
    and "originate_finish n2 c (Inr m2) s1 = (r2, es2, s2)"
  shows "sActive s2 = int (live_calls (sCalls s2)) + 1"
proof -
  have s1: "sCalls s1 = AList.update (oiCallID c) (new_call n1 c m1) (sCalls s)" "sActive s1 = sActive s + 1"
    and s2: "sCalls s2 = AList.update (oiCallID c) (new_call n2 c m2) (sCalls s1)" "sActive s2 = sActive s1 + 1"
    using assms(5,6) by (auto simp: originate_finish_def Let_def)
  have "alive (new_call n c m) = 1" for n m by (simp add: alive_def new_call_def terminalState_def)
  moreover have "distinct (map fst (sCalls s1))" using assms(2) s1 by (simp add: keyed_def distinct_update)
  ultimately show ?thesis
    using assms(2-4) s1 s2
      live_update [of "sCalls s" "oiCallID c" "new_call n1 c m1"]
      live_update [of "sCalls s1" "oiCallID c" "new_call n2 c m2"]
    by (simp add: keyed_def counted_def update_conv' alive_opt_def)
qed

theorem originate_race_witness:
  "\<exists>c s1 s2 r1 r2 es1 es2.
     originate_begin '''' (Some sample_call) sample_node = Inr c \<and>
     originate_finish 1 c (Inr ''m'') sample_node = (r1, es1, s1) \<and>
     originate_finish 2 c (Inr ''n'') s1 = (r2, es2, s2) \<and>
     sActive s2 = int (live_calls (sCalls s2)) + 1"
proof -
  let ?c = "sample_call\<lparr>oiCommandID := ''c1:originate''\<rparr>"
  have b: "originate_begin '''' (Some sample_call) sample_node = Inr ?c"
    by (simp add: originate_begin_def originate_command_def sample_defs Let_def)
  have k: "keyed sample_node" "counted sample_node" unfolding sample_node_def by (rule newStore_ok)+
  have n: "alive_opt (map_of (sCalls sample_node) (oiCallID ?c)) = 0" by (simp add: alive_opt_def sample_defs)
  obtain r1 es1 s1 where f1: "originate_finish 1 ?c (Inr ''m'') sample_node = (r1, es1, s1)" by (metis prod_cases3)
  obtain r2 es2 s2 where f2: "originate_finish 2 ?c (Inr ''n'') s1 = (r2, es2, s2)" by (metis prod_cases3)
  from originate_race [OF b k n f1 f2] b f1 f2 show ?thesis by blast
qed

text \<open>The path by which the control API addresses an action on a participant is routed to that
  action with that participant's id, and an unknown action is answered 404.\<close>

theorem participant_path_routed:
  "participant_route (participant_path pid ''mute'') = Some ''mute'' \<and>
   participant_route (participant_path pid ''unmute'') = Some ''unmute'' \<and>
   participant_route (participant_path pid ''drop'') = Some ''drop'' \<and>
   participant_route (participant_path pid ''volume'') = None \<and>
   participant_id action (participant_path pid action) = pid"
  by (simp add: participant_route_def) (simp add: participant_path_def HasSuffix_def HasPrefix_def)

end
