(* ===== verification/ControlNodes.thy ===== *)
theory ControlNodes
  imports Placement Targets
begin

text \<open>
  How the control API finds media nodes (components/phonarch-platform-api, \<open>nodes\<close>,
  \<open>discoveredSipgoURLs\<close>, \<open>chooseNode\<close>): it collects the base URLs of the SIP edges, asks them in
  turn for the live PBX nodes, and places a call on the usable node with the least load. The HTTP
  exchange with an edge and the Redis scan are arguments of the definitions.
\<close>

section \<open>Nodes\<close>

record node =
  NodeID :: string
  ControlURL :: string
  PrivateIP :: string
  MediaPublicIP :: string
  Role :: string
  DrainState :: string
  Capacity :: int
  ActiveCalls :: int
  ActiveRTP :: int
  RTPPacketsPerSecond :: int
  ActiveSpeakers :: int
  LoadScore :: rat
  NodeEpoch :: int

text \<open>One request to an edge: it cannot be sent, it is answered with an error status, its body
  does not decode, or it lists nodes. The first three carry the error text.\<close>

datatype fetched = RequestError string | ErrorStatus string | BadBody string | NodeList "node list"

section \<open>Discovery\<close>

text \<open>The advertisements under \<open>active-sipgo:*\<close> in scan order; \<open>None\<close> is an entry that could not be
  read or decoded. Without a Redis client there are none.\<close>

definition discoveredSipgoURLs :: "string option list option \<Rightarrow> string list" where
  "discoveredSipgoURLs scan =
     (case scan of
        None \<Rightarrow> []
      | Some advs \<Rightarrow>
          map httpBase (filter (\<lambda>u. u \<noteq> []) (map (\<lambda>a. case a of None \<Rightarrow> [] | Some u \<Rightarrow> u) advs)))"

fun ordered_targets :: "string set \<Rightarrow> string list \<Rightarrow> string list \<Rightarrow> string list" where
  "ordered_targets unique ordered [] = ordered"
| "ordered_targets unique ordered (target # rest) =
     (if target = [] then ordered_targets unique ordered rest
      else if target \<in> unique then ordered_targets unique ordered rest
      else ordered_targets (insert target unique) (ordered @ [target]) rest)"

definition nodes_url :: "string \<Rightarrow> string" where
  "nodes_url target = TrimRight target ''/'' @ ''/internal/v1/nodes''"

fun fetch_error :: "fetched \<Rightarrow> string option" where
  "fetch_error (RequestError e) = Some e"
| "fetch_error (ErrorStatus st) = Some (''SIPGo nodes returned '' @ st)"
| "fetch_error (BadBody e) = Some e"
| "fetch_error (NodeList ns) = None"

fun nodes_loop :: "(string \<Rightarrow> fetched) \<Rightarrow> string option \<Rightarrow> string list \<Rightarrow> string + node list" where
  "nodes_loop fetch lastErr [] =
     Inl (case lastErr of None \<Rightarrow> ''no SipGo HTTP targets configured'' | Some e \<Rightarrow> e)"
| "nodes_loop fetch lastErr (target # rest) =
     (case fetch (nodes_url target) of
        NodeList ns \<Rightarrow> Inr ns
      | r \<Rightarrow> nodes_loop fetch (fetch_error r) rest)"

definition nodes :: "(string \<Rightarrow> fetched) \<Rightarrow> string option list option \<Rightarrow> string list \<Rightarrow> string + node list" where
  "nodes fetch scan sipgoURLs =
     nodes_loop fetch None (ordered_targets {} [] (discoveredSipgoURLs scan @ sipgoURLs))"

section \<open>Placement of a call\<close>

definition media_call :: "string \<Rightarrow> bool" where
  "media_call callRole \<longleftrightarrow> EqualFold callRole ''HOST'' \<or> EqualFold callRole ''LISTENER''"

definition root_node :: "node \<Rightarrow> bool" where
  "root_node n \<longleftrightarrow> EqualFold (Role n) ''root'' \<or> EqualFold (Role n) ''mixer''"

fun chooseNode_loop :: "string \<Rightarrow> node option \<Rightarrow> node list \<Rightarrow> node option" where
  "chooseNode_loop callRole best [] = best"
| "chooseNode_loop callRole best (n # ns) =
     (if media_call callRole \<and> root_node n then chooseNode_loop callRole best ns
      else if ControlURL n = [] \<or> DrainState n = ''DRAINING'' \<or> DrainState n = ''DRAINED'' \<or>
              Capacity n \<le> ActiveCalls n then chooseNode_loop callRole best ns
      else (case best of
              None \<Rightarrow> chooseNode_loop callRole (Some n) ns
            | Some b \<Rightarrow>
                if LoadScore n < LoadScore b then chooseNode_loop callRole (Some n) ns
                else chooseNode_loop callRole best ns))"

definition chooseNode :: "node list \<Rightarrow> string \<Rightarrow> string + node" where
  "chooseNode ns callRole =
     (case chooseNode_loop callRole None ns of
        None \<Rightarrow> Inl ''no available PBX sidecar''
      | Some n \<Rightarrow> Inr n)"

text \<open>The owner of a call leg: the first listed node with the recorded id, which must not be empty.\<close>

definition owner_of :: "node list \<Rightarrow> string \<Rightarrow> node option" where
  "owner_of ns nodeID =
     (case List.find (\<lambda>n. NodeID n = nodeID) ns of
        None \<Rightarrow> None
      | Some n \<Rightarrow> if NodeID n = [] then None else Some n)"

section \<open>Facts about discovery\<close>

lemma ordered_targets_eq:
  "ordered_targets seen out ts = out @ uniq seen (filter (\<lambda>t. t \<noteq> []) ts)"
  by (induction seen out ts rule: ordered_targets.induct) auto

lemma nodes_loop_Inr:
  "nodes_loop fetch e ts = Inr ns \<longleftrightarrow>
     (\<exists>pre t post. ts = pre @ t # post \<and> fetch (nodes_url t) = NodeList ns \<and>
        (\<forall>p \<in> set pre. fetch_error (fetch (nodes_url p)) \<noteq> None))"
proof (induction ts arbitrary: e)
  case Nil
  then show ?case by (simp split: option.splits)
next
  case (Cons t ts)
  show ?case
  proof (cases "fetch_error (fetch (nodes_url t))")
    case None
    then obtain ms where ms: "fetch (nodes_url t) = NodeList ms" by (cases "fetch (nodes_url t)") auto
    show ?thesis
    proof
      assume "nodes_loop fetch e (t # ts) = Inr ns"
      with ms show "\<exists>pre u post. t # ts = pre @ u # post \<and> fetch (nodes_url u) = NodeList ns \<and>
        (\<forall>p \<in> set pre. fetch_error (fetch (nodes_url p)) \<noteq> None)"
        by (intro exI [of _ "[]"] exI [of _ t] exI [of _ ts]) simp
    next
      assume "\<exists>pre u post. t # ts = pre @ u # post \<and> fetch (nodes_url u) = NodeList ns \<and>
        (\<forall>p \<in> set pre. fetch_error (fetch (nodes_url p)) \<noteq> None)"
      then obtain pre u post where *: "t # ts = pre @ u # post" "fetch (nodes_url u) = NodeList ns"
        "\<forall>p \<in> set pre. fetch_error (fetch (nodes_url p)) \<noteq> None" by blast
      with None have "pre = []" by (cases pre) auto
      with * ms show "nodes_loop fetch e (t # ts) = Inr ns" by simp
    qed
  next
    case (Some err)
    then have step: "nodes_loop fetch e (t # ts) = nodes_loop fetch (Some err) ts"
      by (cases "fetch (nodes_url t)") auto
    have nl: "fetch (nodes_url t) \<noteq> NodeList ns" using Some by auto
    show ?thesis unfolding step Cons.IH
    proof
      assume "\<exists>pre u post. ts = pre @ u # post \<and> fetch (nodes_url u) = NodeList ns \<and>
        (\<forall>p \<in> set pre. fetch_error (fetch (nodes_url p)) \<noteq> None)"
      then obtain pre u post where "ts = pre @ u # post" "fetch (nodes_url u) = NodeList ns"
        "\<forall>p \<in> set pre. fetch_error (fetch (nodes_url p)) \<noteq> None" by blast
      with Some show "\<exists>pre u post. t # ts = pre @ u # post \<and> fetch (nodes_url u) = NodeList ns \<and>
        (\<forall>p \<in> set pre. fetch_error (fetch (nodes_url p)) \<noteq> None)"
        by (intro exI [of _ "t # pre"] exI [of _ u] exI [of _ post]) simp
    next
      assume "\<exists>pre u post. t # ts = pre @ u # post \<and> fetch (nodes_url u) = NodeList ns \<and>
        (\<forall>p \<in> set pre. fetch_error (fetch (nodes_url p)) \<noteq> None)"
      then obtain pre u post where *: "t # ts = pre @ u # post" "fetch (nodes_url u) = NodeList ns"
        "\<forall>p \<in> set pre. fetch_error (fetch (nodes_url p)) \<noteq> None" by blast
      with nl obtain pre' where "pre = t # pre'" by (cases pre) auto
      with * show "\<exists>pre u post. ts = pre @ u # post \<and> fetch (nodes_url u) = NodeList ns \<and>
        (\<forall>p \<in> set pre. fetch_error (fetch (nodes_url p)) \<noteq> None)" by auto
    qed
  qed
qed

section \<open>Facts about placement\<close>

definition can_host :: "string \<Rightarrow> node \<Rightarrow> bool" where
  "can_host callRole n \<longleftrightarrow>
     \<not> (media_call callRole \<and> root_node n) \<and> ControlURL n \<noteq> [] \<and>
     DrainState n \<noteq> ''DRAINING'' \<and> DrainState n \<noteq> ''DRAINED'' \<and> ActiveCalls n < Capacity n"

lemma chooseNode_loop_step:
  "chooseNode_loop r best (n # ns) =
     (if can_host r n \<and> (case best of None \<Rightarrow> True | Some b \<Rightarrow> LoadScore n < LoadScore b)
      then chooseNode_loop r (Some n) ns else chooseNode_loop r best ns)"
  by (auto simp: can_host_def split: option.splits)

declare chooseNode_loop.simps(2) [simp del]

lemma chooseNode_loop_Some:
  "chooseNode_loop r best ns = Some n \<Longrightarrow>
     (best = Some n \<or> n \<in> set ns \<and> can_host r n) \<and>
     (\<forall>b. best = Some b \<longrightarrow> LoadScore n \<le> LoadScore b) \<and>
     (\<forall>m \<in> set ns. can_host r m \<longrightarrow> LoadScore n \<le> LoadScore m)"
proof (induction ns arbitrary: best)
  case Nil
  then show ?case by simp
next
  case (Cons m ns)
  then show ?case
    by (fastforce simp: chooseNode_loop_step split: if_splits option.splits)
qed

lemma chooseNode_loop_None:
  "chooseNode_loop r best ns = None \<longleftrightarrow> best = None \<and> (\<forall>m \<in> set ns. \<not> can_host r m)"
  by (induction ns arbitrary: best) (auto simp: chooseNode_loop_step split: option.splits)

interpretation control_placement:
  placement "can_host r" LoadScore "\<lambda>x. x" "\<lambda>ns. chooseNode_loop r None ns" for r
proof
  show "chooseNode_loop r None ns = Some n \<Longrightarrow> n \<in> set ns \<and> can_host r n" for ns n
    using chooseNode_loop_Some by fastforce
  show "chooseNode_loop r None ns = Some n \<Longrightarrow> m \<in> set ns \<Longrightarrow> can_host r m \<Longrightarrow> LoadScore n \<le> LoadScore m"
    for ns n m
    using chooseNode_loop_Some by fastforce
  show "chooseNode_loop r None ns = None \<longleftrightarrow> (\<forall>m \<in> set ns. \<not> can_host r m)" for ns
    by (simp add: chooseNode_loop_None)
qed

lemma chooseNode_Inr: "chooseNode ns r = Inr n \<longleftrightarrow> chooseNode_loop r None ns = Some n"
  by (auto simp: chooseNode_def split: option.splits)

lemma chooseNode_can_host: "chooseNode ns r = Inr n \<Longrightarrow> n \<in> set ns \<and> can_host r n"
  unfolding chooseNode_Inr by (rule control_placement.pick_usable)

lemma owner_of_Some: "owner_of ns i = Some n \<Longrightarrow> n \<in> set ns \<and> NodeID n = i \<and> i \<noteq> []"
  by (auto simp: owner_of_def split: option.splits if_splits dest: find_Some_set)

end
