(* ===== verification/Schema.thy ===== *)
theory Schema
  imports ControlNodes Dialing
begin

text \<open>
  The tables of the control API (components/phonarch-platform-api/migrations) as lists of row
  records, and the way a handler runs statements on them. The order of a list is the order of
  insertion, which is the order of \<open>created_at\<close>. Nullable columns are options; columns that no
  statement of the handlers reads (\<open>updated_at\<close>, most \<open>created_at\<close>) are left out.

  PostgreSQL is not part of the repository. A statement is a function on the tables, written from
  its SQL text; unique indexes, checks and foreign keys of the migrations are tests of the insert.
  Any statement can also fail for reasons outside the tables (connection, cancelled request, an id
  that is not a UUID): the world \<open>W\<close> of a handler says which of its statements fail (\<open>wfail\<close>, by
  the number of the statement in the handler), with which text, and gives the clock, the ids
  that the statements generate and PostgreSQL's conversion \<open>EXTRACT(EPOCH FROM d)::bigint\<close> of an
  interval to whole seconds (\<open>wseconds\<close>). A failed statement changes nothing, and a failed commit undoes the
  transaction.
\<close>

section \<open>Rows\<close>

record workspace_row =
  wsID :: string
  wsSlug :: string
  wsName :: string
  wsStatus :: string
  wsMax :: int

record tfn_row =
  tfID :: string
  tfWorkspace :: string
  tfNumber :: string
  tfLabel :: string
  tfProvider :: string
  tfStatus :: string

record bridge_row =
  brID :: string
  brWorkspace :: string
  brName :: string
  brState :: string
  brHostName :: "string option"
  brHostPhone :: "string option"
  brRegion :: string
  brLimit :: int
  brTfn :: "string option"

record participant_row =
  paID :: string
  paWorkspace :: string
  paBridge :: string
  paName :: string
  paPhone :: string
  paDesired :: string
  paRole :: string

record leg_row =
  lgID :: string
  lgWorkspace :: string
  lgParticipant :: string
  lgBridge :: string
  lgNode :: string
  lgEpoch :: int
  lgMember :: "string option"
  lgPBXCall :: "string option"
  lgSIPCall :: "string option"
  lgState :: string
  lgMute :: bool
  lgError :: "string option"
  lgAnswered :: "int option"
  lgEnded :: "int option"

record session_row =
  seID :: string
  seWorkspace :: string
  seBridge :: string
  seHost :: "string option"
  seStatus :: string
  seStarted :: int
  seEnded :: "int option"
  seDuration :: "int option"

record attendance_row =
  atSession :: string
  atParticipant :: "string option"
  atLeg :: "string option"
  atName :: string
  atPhone :: string
  atRole :: string
  atState :: string
  atJoined :: "int option"
  atLeft :: "int option"

record request_row =
  rqID :: string
  rqWorkspace :: string
  rqBridge :: string
  rqParticipant :: string
  rqLeg :: "string option"
  rqDigit :: string
  rqStatus :: string
  rqGranted :: "int option"
  rqWithdrawn :: "int option"
  rqGrantedBy :: "string option"

record batch_row =
  baID :: string
  baWorkspace :: string
  baBridge :: string
  baStatus :: string
  baConcurrency :: int
  baRate :: int

record item_row =
  itID :: string
  itWorkspace :: string
  itBatch :: string
  itName :: string
  itPhone :: string
  itStatus :: string
  itParticipant :: "string option"
  itError :: "string option"

record event_row =
  evWorkspace :: string
  evBridge :: string
  evParticipant :: "string option"
  evType :: string
  evPayload :: json

record db =
  workspaces :: "workspace_row list"
  tfns :: "tfn_row list"
  bridges :: "bridge_row list"
  participants :: "participant_row list"
  legs :: "leg_row list"
  sessions :: "session_row list"
  attendance :: "attendance_row list"
  requests :: "request_row list"
  batches :: "batch_row list"
  items :: "item_row list"
  eventlog :: "event_row list"

section \<open>Statements\<close>

record world =
  wfail :: "nat \<Rightarrow> bool"
  wtext :: "nat \<Rightarrow> string"
  wnow :: "nat \<Rightarrow> int"
  wid :: "nat \<Rightarrow> string"
  wseconds :: "int \<Rightarrow> int"

datatype 'a fetched_row = NoRows | RowErr string | Row 'a

text \<open>\<open>QueryRow\<close> delivers the first row of a result; \<open>Query\<close> all of them.\<close>

definition query_row :: "world \<Rightarrow> nat \<Rightarrow> 'a list \<Rightarrow> 'a fetched_row" where
  "query_row W k rows =
     (if wfail W k then RowErr (wtext W k) else case rows of [] \<Rightarrow> NoRows | r # _ \<Rightarrow> Row r)"

definition query_rows :: "world \<Rightarrow> nat \<Rightarrow> 'a list \<Rightarrow> string + 'a list" where
  "query_rows W k rows = (if wfail W k then Inl (wtext W k) else Inr rows)"

text \<open>A statement that changes tables gives \<open>None\<close> when a constraint is violated.\<close>

definition sql_exec :: "world \<Rightarrow> nat \<Rightarrow> ('a \<Rightarrow> 'a option) \<Rightarrow> 'a \<Rightarrow> string + 'a" where
  "sql_exec W k stmt d =
     (if wfail W k then Inl (wtext W k)
      else case stmt d of None \<Rightarrow> Inl (wtext W k) | Some d' \<Rightarrow> Inr d')"

text \<open>The result of \<open>_, _ = db.Exec(...)\<close> is dropped.\<close>

definition sql_try :: "world \<Rightarrow> nat \<Rightarrow> ('a \<Rightarrow> 'a) \<Rightarrow> 'a \<Rightarrow> 'a" where
  "sql_try W k stmt d = (if wfail W k then d else stmt d)"

text \<open>Committing a transaction that began at \<open>d0\<close> and has reached \<open>d\<close>.\<close>

definition sql_commit :: "world \<Rightarrow> nat \<Rightarrow> 'a \<Rightarrow> string + 'a" where
  "sql_commit W k d = (if wfail W k then Inl (wtext W k) else Inr d)"

definition row_error :: "'a fetched_row \<Rightarrow> string" where
  "row_error q = (case q of RowErr e \<Rightarrow> e | _ \<Rightarrow> ''sql: no rows in result set'')"

definition update_where :: "('a \<Rightarrow> bool) \<Rightarrow> ('a \<Rightarrow> 'a) \<Rightarrow> 'a list \<Rightarrow> 'a list" where
  "update_where P f rows = map (\<lambda>r. if P r then f r else r) rows"

definition coalesce_text :: "string option \<Rightarrow> string" where
  "coalesce_text c = (case c of None \<Rightarrow> '''' | Some s \<Rightarrow> s)"

definition coalesce_time :: "int option \<Rightarrow> int \<Rightarrow> int option" where
  "coalesce_time c now = Some (case c of None \<Rightarrow> now | Some t \<Rightarrow> t)"

text \<open>A nullable reference to one of \<open>ids\<close>.\<close>

definition refers :: "string option \<Rightarrow> string set \<Rightarrow> bool" where
  "refers r ids = (case r of None \<Rightarrow> True | Some i \<Rightarrow> i \<in> ids)"

section \<open>Conditions the statements share\<close>

definition terminal_leg :: "string \<Rightarrow> bool" where
  "terminal_leg st \<longleftrightarrow> st \<in> {''ENDED'', ''FAILED'', ''DROPPED''}"

definition active_session :: "string \<Rightarrow> bool" where
  "active_session st \<longleftrightarrow> st \<in> {''STARTING'', ''RUNNING''}"

definition open_request :: "string \<Rightarrow> bool" where
  "open_request st \<longleftrightarrow> st \<in> {''QUEUED'', ''GRANTED'', ''ACTIVE''}"

definition room_rows :: "string \<Rightarrow> string \<Rightarrow> db \<Rightarrow> bridge_row list" where
  "room_rows ws br d = filter (\<lambda>b. brID b = br \<and> brWorkspace b = ws) (bridges d)"

text \<open>\<open>COUNT(p.id)\<close> over the left join of a bridge with its participants of the same workspace.\<close>

definition roster_count :: "string \<Rightarrow> string \<Rightarrow> db \<Rightarrow> int" where
  "roster_count ws br d =
     int (length (filter (\<lambda>p. paBridge p = br \<and> paWorkspace p = ws) (participants d)))"

definition host_rows :: "string \<Rightarrow> string \<Rightarrow> db \<Rightarrow> participant_row list" where
  "host_rows ws br d =
     filter (\<lambda>p. paBridge p = br \<and> paWorkspace p = ws \<and> paRole p = ''HOST'') (participants d)"

text \<open>The telephone number joined to a bridge: that of the bridge's workspace with the id the bridge
  refers to.\<close>

definition room_tfn :: "bridge_row \<Rightarrow> db \<Rightarrow> tfn_row option" where
  "room_tfn b d =
     (case brTfn b of
        None \<Rightarrow> None
      | Some t \<Rightarrow> List.find (\<lambda>r. tfID r = t \<and> tfWorkspace r = brWorkspace b) (tfns d))"

definition tfn_id :: "tfn_row option \<Rightarrow> string" where
  "tfn_id t = (case t of None \<Rightarrow> '''' | Some t \<Rightarrow> tfID t)"

definition tfn_number :: "tfn_row option \<Rightarrow> string" where
  "tfn_number t = (case t of None \<Rightarrow> '''' | Some t \<Rightarrow> tfNumber t)"

definition tfn_label :: "tfn_row option \<Rightarrow> string" where
  "tfn_label t = (case t of None \<Rightarrow> '''' | Some t \<Rightarrow> tfLabel t)"

definition tfn_status :: "tfn_row option \<Rightarrow> string" where
  "tfn_status t = (case t of None \<Rightarrow> '''' | Some t \<Rightarrow> tfStatus t)"

end
