(* ===== verification/Accounts.thy ===== *)
theory Accounts
  imports Schema
begin

text \<open>
  Accounts, login sessions and workspace members (control API, main.go lines 108 to 482): which
  caller a request comes from, which workspace it may act on, and the handlers that log in and out
  and manage the members of a workspace.

  Customers and product administrators have separate cookies and separate session maps, both in the
  memory of the process. Every call of \<open>time.Now()\<close> in a handler reads the clock: \<open>now i\<close> is the
  reading number \<open>i\<close>. The package bcrypt is not part of the repository: \<open>hashpw\<close> is
  \<open>GenerateFromPassword\<close>, which fails on passwords of more than 72 bytes, and \<open>check h p\<close> says that
  \<open>CompareHashAndPassword\<close> accepts password \<open>p\<close> for hash \<open>h\<close>.
\<close>

section \<open>Tables, sessions and requests\<close>

record operator_row =
  opID :: string
  opUsername :: string
  opHash :: string
  opDisplay :: string
  opPlatform :: string
  opStatus :: string

record member_row =
  wmWorkspace :: string
  wmOperator :: string
  wmRole :: string

record accounts =
  operators :: "operator_row list"
  members :: "member_row list"

record login_session =
  liExpires :: int
  liWorkspace :: string
  liOperator :: string
  liUsername :: string
  liDisplay :: string
  liRole :: string
  liPlatform :: bool

record web =
  customers :: "string \<rightharpoonup> login_session"
  admins :: "string \<rightharpoonup> login_session"

record web_request =
  wrCustomer :: "string option"
  wrAdmin :: "string option"
  wrWorkspace :: string
  wrMethod :: string
  wrPath :: string

text \<open>The constraints of migrations 001, 003 and 006.\<close>

definition member_roles :: "string list" where
  "member_roles = [''OWNER'', ''ADMIN'', ''OPERATOR'', ''VIEWER'']"

definition insert_operator :: "operator_row \<Rightarrow> accounts \<Rightarrow> accounts option" where
  "insert_operator u acc =
     (if opID u \<in> opID ` set (operators acc) \<or> opUsername u \<in> opUsername ` set (operators acc) then None
      else Some (acc\<lparr>operators := operators acc @ [u]\<rparr>))"

definition insert_member :: "db \<Rightarrow> member_row \<Rightarrow> accounts \<Rightarrow> accounts option" where
  "insert_member d m acc =
     (if (\<exists>x \<in> set (members acc). wmWorkspace x = wmWorkspace m \<and> wmOperator x = wmOperator m) \<or>
         wmWorkspace m \<notin> wsID ` set (workspaces d) \<or> wmOperator m \<notin> opID ` set (operators acc) \<or>
         wmRole m \<notin> set member_roles
      then None else Some (acc\<lparr>members := members acc @ [m]\<rparr>))"

definition member_of :: "string \<Rightarrow> string \<Rightarrow> member_row \<Rightarrow> bool" where
  "member_of ws opr m \<longleftrightarrow> wmWorkspace m = ws \<and> wmOperator m = opr"

definition active_workspace :: "string \<Rightarrow> db \<Rightarrow> bool" where
  "active_workspace ws d \<longleftrightarrow> (\<exists>w \<in> set (workspaces d). wsID w = ws \<and> wsStatus w = ''ACTIVE'')"

section \<open>Who is calling\<close>

definition live_login :: "int \<Rightarrow> (string \<rightharpoonup> login_session) \<Rightarrow> string option \<Rightarrow> login_session option" where
  "live_login now store cookie =
     (case cookie of
        None \<Rightarrow> None
      | Some c \<Rightarrow>
          (case store c of None \<Rightarrow> None | Some s \<Rightarrow> if now < liExpires s then Some s else None))"

definition currentSession :: "int \<Rightarrow> web_request \<Rightarrow> web \<Rightarrow> login_session option" where
  "currentSession now r st = live_login now (customers st) (wrCustomer r)"

definition currentAdminSession :: "int \<Rightarrow> web_request \<Rightarrow> web \<Rightarrow> login_session option" where
  "currentAdminSession now r st = live_login now (admins st) (wrAdmin r)"

definition auth :: "(nat \<Rightarrow> int) \<Rightarrow> web_request \<Rightarrow> web \<Rightarrow> bool" where
  "auth now r st \<longleftrightarrow> currentSession (now 0) r st \<noteq> None \<or> currentAdminSession (now 1) r st \<noteq> None"

text \<open>\<open>require\<close> and \<open>requirePlatformAdmin\<close> answer the request or let it through.\<close>

definition require :: "(nat \<Rightarrow> int) \<Rightarrow> web_request \<Rightarrow> web \<Rightarrow> response option" where
  "require now r st = (if auth now r st then None else Some (answer_error 401 ''authentication required''))"

definition requirePlatformAdmin :: "(nat \<Rightarrow> int) \<Rightarrow> web_request \<Rightarrow> web \<Rightarrow> response option" where
  "requirePlatformAdmin now r st =
     (if currentAdminSession (now 0) r st = None then Some (answer_error 401 ''authentication required'') else None)"

text \<open>The workspace a product administrator names in the query; statement \<open>k\<close> reads its status.\<close>

definition workspace_param :: "world \<Rightarrow> nat \<Rightarrow> web_request \<Rightarrow> db \<Rightarrow> string option" where
  "workspace_param W k r d =
     (let ws = TrimSpace (wrWorkspace r) in
      if ws = '''' then None
      else case query_row W k (filter (\<lambda>w. wsID w = ws) (workspaces d)) of
          Row w \<Rightarrow> if wsStatus w = ''ACTIVE'' then Some ws else None
        | _ \<Rightarrow> None)"

definition workspaceID :: "world \<Rightarrow> nat \<Rightarrow> (nat \<Rightarrow> int) \<Rightarrow> web_request \<Rightarrow> web \<Rightarrow> db \<Rightarrow> string option" where
  "workspaceID W k now r st d =
     (let named = (if currentAdminSession (now 1) r st = None then None else workspace_param W k r d) in
      case currentSession (now 0) r st of
        Some s \<Rightarrow> if liWorkspace s \<noteq> '''' then Some (liWorkspace s) else named
      | None \<Rightarrow> named)"

definition no_workspace :: response where
  "no_workspace = answer_error 401 ''workspace context unavailable''"

definition requireWorkspace ::
  "world \<Rightarrow> nat \<Rightarrow> (nat \<Rightarrow> int) \<Rightarrow> web_request \<Rightarrow> web \<Rightarrow> db \<Rightarrow> response + string" where
  "requireWorkspace W k now r st d =
     (case workspaceID W k now r st d of None \<Rightarrow> Inl no_workspace | Some ws \<Rightarrow> Inr ws)"

text \<open>The join of a membership with its active workspace.\<close>

definition membership :: "string \<Rightarrow> string \<Rightarrow> accounts \<Rightarrow> db \<Rightarrow> string list" where
  "membership ws opr acc d =
     [wmRole m. m \<leftarrow> members acc, member_of ws opr m,
                w \<leftarrow> workspaces d, wsID w = wmWorkspace m \<and> wsStatus w = ''ACTIVE'']"

definition requireWorkspaceRole ::
  "world \<Rightarrow> nat \<Rightarrow> (nat \<Rightarrow> int) \<Rightarrow> web_request \<Rightarrow> web \<Rightarrow> accounts \<Rightarrow> db \<Rightarrow> string list \<Rightarrow>
     response + (string \<times> string)" where
  "requireWorkspaceRole W k now r st acc d allowed =
     (if currentAdminSession (now 0) r st \<noteq> None then
        (case workspaceID W k (\<lambda>i. now (Suc i)) r st d of
           None \<Rightarrow> Inl no_workspace
         | Some ws \<Rightarrow> Inr (ws, ''OWNER''))
      else case currentSession (now 1) r st of
          None \<Rightarrow> Inl no_workspace
        | Some s \<Rightarrow>
            if liWorkspace s = '''' then Inl no_workspace
            else case query_row W k (filter (\<lambda>x. x \<in> set member_roles)
                     (membership (liWorkspace s) (liOperator s) acc d)) of
                Row role \<Rightarrow>
                  if role \<in> set allowed then Inr (liWorkspace s, role)
                  else Inl (answer_error 403 ''workspace role does not allow this action'')
              | _ \<Rightarrow> Inl (answer_error 403 ''workspace access is no longer active''))"

definition workspaceRole ::
  "world \<Rightarrow> nat \<Rightarrow> (nat \<Rightarrow> int) \<Rightarrow> web_request \<Rightarrow> web \<Rightarrow> accounts \<Rightarrow> db \<Rightarrow> string option" where
  "workspaceRole W k now r st acc d =
     (if currentAdminSession (now 0) r st \<noteq> None then
        (if workspaceID W k (\<lambda>i. now (Suc i)) r st d \<noteq> None then Some ''OWNER'' else None)
      else case currentSession (now 1) r st of
          None \<Rightarrow> None
        | Some s \<Rightarrow>
            if liWorkspace s = '''' then None
            else case query_row W k (membership (liWorkspace s) (liOperator s) acc d) of
                Row role \<Rightarrow> Some role
              | _ \<Rightarrow> None)"

section \<open>Logging in and out\<close>

record credentials =
  crUsername :: string
  crPassword :: string

record cookie =
  ckName :: string
  ckValue :: string
  ckMaxAge :: int

definition login_seconds :: int where
  "login_seconds = 43200"

definition product_role :: "string \<Rightarrow> bool" where
  "product_role role \<longleftrightarrow> role = ''PLATFORM_OWNER'' \<or> role = ''PLATFORM_ADMIN''"

definition role_rank :: "string \<Rightarrow> nat" where
  "role_rank role =
     (if role = ''OWNER'' then 0 else if role = ''ADMIN'' then 1 else if role = ''OPERATOR'' then 2 else 3)"

definition operator_rows :: "string \<Rightarrow> accounts \<Rightarrow> operator_row list" where
  "operator_rows username acc = filter (\<lambda>u. opUsername u = username) (operators acc)"

text \<open>The active memberships of an operator by role; \<open>plan\<close> is the order in which the database
  delivers rows of the same rank.\<close>

definition login_rows ::
  "((string \<times> string) list \<Rightarrow> (string \<times> string) list) \<Rightarrow> string \<Rightarrow> accounts \<Rightarrow> db \<Rightarrow> (string \<times> string) list" where
  "login_rows plan opr acc d =
     sort_key (\<lambda>(ws, role). role_rank role)
       (plan [(wmWorkspace m, wmRole m). m \<leftarrow> members acc, wmOperator m = opr,
                w \<leftarrow> workspaces d, wsID w = wmWorkspace m \<and> wsStatus w = ''ACTIVE''])"

text \<open>\<open>login\<close>: 0 the operator, 1 the workspace, 2 the random session id and the clock.\<close>

definition login ::
  "world \<Rightarrow> (string \<Rightarrow> string \<Rightarrow> bool) \<Rightarrow> ((string \<times> string) list \<Rightarrow> (string \<times> string) list) \<Rightarrow>
     credentials option \<Rightarrow> accounts \<Rightarrow> db \<Rightarrow> web \<Rightarrow> response \<times> cookie option \<times> web" where
  "login W check plan input acc d st =
     (let refused = (answer_error 401 ''invalid credentials'', None, st) in
      case input of
        None \<Rightarrow> refused
      | Some i \<Rightarrow>
          if TrimSpace (crUsername i) = '''' \<or> crPassword i = '''' then refused
          else (let username = TrimSpace (crUsername i) in
            case query_row W 0 (operator_rows username acc) of
              Row u \<Rightarrow>
                if opStatus u \<noteq> ''ACTIVE'' \<or> \<not> check (opHash u) (crPassword i) then refused
                else if product_role (opPlatform u) then
                  (answer_error 403 ''product administrator accounts must use the product admin login'', None, st)
                else (case query_row W 1 (login_rows plan (opID u) acc d) of
                    Row (ws, role) \<Rightarrow>
                      (let s = \<lparr>liExpires = wnow W 2 + login_seconds, liWorkspace = ws, liOperator = opID u,
                          liUsername = username, liDisplay = coalesce (opDisplay u) username, liRole = role,
                          liPlatform = False\<rparr>
                       in (answer 200 [(''status'', JStr ''ok'')],
                           Some \<lparr>ckName = ''phonarch_session'', ckValue = wid W 2, ckMaxAge = 43200\<rparr>,
                           st\<lparr>customers := (customers st)(wid W 2 \<mapsto> s)\<rparr>))
                  | _ \<Rightarrow> (answer_error 403 ''user has no active workspace access'', None, st))
            | _ \<Rightarrow> refused))"

text \<open>\<open>adminLogin\<close>: 0 the operator, 1 the random session id and the clock.\<close>

definition adminLogin ::
  "world \<Rightarrow> (string \<Rightarrow> string \<Rightarrow> bool) \<Rightarrow> credentials option \<Rightarrow> accounts \<Rightarrow> web \<Rightarrow> response \<times> cookie option \<times> web" where
  "adminLogin W check input acc st =
     (let refused = (answer_error 401 ''invalid credentials'', None, st);
          refused_admin = (answer_error 401 ''invalid product administrator credentials'', None, st) in
      case input of
        None \<Rightarrow> refused
      | Some i \<Rightarrow>
          if TrimSpace (crUsername i) = '''' \<or> crPassword i = '''' then refused
          else case query_row W 0 (operator_rows (TrimSpace (crUsername i)) acc) of
              Row u \<Rightarrow>
                if opStatus u \<noteq> ''ACTIVE'' \<or> \<not> product_role (opPlatform u) \<or> \<not> check (opHash u) (crPassword i)
                then refused_admin
                else (let s = \<lparr>liExpires = wnow W 1 + login_seconds, liWorkspace = '''', liOperator = opID u,
                        liUsername = TrimSpace (crUsername i), liDisplay = coalesce (opDisplay u) (crUsername i),
                        liRole = '''', liPlatform = True\<rparr>
                   in (answer 200 [(''status'', JStr ''ok'')],
                       Some \<lparr>ckName = ''phonarch_admin_session'', ckValue = wid W 1, ckMaxAge = 43200\<rparr>,
                       st\<lparr>admins := (admins st)(wid W 1 \<mapsto> s)\<rparr>))
            | _ \<Rightarrow> refused_admin)"

definition logout :: "web_request \<Rightarrow> web \<Rightarrow> response \<times> cookie option \<times> web" where
  "logout r st =
     (answer 200 [(''status'', JStr ''ok'')],
      Some \<lparr>ckName = ''phonarch_session'', ckValue = '''', ckMaxAge = - 1\<rparr>,
      case wrCustomer r of None \<Rightarrow> st | Some c \<Rightarrow> st\<lparr>customers := (customers st)(c := None)\<rparr>)"

definition adminLogout :: "web_request \<Rightarrow> web \<Rightarrow> response \<times> cookie option \<times> web" where
  "adminLogout r st =
     (answer 200 [(''status'', JStr ''ok'')],
      Some \<lparr>ckName = ''phonarch_admin_session'', ckValue = '''', ckMaxAge = - 1\<rparr>,
      case wrAdmin r of None \<Rightarrow> st | Some c \<Rightarrow> st\<lparr>admins := (admins st)(c := None)\<rparr>)"

definition workspace_json :: "workspace_row \<Rightarrow> (string \<times> json) list" where
  "workspace_json w =
     [(''id'', JStr (wsID w)), (''slug'', JStr (wsSlug w)), (''name'', JStr (wsName w)), (''status'', JStr (wsStatus w))]"

text \<open>\<open>me\<close>: 0 the workspace, 1 the role.\<close>

definition me :: "world \<Rightarrow> (nat \<Rightarrow> int) \<Rightarrow> web_request \<Rightarrow> web \<Rightarrow> accounts \<Rightarrow> db \<Rightarrow> response" where
  "me W now r st acc d =
     (case currentSession (now 0) r st of
        None \<Rightarrow> answer_error 401 ''authentication required''
      | Some s \<Rightarrow>
          (let ws = (if liWorkspace s = '''' then []
               else case query_row W 0 (filter (\<lambda>w. wsID w = liWorkspace s) (workspaces d)) of
                   Row w \<Rightarrow> workspace_json w
                 | _ \<Rightarrow> []);
               role = coalesce_text (workspaceRole W 1 (\<lambda>i. now (Suc i)) r st acc d)
           in answer 200 [(''username'', JStr (liUsername s)), (''display_name'', JStr (liDisplay s)),
                (''operator_id'', JStr (liOperator s)), (''workspace_role'', JStr role),
                (''can_manage_users'', JBool (role = ''OWNER'' \<or> role = ''ADMIN'')), (''workspace'', JObj ws)]))"

definition adminMe :: "(nat \<Rightarrow> int) \<Rightarrow> web_request \<Rightarrow> web \<Rightarrow> response" where
  "adminMe now r st =
     (case currentAdminSession (now 0) r st of
        None \<Rightarrow> answer_error 401 ''product administrator authentication required''
      | Some s \<Rightarrow>
          answer 200 [(''username'', JStr (liUsername s)), (''display_name'', JStr (liDisplay s)),
            (''operator_id'', JStr (liOperator s)), (''platform_admin'', JBool True)])"

text \<open>The handler \<open>workspace\<close>: 0 the caller's workspace, 1 its row.\<close>

definition workspace_handler :: "world \<Rightarrow> (nat \<Rightarrow> int) \<Rightarrow> web_request \<Rightarrow> web \<Rightarrow> db \<Rightarrow> response" where
  "workspace_handler W now r st d =
     (case requireWorkspace W 0 now r st d of
        Inl e \<Rightarrow> e
      | Inr ws \<Rightarrow>
          (case query_row W 1 (filter (\<lambda>w. wsID w = ws) (workspaces d)) of
             Row w \<Rightarrow> answer 200 (workspace_json w)
           | _ \<Rightarrow> answer_error 404 ''workspace not found''))"

end
