(* ===== verification/GoNet.thy ===== *)
theory GoNet
  imports GoStrings
begin

text \<open>
  \<open>net.SplitHostPort\<close> of Go's standard library, used for the address of a caller (control API) and for
  the listen address of an edge (SIP gateway).
\<close>

text \<open>\<open>net.SplitHostPort\<close>, with \<open>None\<close> for an error.\<close>

fun split_last :: "char \<Rightarrow> string \<Rightarrow> (string \<times> string) option" where
  "split_last c [] = None"
| "split_last c (x # xs) =
     (case split_last c xs of
        Some (a, b) \<Rightarrow> Some (x # a, b)
      | None \<Rightarrow> if x = c then Some ([], xs) else None)"

definition SplitHostPort :: "string \<Rightarrow> (string \<times> string) option" where
  "SplitHostPort s =
     (case split_last CHR '':'' s of
        None \<Rightarrow> None
      | Some (before, port) \<Rightarrow>
          if HasPrefix s ''['' then
            (let inside = takeWhile (\<lambda>c. c \<noteq> CHR '']'') (tl s); rest = drop (length inside + 1) s in
             if rest \<noteq> '']:'' @ port \<or> CHR ''['' \<in> set (inside @ rest) \<or> CHR '']'' \<in> set (tl rest) then None
             else Some (inside, port))
          else if CHR '':'' \<in> set before \<or> CHR ''['' \<in> set s \<or> CHR '']'' \<in> set s then None
          else Some (before, port))"

lemma split_last_Some: "split_last c s = Some (a, b) \<longleftrightarrow> s = a @ c # b \<and> c \<notin> set b"
proof (induction s arbitrary: a b)
  case Nil
  then show ?case by simp
next
  case (Cons x xs)
  show ?case
  proof (cases "split_last c xs")
    case None
    then have "c \<notin> set xs" using Cons.IH by (metis option.distinct(1) split_list_last)
    with None show ?thesis by (auto simp: Cons_eq_append_conv)
  next
    case (Some ab)
    obtain a' b' where ab: "ab = (a', b')" by (cases ab)
    then have xs: "xs = a' @ c # b'" "c \<notin> set b'" using Cons.IH Some by auto
    then show ?thesis
      using Some ab Cons.IH [of "tl a" b] by (cases a) auto
  qed
qed

lemma split_last_None: "split_last c s = None \<longleftrightarrow> c \<notin> set s"
  using split_last_Some [of c s] by (metis not_None_eq prod.exhaust split_list_last in_set_conv_decomp)

text \<open>A host without colon or bracket.\<close>

lemma SplitHostPort_plain:
  assumes "CHR '':'' \<notin> set h" "CHR ''['' \<notin> set h" "CHR '']'' \<notin> set h" "CHR '':'' \<notin> set p" "CHR ''['' \<notin> set p" "CHR '']'' \<notin> set p"
  shows "SplitHostPort (h @ CHR '':'' # p) = Some (h, p)"
proof -
  have "split_last CHR '':'' (h @ CHR '':'' # p) = Some (h, p)"
    using assms by (simp add: split_last_Some)
  then show ?thesis
    using assms by (cases h) (auto simp: SplitHostPort_def)
qed

lemma SplitHostPort_samples:
  "SplitHostPort ''127.0.0.1:40112'' = Some (''127.0.0.1'', ''40112'')"
  "SplitHostPort ''[::1]:40112'' = Some (''::1'', ''40112'')"
  "SplitHostPort ''::1:40112'' = None"
  "SplitHostPort ''127.0.0.1'' = None"
  "SplitHostPort ''[::1]'' = None"
  "SplitHostPort '':5060'' = Some ('''', ''5060'')"
  by (simp_all add: SplitHostPort_def HasPrefix_def)

end
