(* ===== verification/Members.thy ===== *)
theory Members
  imports Accounts GoNet
begin

text \<open>
  The users of a workspace (control API, main.go: \<open>workspaceMembers\<close>, \<open>workspaceMember\<close>), the account
  that the process creates at startup (\<open>ensureBootstrapAdmin\<close>), and the checks in front of the
  handlers: the routes of \<open>main\<close> with their guards, \<open>cors\<close>, and \<open>internalAllowed\<close> for the reports of
  the sidecars.
\<close>

section \<open>Members of a workspace\<close>

record user_in =
  uiUsername :: string
  uiDisplay :: string
  uiPassword :: string
  uiRole :: string

definition member_json :: "operator_row \<times> member_row \<Rightarrow> json" where
  "member_json = (\<lambda>(u, m).
     JObj [(''operator_id'', JStr (opID u)), (''username'', JStr (opUsername u)),
           (''display_name'', JStr (opDisplay u)), (''status'', JStr (opStatus u)), (''role'', JStr (wmRole m))])"

definition member_operators :: "string \<Rightarrow> accounts \<Rightarrow> (operator_row \<times> member_row) list" where
  "member_operators ws acc =
     [(u, m). m \<leftarrow> members acc, wmWorkspace m = ws, u \<leftarrow> operators acc, opID u = wmOperator m]"

text \<open>Statement 1 lists the members by role, then by username; \<open>collate\<close> is the order of the database's
  collation.\<close>

definition list_members :: "world \<Rightarrow> (string \<Rightarrow> rat) \<Rightarrow> string \<Rightarrow> accounts \<Rightarrow> response" where
  "list_members W collate ws acc =
     (case query_rows W 1 (sort_key (\<lambda>(u, m). role_rank (wmRole m))
         (sort_key (\<lambda>(u, m). collate (opUsername u))
            (filter (\<lambda>(u, m). \<not> product_role (opPlatform u)) (member_operators ws acc)))) of
        Inl e \<Rightarrow> answer_error 500 e
      | Inr rows \<Rightarrow> answer_list 200 (map member_json rows))"

definition granted_role :: "string \<Rightarrow> string" where
  "granted_role role = (if role \<noteq> ''ADMIN'' \<and> role \<noteq> ''VIEWER'' then ''OPERATOR'' else role)"

text \<open>Creating a user in one transaction: 2 begin, 3 the operator, 4 the membership, 5 commit.\<close>

definition create_member ::
  "world \<Rightarrow> (string \<Rightarrow> string + string) \<Rightarrow> string \<Rightarrow> user_in \<Rightarrow> db \<Rightarrow> accounts \<Rightarrow> response \<times> accounts" where
  "create_member W hashpw ws i d acc =
     (let role = granted_role (uiRole i); username = TrimSpace (uiUsername i); display = TrimSpace (uiDisplay i) in
      case hashpw (uiPassword i) of
        Inl e \<Rightarrow> (answer_error 500 e, acc)
      | Inr h \<Rightarrow>
          if wfail W 2 then (answer_error 500 (wtext W 2), acc)
          else case sql_exec W 3 (insert_operator \<lparr>opID = wid W 3, opUsername = username, opHash = h,
                   opDisplay = display, opPlatform = ''WORKSPACE_OPERATOR'', opStatus = ''ACTIVE''\<rparr>) acc of
              Inl _ \<Rightarrow> (answer_error 409 ''username already exists'', acc)
            | Inr acc1 \<Rightarrow>
                (case sql_exec W 4 (insert_member d
                     \<lparr>wmWorkspace = ws, wmOperator = wid W 3, wmRole = role\<rparr>) acc1 of
                   Inl _ \<Rightarrow> (answer_error 409 ''user could not be added to this workspace'', acc)
                 | Inr acc2 \<Rightarrow>
                     (case sql_commit W 5 acc2 of
                        Inl e \<Rightarrow> (answer_error 500 e, acc)
                      | Inr acc3 \<Rightarrow>
                          (answer 201 [(''operator_id'', JStr (wid W 3)), (''username'', JStr username),
                             (''display_name'', JStr display), (''role'', JStr role), (''status'', JStr ''ACTIVE'')],
                           acc3))))"

text \<open>\<open>workspaceMembers\<close>: 0 the caller's workspace, 1 the list or the caller's role. The readings of
  the clock from 2 on belong to the check of the role.\<close>

definition workspaceMembers ::
  "world \<Rightarrow> (nat \<Rightarrow> int) \<Rightarrow> (string \<Rightarrow> string + string) \<Rightarrow> (string \<Rightarrow> rat) \<Rightarrow> web_request \<Rightarrow> web \<Rightarrow>
     user_in option \<Rightarrow> db \<Rightarrow> accounts \<Rightarrow> response \<times> accounts" where
  "workspaceMembers W now hashpw collate r st input d acc =
     (case requireWorkspace W 0 now r st d of
        Inl e \<Rightarrow> (e, acc)
      | Inr ws \<Rightarrow>
          if wrMethod r = ''GET'' then (list_members W collate ws acc, acc)
          else if wrMethod r \<noteq> ''POST'' then (answer_empty 405, acc)
          else case requireWorkspaceRole W 1 (\<lambda>i. now (i + 2)) r st acc d [''OWNER'', ''ADMIN''] of
              Inl e \<Rightarrow> (e, acc)
            | Inr _ \<Rightarrow>
                (let bad = (answer_error 400 ''username and a password of at least 8 characters are required'', acc) in
                 case input of
                   None \<Rightarrow> bad
                 | Some i \<Rightarrow>
                     if TrimSpace (uiUsername i) = '''' \<or> length (uiPassword i) < 8 then bad
                     else create_member W hashpw ws i d acc))"

definition member_path :: "string \<Rightarrow> string" where
  "member_path path = Trim (TrimPrefix path ''/api/v1/workspace/members/'') ''/''"

definition member_protected :: "operator_row \<times> member_row \<Rightarrow> bool" where
  "member_protected = (\<lambda>(u, m). wmRole m = ''OWNER'' \<or> product_role (opPlatform u))"

text \<open>The two changes, statement 3.\<close>

definition remove_member :: "world \<Rightarrow> string \<Rightarrow> string \<Rightarrow> accounts \<Rightarrow> response \<times> accounts" where
  "remove_member W ws opr acc =
     (case sql_exec W 3 (\<lambda>acc. Some (acc\<lparr>members := filter (\<lambda>m. \<not> member_of ws opr m) (members acc)\<rparr>)) acc of
        Inl e \<Rightarrow> (answer_error 409 e, acc)
      | Inr acc' \<Rightarrow> (answer 200 [(''status'', JStr ''removed''), (''operator_id'', JStr opr)], acc'))"

definition change_member :: "world \<Rightarrow> string \<Rightarrow> string \<Rightarrow> string option \<Rightarrow> accounts \<Rightarrow> response \<times> accounts" where
  "change_member W ws opr input acc =
     (let bad = (answer_error 400 ''role must be ADMIN, OPERATOR, or VIEWER'', acc) in
      case input of
        None \<Rightarrow> bad
      | Some role \<Rightarrow>
          if role \<noteq> ''ADMIN'' \<and> role \<noteq> ''OPERATOR'' \<and> role \<noteq> ''VIEWER'' then bad
          else case sql_exec W 3 (\<lambda>acc. Some (acc\<lparr>members :=
                   update_where (member_of ws opr) (\<lambda>m. m\<lparr>wmRole := role\<rparr>) (members acc)\<rparr>)) acc of
              Inl e \<Rightarrow> (answer_error 409 e, acc)
            | Inr acc' \<Rightarrow>
                (answer 200 [(''status'', JStr ''saved''), (''operator_id'', JStr opr), (''role'', JStr role)], acc'))"

text \<open>\<open>workspaceMember\<close>: 0 the caller's workspace, 1 the caller's role, 2 the member.\<close>

definition workspaceMember ::
  "world \<Rightarrow> (nat \<Rightarrow> int) \<Rightarrow> web_request \<Rightarrow> web \<Rightarrow> string option \<Rightarrow> db \<Rightarrow> accounts \<Rightarrow> response \<times> accounts" where
  "workspaceMember W now r st input d acc =
     (case requireWorkspace W 0 now r st d of
        Inl e \<Rightarrow> (e, acc)
      | Inr ws \<Rightarrow>
          (let opr = member_path (wrPath r) in
           if opr = '''' \<or> (wrMethod r \<noteq> ''PUT'' \<and> wrMethod r \<noteq> ''DELETE'') then (answer_empty 404, acc)
           else case requireWorkspaceRole W 1 (\<lambda>i. now (i + 2)) r st acc d [''OWNER'', ''ADMIN''] of
               Inl e \<Rightarrow> (e, acc)
             | Inr _ \<Rightarrow>
                 (case query_row W 2 (filter (\<lambda>(u, m). wmOperator m = opr) (member_operators ws acc)) of
                    Row um \<Rightarrow>
                      if member_protected um
                      then (answer_error 409 ''workspace owner and product administrator access cannot be changed here'', acc)
                      else if wrMethod r = ''DELETE'' then remove_member W ws opr acc
                      else change_member W ws opr input acc
                  | _ \<Rightarrow> (answer_error 404 ''workspace member not found'', acc))))"

section \<open>The first account\<close>

text \<open>\<open>ON CONFLICT (username) DO UPDATE\<close> keeps the id of an existing account. Statements: 0 the
  account, 1 its ownership of the default workspace. The environment gives username, password and
  the slug of the workspace, with the defaults of the source.\<close>

definition upsert_bootstrap :: "string \<Rightarrow> string \<Rightarrow> string \<Rightarrow> accounts \<Rightarrow> accounts option" where
  "upsert_bootstrap newid username h acc =
     (if username \<in> opUsername ` set (operators acc)
      then Some (acc\<lparr>operators := update_where (\<lambda>u. opUsername u = username)
             (\<lambda>u. u\<lparr>opDisplay := username, opPlatform := ''PLATFORM_OWNER'', opStatus := ''ACTIVE'', opHash := h\<rparr>)
             (operators acc)\<rparr>)
      else insert_operator \<lparr>opID = newid, opUsername = username, opHash = h, opDisplay = username,
             opPlatform = ''PLATFORM_OWNER'', opStatus = ''ACTIVE''\<rparr> acc)"

definition own_workspace :: "string \<Rightarrow> string \<Rightarrow> accounts \<Rightarrow> accounts" where
  "own_workspace ws opr acc =
     (if \<exists>m \<in> set (members acc). member_of ws opr m
      then acc\<lparr>members := update_where (member_of ws opr) (\<lambda>m. m\<lparr>wmRole := ''OWNER''\<rparr>) (members acc)\<rparr>
      else acc\<lparr>members := members acc @ [\<lparr>wmWorkspace = ws, wmOperator = opr, wmRole = ''OWNER''\<rparr>]\<rparr>)"

definition env :: "string option \<Rightarrow> string \<Rightarrow> string" where
  "env value dflt = (case value of None \<Rightarrow> dflt | Some v \<Rightarrow> if v \<noteq> '''' then v else dflt)"

definition ensureBootstrapAdmin ::
  "world \<Rightarrow> (string \<Rightarrow> string + string) \<Rightarrow> string option \<Rightarrow> string option \<Rightarrow> string option \<Rightarrow> db \<Rightarrow> accounts \<Rightarrow>
     string option \<times> accounts" where
  "ensureBootstrapAdmin W hashpw user_env password_env slug_env d acc =
     (let username = env user_env ''admin'' in
      case hashpw (env password_env ''change-me'') of
        Inl e \<Rightarrow> (Some e, acc)
      | Inr h \<Rightarrow>
          (case sql_exec W 0 (upsert_bootstrap (wid W 0) username h) acc of
             Inl e \<Rightarrow> (Some e, acc)
           | Inr acc1 \<Rightarrow>
               (case sql_exec W 1 (\<lambda>acc. Some (foldr (\<lambda>w acc.
                        case operator_rows username acc of [] \<Rightarrow> acc | u # _ \<Rightarrow> own_workspace (wsID w) (opID u) acc)
                      (filter (\<lambda>w. wsSlug w = env slug_env ''operations'') (workspaces d)) acc)) acc1 of
                  Inl e \<Rightarrow> (Some e, acc1)
                | Inr acc2 \<Rightarrow> (None, acc2))))"

section \<open>In front of the handlers\<close>

text \<open>\<open>cors\<close>: whether the headers for a foreign origin are set, and the answer to a preflight request;
  other requests go on to the handlers.\<close>

definition cors :: "string \<Rightarrow> string \<Rightarrow> string \<Rightarrow> bool \<times> response option" where
  "cors origin requestOrigin meth =
     (requestOrigin \<noteq> '''' \<and> origin \<noteq> '''' \<and> requestOrigin = origin,
      if meth = ''OPTIONS'' then Some (answer_empty 204) else None)"

text \<open>The patterns that \<open>main\<close> registers with their guards. A pattern that ends in a slash matches every
  path below it, and the longest match wins (the redirects of Go's \<open>ServeMux\<close> for paths that are
  not clean are not modelled).\<close>

datatype guard = Unguarded | SessionGuard | AdminGuard | InternalGuard

definition routes :: "(string \<times> guard) list" where
  "routes =
     [(''/healthz'', Unguarded), (''/readyz'', Unguarded),
      (''/api/v1/auth/login'', Unguarded), (''/api/v1/auth/logout'', SessionGuard),
      (''/api/v1/auth/me'', SessionGuard), (''/api/v1/auth/admin/login'', Unguarded),
      (''/api/v1/auth/admin/logout'', AdminGuard), (''/api/v1/auth/admin/me'', AdminGuard),
      (''/api/v1/workspace'', SessionGuard), (''/api/v1/workspace/members'', SessionGuard),
      (''/api/v1/workspace/members/'', SessionGuard), (''/api/v1/bridges'', SessionGuard),
      (''/api/v1/bridges/'', SessionGuard), (''/api/v1/participants/'', SessionGuard),
      (''/api/v1/batches/'', SessionGuard), (''/api/v1/speaker-requests/'', SessionGuard),
      (''/api/v1/admin/'', AdminGuard), (''/internal/v1/events'', InternalGuard),
      (''/internal/v1/dtmf'', InternalGuard)]"

definition route_matches :: "string \<Rightarrow> string \<Rightarrow> bool" where
  "route_matches path pat \<longleftrightarrow> path = pat \<or> (HasSuffix pat ''/'' \<and> HasPrefix path pat)"

definition mux :: "string \<Rightarrow> (string \<times> guard) option" where
  "mux path =
     (case sort_key (\<lambda>(pat, g). - int (length pat)) (filter (\<lambda>(pat, g). route_matches path pat) routes) of
        [] \<Rightarrow> None | pg # _ \<Rightarrow> Some pg)"

definition internalAllowed :: "string \<Rightarrow> string \<Rightarrow> string \<Rightarrow> bool" where
  "internalAllowed expected token remote =
     (if expected \<noteq> '''' then token = expected
      else case SplitHostPort remote of
          None \<Rightarrow> False
        | Some (h, port) \<Rightarrow> h = ''127.0.0.1'' \<or> h = ''::1'')"

text \<open>What a request meets before its handler runs: the answer of its guard, if it refuses. The
  internal handlers call \<open>internalAllowed\<close> themselves.\<close>

definition guarded :: "(nat \<Rightarrow> int) \<Rightarrow> bool \<Rightarrow> web_request \<Rightarrow> web \<Rightarrow> response option" where
  "guarded now internal r st =
     (case mux (wrPath r) of
        None \<Rightarrow> Some (answer_empty 404)
      | Some (pat, Unguarded) \<Rightarrow> None
      | Some (pat, SessionGuard) \<Rightarrow> require now r st
      | Some (pat, AdminGuard) \<Rightarrow> requirePlatformAdmin now r st
      | Some (pat, InternalGuard) \<Rightarrow> if internal then None else Some (answer_error 403 ''internal event authorization failed''))"

end
