(* ===== verification/Rooms.thy ===== *)
theory Rooms
  imports Schema
begin

text \<open>
  Configuring a room while it is stopped (control API, main.go): its fixed host, its dialing region
  and its roster, and the prerequisites of a start. Each handler is given the workspace that the
  caller was authorised for; a decoded body is \<open>Some\<close>.
\<close>

section \<open>Statements on bridges and participants\<close>

definition on_room :: "string \<Rightarrow> string \<Rightarrow> (bridge_row \<Rightarrow> bridge_row) \<Rightarrow> db \<Rightarrow> db" where
  "on_room ws br f d = d\<lparr>bridges := update_where (\<lambda>b. brID b = br \<and> brWorkspace b = ws) f (bridges d)\<rparr>"

definition on_participant :: "string \<Rightarrow> string \<Rightarrow> (participant_row \<Rightarrow> participant_row) \<Rightarrow> db \<Rightarrow> db" where
  "on_participant ws pid f d =
     d\<lparr>participants := update_where (\<lambda>p. paID p = pid \<and> paWorkspace p = ws) f (participants d)\<rparr>"

text \<open>The insert of a participant: the primary key, the two references and the index
  \<open>participants_one_host_per_room_uq\<close>.\<close>

definition insert_participant :: "participant_row \<Rightarrow> db \<Rightarrow> db option" where
  "insert_participant p d =
     (if paID p \<notin> paID ` set (participants d) \<and> paWorkspace p \<in> wsID ` set (workspaces d) \<and>
         paBridge p \<in> brID ` set (bridges d) \<and>
         (paRole p = ''HOST'' \<longrightarrow> \<not> (\<exists>q \<in> set (participants d). paBridge q = paBridge p \<and> paRole q = ''HOST''))
      then Some (d\<lparr>participants := participants d @ [p]\<rparr>) else None)"

text \<open>Deleting participants: call legs and speaker requests go with them (\<open>ON DELETE CASCADE\<close>),
  other references become null.\<close>

definition forget :: "(string \<Rightarrow> bool) \<Rightarrow> string option \<Rightarrow> string option" where
  "forget gone r = (case r of None \<Rightarrow> None | Some i \<Rightarrow> if gone i then None else Some i)"

definition delete_participants :: "(participant_row \<Rightarrow> bool) \<Rightarrow> db \<Rightarrow> db" where
  "delete_participants P d =
     (let gone = (\<lambda>i. \<exists>p \<in> set (participants d). paID p = i \<and> P p);
          gone_leg = (\<lambda>i. \<exists>l \<in> set (legs d). lgID l = i \<and> gone (lgParticipant l))
      in d\<lparr>participants := filter (\<lambda>p. \<not> P p) (participants d),
           legs := filter (\<lambda>l. \<not> gone (lgParticipant l)) (legs d),
           sessions := map (\<lambda>s. s\<lparr>seHost := forget gone (seHost s)\<rparr>) (sessions d),
           attendance := map (\<lambda>a. a\<lparr>atParticipant := forget gone (atParticipant a),
                                     atLeg := forget gone_leg (atLeg a)\<rparr>) (attendance d),
           requests := map (\<lambda>r. r\<lparr>rqLeg := forget gone_leg (rqLeg r)\<rparr>)
                         (filter (\<lambda>r. \<not> gone (rqParticipant r)) (requests d)),
           items := map (\<lambda>i. i\<lparr>itParticipant := forget gone (itParticipant i)\<rparr>) (items d),
           eventlog := map (\<lambda>e. e\<lparr>evParticipant := forget gone (evParticipant e)\<rparr>) (eventlog d)\<rparr>)"

definition busy :: "string \<Rightarrow> bool" where
  "busy roomState \<longleftrightarrow> roomState = ''RUNNING'' \<or> roomState = ''STARTING''"

definition sql_failure :: "string \<Rightarrow> response" where
  "sql_failure e = answer_error 500 e"

section \<open>The fixed host\<close>

record contact_in =
  ciName :: string
  ciPhone :: string
  ciRole :: string

definition blank :: "string \<Rightarrow> bool" where
  "blank s \<longleftrightarrow> TrimSpace s = ''''"

text \<open>\<open>host\<close> with method DELETE. Statements: 0 begin, 1 read and lock the room, 2 clear the bridge,
  3 delete the host participant, 4 commit.\<close>

definition host_clear :: "world \<Rightarrow> string \<Rightarrow> string \<Rightarrow> db \<Rightarrow> string + db" where
  "host_clear W ws br d =
     (case sql_exec W 2 (\<lambda>d. Some (on_room ws br (\<lambda>b. b\<lparr>brHostName := None, brHostPhone := None\<rparr>) d)) d of
        Inl e \<Rightarrow> Inl e
      | Inr d1 \<Rightarrow>
          (case sql_exec W 3 (\<lambda>d. Some (delete_participants
                  (\<lambda>p. paBridge p = br \<and> paWorkspace p = ws \<and> paRole p = ''HOST'') d)) d1 of
             Inl e \<Rightarrow> Inl e
           | Inr d2 \<Rightarrow> sql_commit W 4 d2))"

text \<open>\<open>host\<close> with method PUT, after the checks: 2 write the bridge, 3 look for a host participant,
  4 insert or update it, 5 commit.\<close>

definition host_save :: "world \<Rightarrow> string \<Rightarrow> string \<Rightarrow> string \<Rightarrow> string \<Rightarrow> db \<Rightarrow> string + (string \<times> db)" where
  "host_save W ws br name phone d =
     (case sql_exec W 2 (\<lambda>d. Some (on_room ws br (\<lambda>b. b\<lparr>brHostName := Some name, brHostPhone := Some phone\<rparr>) d)) d of
        Inl e \<Rightarrow> Inl e
      | Inr d1 \<Rightarrow>
          (let saved =
             (case query_row W 3 (host_rows ws br d1) of
                RowErr e \<Rightarrow> Inl e
              | NoRows \<Rightarrow>
                  (case sql_exec W 4 (insert_participant
                      \<lparr>paID = wid W 4, paWorkspace = ws, paBridge = br, paName = name, paPhone = phone,
                       paDesired = ''ACTIVE'', paRole = ''HOST''\<rparr>) d1 of
                     Inl e \<Rightarrow> Inl e
                   | Inr d2 \<Rightarrow> Inr (wid W 4, d2))
              | Row h \<Rightarrow>
                  (case sql_exec W 4 (\<lambda>d. Some (on_participant ws (paID h)
                      (\<lambda>p. p\<lparr>paName := name, paPhone := phone, paDesired := ''ACTIVE''\<rparr>) d)) d1 of
                     Inl e \<Rightarrow> Inl e
                   | Inr d2 \<Rightarrow> Inr (paID h, d2)))
           in case saved of
                Inl e \<Rightarrow> Inl e
              | Inr (hostID, d2) \<Rightarrow>
                  (case sql_commit W 5 d2 of Inl e \<Rightarrow> Inl e | Inr d3 \<Rightarrow> Inr (hostID, d3))))"

definition host :: "world \<Rightarrow> bool \<Rightarrow> string \<Rightarrow> string \<Rightarrow> contact_in option \<Rightarrow> db \<Rightarrow> response \<times> db" where
  "host W is_delete ws br input d =
     (if wfail W 0 then (sql_failure (wtext W 0), d)
      else case query_row W 1 (room_rows ws br d) of
          NoRows \<Rightarrow> (answer_error 404 ''room not found'', d)
        | RowErr _ \<Rightarrow> (answer_error 404 ''room not found'', d)
        | Row b \<Rightarrow>
            if busy (brState b) then (answer_error 409 ''stop the room before editing its host'', d)
            else if is_delete then
              (case host_clear W ws br d of
                 Inl e \<Rightarrow> (sql_failure e, d)
               | Inr d' \<Rightarrow> (answer 200 [(''status'', JStr ''host_cleared''), (''bridge_id'', JStr br)], d'))
            else (case input of
                None \<Rightarrow> (answer_error 400 ''host name and phone_number are required'', d)
              | Some i \<Rightarrow>
                  if blank (ciName i) \<or> blank (ciPhone i)
                  then (answer_error 400 ''host name and phone_number are required'', d)
                  else (let name = TrimSpace (ciName i); phone = TrimSpace (ciPhone i) in
                    case host_save W ws br name phone d of
                      Inl e \<Rightarrow> (sql_failure e, d)
                    | Inr (hostID, d') \<Rightarrow>
                        (answer 200 [(''status'', JStr ''saved''), (''bridge_id'', JStr br),
                           (''host'', JObj [(''participant_id'', JStr hostID), (''name'', JStr name),
                                            (''phone_number'', JStr phone)])], d'))))"

section \<open>Region and roster\<close>

text \<open>\<open>bridgeSettings\<close>: 0 read the room, 1 write it.\<close>

definition bridgeSettings :: "world \<Rightarrow> string \<Rightarrow> string \<Rightarrow> string option \<Rightarrow> db \<Rightarrow> response \<times> db" where
  "bridgeSettings W ws br input d =
     (case input of
        None \<Rightarrow> (answer_error 400 ''invalid settings payload'', d)
      | Some wanted \<Rightarrow>
          (let region = normalizeDialRegion wanted in
           if \<not> blank wanted \<and> region \<noteq> TrimSpace wanted
           then (answer_error 400 ''unsupported default_region'', d)
           else case query_row W 0 (room_rows ws br d) of
               NoRows \<Rightarrow> (answer_error 404 ''room not found'', d)
             | RowErr e \<Rightarrow> (sql_failure e, d)
             | Row b \<Rightarrow>
                 if busy (brState b)
                 then (answer_error 409 ''stop the room before changing its dialing region'', d)
                 else case sql_exec W 1 (\<lambda>d. if region \<in> set supportedDialRegions
                          then Some (on_room ws br (\<lambda>b. b\<lparr>brRegion := region\<rparr>) d) else None) d of
                     Inl e \<Rightarrow> (sql_failure e, d)
                   | Inr d' \<Rightarrow> (answer 200 [(''status'', JStr ''saved''), (''bridge_id'', JStr br),
                                         (''default_region'', JStr region)], d')))"

text \<open>\<open>addRosterParticipant\<close>: 0 read the room, 1 count its roster, 2 insert.\<close>

definition addRosterParticipant :: "world \<Rightarrow> string \<Rightarrow> string \<Rightarrow> contact_in option \<Rightarrow> db \<Rightarrow> response \<times> db" where
  "addRosterParticipant W ws br input d =
     (case query_row W 0 (room_rows ws br d) of
        NoRows \<Rightarrow> (answer_error 404 ''room not found'', d)
      | RowErr _ \<Rightarrow> (answer_error 404 ''room not found'', d)
      | Row b \<Rightarrow>
          if busy (brState b)
          then (answer_error 409 ''stop the room before editing its participant roster'', d)
          else case query_row W 1 (room_rows ws br d) of
              NoRows \<Rightarrow> (answer_error 404 ''room not found'', d)
            | RowErr _ \<Rightarrow> (answer_error 404 ''room not found'', d)
            | Row c \<Rightarrow>
                if roster_count ws br d \<ge> brLimit c then
                  (answer 409 [(''error'', JStr ''room participant limit reached''),
                     (''participant_limit'', JInt (brLimit c)), (''participant_count'', JInt (roster_count ws br d))], d)
                else (case input of
                    None \<Rightarrow> (answer_error 400 ''name and phone_number are required'', d)
                  | Some i \<Rightarrow>
                      if blank (ciName i) \<or> blank (ciPhone i)
                      then (answer_error 400 ''name and phone_number are required'', d)
                      else if normalizeParticipantRole (ciRole i) = ''HOST''
                      then (answer_error 400 ''configure the room host in room settings'', d)
                      else case sql_exec W 2 (insert_participant
                            \<lparr>paID = wid W 2, paWorkspace = ws, paBridge = br, paName = TrimSpace (ciName i),
                             paPhone = TrimSpace (ciPhone i), paDesired = ''MUTED'', paRole = ''LISTENER''\<rparr>) d of
                          Inl e \<Rightarrow> (sql_failure e, d)
                        | Inr d' \<Rightarrow>
                            (answer 201 [(''participant_id'', JStr (wid W 2)), (''name'', JStr (ciName i)),
                               (''phone_number'', JStr (ciPhone i)), (''role'', JStr ''LISTENER''),
                               (''state'', JStr ''ROSTERED'')], d')))"

text \<open>\<open>editRosterParticipant\<close>: 0 begin, 1 read and lock participant and room, 2 write the
  participant, 3 write its batch items, 4 commit.\<close>

definition participant_rooms :: "string \<Rightarrow> string \<Rightarrow> db \<Rightarrow> (participant_row \<times> bridge_row) list" where
  "participant_rooms ws pid d =
     [(p, b). p \<leftarrow> participants d, paID p = pid \<and> paWorkspace p = ws, b \<leftarrow> bridges d, brID b = paBridge p]"

definition edit_save :: "world \<Rightarrow> string \<Rightarrow> string \<Rightarrow> string \<Rightarrow> string \<Rightarrow> db \<Rightarrow> string + db" where
  "edit_save W ws pid name phone d =
     (case sql_exec W 2 (\<lambda>d. Some (on_participant ws pid (\<lambda>p. p\<lparr>paName := name, paPhone := phone\<rparr>) d)) d of
        Inl e \<Rightarrow> Inl e
      | Inr d1 \<Rightarrow>
          (case sql_exec W 3 (\<lambda>d. Some (d\<lparr>items := update_where
                  (\<lambda>i. itParticipant i = Some pid \<and> itWorkspace i = ws)
                  (\<lambda>i. i\<lparr>itName := name, itPhone := phone\<rparr>) (items d)\<rparr>)) d1 of
             Inl e \<Rightarrow> Inl e
           | Inr d2 \<Rightarrow> sql_commit W 4 d2))"

definition editRosterParticipant :: "world \<Rightarrow> string \<Rightarrow> string \<Rightarrow> contact_in option \<Rightarrow> db \<Rightarrow> response \<times> db" where
  "editRosterParticipant W ws pid input d =
     (if wfail W 0 then (sql_failure (wtext W 0), d)
      else case query_row W 1 (participant_rooms ws pid d) of
          NoRows \<Rightarrow> (answer_error 404 ''participant not found'', d)
        | RowErr _ \<Rightarrow> (answer_error 404 ''participant not found'', d)
        | Row (p, b) \<Rightarrow>
            if paRole p = ''HOST'' then (answer_error 400 ''edit the host from Room settings'', d)
            else if busy (brState b)
            then (answer_error 409 ''stop the room before editing its participant roster'', d)
            else (case input of
                None \<Rightarrow> (answer_error 400 ''name and phone_number are required'', d)
              | Some i \<Rightarrow>
                  if blank (ciName i) \<or> blank (ciPhone i)
                  then (answer_error 400 ''name and phone_number are required'', d)
                  else (let name = TrimSpace (ciName i); phone = TrimSpace (ciPhone i) in
                    case edit_save W ws pid name phone d of
                      Inl e \<Rightarrow> (sql_failure e, d)
                    | Inr d' \<Rightarrow>
                        (answer 200 [(''status'', JStr ''saved''), (''participant_id'', JStr pid),
                           (''bridge_id'', JStr (paBridge p)), (''name'', JStr name), (''phone_number'', JStr phone),
                           (''role'', JStr ''LISTENER'')], d'))))"

end
