(* ===== verification/Admin.thy ===== *)
theory Admin
  imports Members Rooms
begin

text \<open>
  The product administrator's handlers (control API, main.go lines 1709 to 2252): workspaces, rooms,
  telephone numbers, memberships and users, behind one router. The query parameter \<open>workspace_id\<close> is the
  argument \<open>param\<close>; \<open>created\<close> gives the column \<open>created_at\<close> of a row by its id, which the tables
  leave out; \<open>lo\<close> is PostgreSQL's \<open>lower\<close> and \<open>collate\<close> the order of its collation. The column
  \<open>status\<close> of a bridge is never changed from its default ACTIVE by any statement of the program.
\<close>

section \<open>Statements\<close>

definition limit_ok :: "int \<Rightarrow> bool" where
  "limit_ok n \<longleftrightarrow> 1 \<le> n \<and> n \<le> 100000"

definition insert_workspace :: "workspace_row \<Rightarrow> db \<Rightarrow> db option" where
  "insert_workspace w d =
     (if wsID w \<in> wsID ` set (workspaces d) \<or> wsSlug w \<in> wsSlug ` set (workspaces d) \<or> \<not> limit_ok (wsMax w)
      then None else Some (d\<lparr>workspaces := workspaces d @ [w]\<rparr>))"

definition same_name :: "(string \<Rightarrow> string) \<Rightarrow> string \<Rightarrow> string \<Rightarrow> bridge_row \<Rightarrow> bool" where
  "same_name lo ws name b \<longleftrightarrow> brWorkspace b = ws \<and> lo (brName b) = lo name"

definition insert_bridge :: "(string \<Rightarrow> string) \<Rightarrow> bridge_row \<Rightarrow> db \<Rightarrow> db option" where
  "insert_bridge lo b d =
     (if brID b \<in> brID ` set (bridges d) \<or> brWorkspace b \<notin> wsID ` set (workspaces d) \<or> \<not> limit_ok (brLimit b) \<or>
         (\<exists>c \<in> set (bridges d). same_name lo (brWorkspace b) (brName b) c)
      then None else Some (d\<lparr>bridges := bridges d @ [b]\<rparr>))"

definition new_room :: "string \<Rightarrow> string \<Rightarrow> string \<Rightarrow> int \<Rightarrow> bridge_row" where
  "new_room i ws name limit =
     \<lparr>brID = i, brWorkspace = ws, brName = name, brState = ''READY'', brHostName = None, brHostPhone = None,
      brRegion = ''+91'', brLimit = limit, brTfn = None\<rparr>"

text \<open>The update of \<open>adminUpdateRoom\<close>: the checks, the index on names and
  \<open>bridges_one_room_per_tfn_uq\<close>.\<close>

definition update_room ::
  "(string \<Rightarrow> string) \<Rightarrow> string \<Rightarrow> string \<Rightarrow> int \<Rightarrow> string option \<Rightarrow> db \<Rightarrow> db option" where
  "update_room lo rid name limit tfn d =
     (if \<exists>b \<in> set (bridges d). brID b = rid \<and>
           (\<not> limit_ok limit \<or>
            (\<exists>c \<in> set (bridges d). brID c \<noteq> rid \<and> same_name lo (brWorkspace b) name c) \<or>
            (\<exists>t. tfn = Some t \<and> (t \<notin> tfID ` set (tfns d) \<or>
               (\<exists>c \<in> set (bridges d). brID c \<noteq> rid \<and> brTfn c = Some t))))
      then None
      else Some (d\<lparr>bridges := update_where (\<lambda>b. brID b = rid)
             (\<lambda>b. b\<lparr>brName := name, brLimit := limit, brTfn := tfn\<rparr>) (bridges d)\<rparr>))"

definition insert_tfn :: "tfn_row \<Rightarrow> db \<Rightarrow> db option" where
  "insert_tfn t d =
     (if tfID t \<in> tfID ` set (tfns d) \<or> tfWorkspace t \<notin> wsID ` set (workspaces d) \<or>
         (\<exists>u \<in> set (tfns d). tfWorkspace u = tfWorkspace t \<and> tfNumber u = tfNumber t)
      then None else Some (d\<lparr>tfns := tfns d @ [t]\<rparr>))"

section \<open>Workspaces\<close>

record workspace_in =
  wiName :: string
  wiSlug :: string
  wiMax :: int

text \<open>The loop over suffixes: \<open>n\<close> attempts are left, statement \<open>suffix\<close> inserts.\<close>

definition numbered_slug :: "string \<Rightarrow> nat \<Rightarrow> string" where
  "numbered_slug base suffix = (if suffix > 1 then base @ ''-'' @ Itoa (int suffix) else base)"

datatype attempt = Created string string db | Refused response

fun workspace_loop :: "world \<Rightarrow> string \<Rightarrow> string \<Rightarrow> int \<Rightarrow> nat \<Rightarrow> nat \<Rightarrow> db \<Rightarrow> attempt" where
  "workspace_loop W base name limit suffix 0 d =
     Refused (answer_error 409 ''workspace name is already in use too many times'')"
| "workspace_loop W base name limit suffix (Suc n) d =
     (let slug = numbered_slug base suffix in
      if wfail W suffix then Refused (answer_error 500 ''workspace could not be created'')
      else if slug \<in> wsSlug ` set (workspaces d) then workspace_loop W base name limit (suffix + 1) n d
      else case insert_workspace \<lparr>wsID = wid W suffix, wsSlug = slug, wsName = name, wsStatus = ''ACTIVE'', wsMax = limit\<rparr> d of
          None \<Rightarrow> Refused (answer_error 500 ''workspace could not be created'')
        | Some d' \<Rightarrow> Created (wid W suffix) slug d')"

definition workspace_slug :: "workspace_in \<Rightarrow> string" where
  "workspace_slug i =
     (let s = slugify (wiSlug i); s = (if s = '''' then slugify (wiName i) else s)
      in if s = '''' then ''workspace'' else s)"

definition adminCreateWorkspace :: "world \<Rightarrow> workspace_in option \<Rightarrow> db \<Rightarrow> response \<times> db" where
  "adminCreateWorkspace W input d =
     (case input of
        None \<Rightarrow> (answer_error 400 ''workspace name required'', d)
      | Some i \<Rightarrow>
          if TrimSpace (wiName i) = '''' then (answer_error 400 ''workspace name required'', d)
          else (let limit = (if wiMax i \<le> 0 then 500 else wiMax i) in
            if limit > 100000 then (answer_error 400 ''max_participants must be between 1 and 100000'', d)
            else case workspace_loop W (workspace_slug i) (TrimSpace (wiName i)) limit 1 1000 d of
                Refused r \<Rightarrow> (r, d)
              | Created i' slug d' \<Rightarrow>
                  (answer 201 [(''id'', JStr i'), (''slug'', JStr slug),
                     (''name'', JStr (TrimSpace (wiName i))), (''max_participants'', JInt limit),
                     (''status'', JStr ''ACTIVE'')], d')))"

record workspace_update_in =
  wuName :: string
  wuStatus :: string
  wuMax :: "int option"

text \<open>\<open>adminUpdateWorkspace\<close>: 0 the limit when the request has none, 1 the update.\<close>

definition adminUpdateWorkspace :: "world \<Rightarrow> string \<Rightarrow> workspace_update_in option \<Rightarrow> db \<Rightarrow> response \<times> db" where
  "adminUpdateWorkspace W ws input d =
     (case input of
        None \<Rightarrow> (answer_error 400 ''workspace name required'', d)
      | Some i \<Rightarrow>
          if TrimSpace (wuName i) = '''' then (answer_error 400 ''workspace name required'', d)
          else (let status = (if wuStatus i \<noteq> ''SUSPENDED'' then ''ACTIVE'' else ''SUSPENDED'');
                    limit = (case wuMax i of
                        Some m \<Rightarrow>
                          if m \<le> 0 \<or> m > 100000
                          then Inl (answer_error 400 ''max_participants must be between 1 and 100000'') else Inr m
                      | None \<Rightarrow>
                          (case query_row W 0 (filter (\<lambda>w. wsID w = ws) (workspaces d)) of
                             Row w \<Rightarrow> Inr (wsMax w) | _ \<Rightarrow> Inl (answer_error 404 ''workspace not found'')))
            in case limit of
                Inl r \<Rightarrow> (r, d)
              | Inr m \<Rightarrow>
                  (case sql_exec W 1 (\<lambda>d. Some (d\<lparr>workspaces := update_where (\<lambda>w. wsID w = ws)
                       (\<lambda>w. w\<lparr>wsName := TrimSpace (wuName i), wsStatus := status, wsMax := m\<rparr>) (workspaces d)\<rparr>)) d of
                     Inl e \<Rightarrow> (answer_error 409 e, d)
                   | Inr d' \<Rightarrow>
                       if filter (\<lambda>w. wsID w = ws) (workspaces d) = [] then (answer_error 404 ''workspace not found'', d')
                       else (answer 200 [(''status'', JStr ''saved''), (''workspace_id'', JStr ws)], d'))))"

section \<open>Rooms\<close>

record new_room_in =
  riWorkspace :: string
  riName :: string
  riLimit :: int

text \<open>\<open>adminCreateRoom\<close>: 0 the workspace's limit when the request has none, 1 the insert.\<close>

definition adminCreateRoom :: "world \<Rightarrow> (string \<Rightarrow> string) \<Rightarrow> new_room_in option \<Rightarrow> db \<Rightarrow> response \<times> db" where
  "adminCreateRoom W lo input d =
     (let bad = (answer_error 400 ''workspace_id and room name required'', d) in
      case input of
        None \<Rightarrow> bad
      | Some i \<Rightarrow>
          if TrimSpace (riWorkspace i) = '''' \<or> TrimSpace (riName i) = '''' then bad
          else (let limit = (if riLimit i > 0 then riLimit i
                    else case query_row W 0 (filter (\<lambda>w. wsID w = riWorkspace i) (workspaces d)) of
                        Row w \<Rightarrow> wsMax w | _ \<Rightarrow> riLimit i) in
            if limit \<le> 0 \<or> limit > 100000 then (answer_error 400 ''participant_limit must be between 1 and 100000'', d)
            else case sql_exec W 1 (insert_bridge lo (new_room (wid W 1) (riWorkspace i) (TrimSpace (riName i)) limit)) d of
                Inl _ \<Rightarrow> (answer_error 409 ''room could not be created; check workspace, name, and participant limit'', d)
              | Inr d' \<Rightarrow>
                  (answer 201 [(''id'', JStr (wid W 1)), (''workspace_id'', JStr (riWorkspace i)),
                     (''name'', JStr (TrimSpace (riName i))), (''participant_limit'', JInt limit),
                     (''room_state'', JStr ''READY'')], d')))"

record room_update_in =
  ruName :: string
  ruLimit :: int
  ruTfn :: "string option"

text \<open>The number the request asks for: statement 2 checks it. The result is \<open>None\<close> when the check
  refuses, and \<open>Some None\<close> when the room is to have no number.\<close>

definition wanted_tfn :: "world \<Rightarrow> string \<Rightarrow> string option \<Rightarrow> db \<Rightarrow> string option option" where
  "wanted_tfn W ws input d =
     (let t = (case input of None \<Rightarrow> '''' | Some t \<Rightarrow> TrimSpace t) in
      if t = '''' then Some None
      else case query_row W 2 (filter (\<lambda>r. tfID r = t) (tfns d)) of
          Row r \<Rightarrow> if tfWorkspace r \<noteq> ws \<or> tfStatus r \<noteq> ''ACTIVE'' then None else Some (Some t)
        | _ \<Rightarrow> None)"

text \<open>\<open>adminUpdateRoom\<close>: 0 the room, 1 its roster, 2 the number, 3 the update.\<close>

definition adminUpdateRoom ::
  "world \<Rightarrow> (string \<Rightarrow> string) \<Rightarrow> string \<Rightarrow> string \<Rightarrow> room_update_in option \<Rightarrow> db \<Rightarrow> response \<times> db" where
  "adminUpdateRoom W lo param rid input d =
     (let bad = (answer_error 400 ''name and positive participant_limit required'', d) in
      case input of
        None \<Rightarrow> bad
      | Some i \<Rightarrow>
          if TrimSpace (ruName i) = '''' \<or> ruLimit i \<le> 0 then bad
          else (let ws = TrimSpace param in
            if ws = '''' then (answer_error 400 ''workspace_id is required'', d)
            else case query_row W 0 (room_rows ws rid d) of
                Row b \<Rightarrow>
                  if busy (brState b) then (answer_error 409 ''stop the room before changing its limit or TFN'', d)
                  else (let count = (if wfail W 1 then 0
                              else int (length (filter (\<lambda>p. paBridge p = rid) (participants d)))) in
                    if ruLimit i < count
                    then (answer_error 409 ''participant_limit cannot be below the current roster count'', d)
                    else (case wanted_tfn W ws (ruTfn i) d of
                        None \<Rightarrow> (answer_error 409 ''TFN is not active or does not belong to this workspace'', d)
                      | Some tfn \<Rightarrow>
                          (case sql_exec W 3 (update_room lo rid (TrimSpace (ruName i)) (ruLimit i) tfn) d of
                             Inl _ \<Rightarrow> (answer_error 409 ''room update failed; TFN may already be assigned to another room'', d)
                           | Inr d' \<Rightarrow> (answer 200 [(''status'', JStr ''saved''), (''room_id'', JStr rid)], d'))))
              | _ \<Rightarrow> (answer_error 404 ''room not found'', d)))"

end
