(* ===== verification/AdminUsers.thy ===== *)
theory AdminUsers
  imports Admin
begin

text \<open>
  The rest of the product administrator's handlers (control API, main.go): telephone numbers, the
  members and users of a workspace, the lists, and the router \<open>admin\<close>.
\<close>

section \<open>Telephone numbers\<close>

record tfn_in =
  tiWorkspace :: string
  tiNumber :: string
  tiLabel :: string
  tiProvider :: string

definition adminCreateTFN :: "world \<Rightarrow> tfn_in option \<Rightarrow> db \<Rightarrow> response \<times> db" where
  "adminCreateTFN W input d =
     (let bad = (answer_error 400 ''workspace_id required'', d) in
      case input of
        None \<Rightarrow> bad
      | Some i \<Rightarrow>
          if TrimSpace (tiWorkspace i) = '''' then bad
          else (let number = canonicalE164 (tiNumber i) in
            if number = '''' then (answer_error 400 ''number must be an E.164 value such as +919876543210'', d)
            else case sql_exec W 0 (insert_tfn \<lparr>tfID = wid W 0, tfWorkspace = tiWorkspace i, tfNumber = number,
                     tfLabel = TrimSpace (tiLabel i), tfProvider = TrimSpace (tiProvider i), tfStatus = ''ACTIVE''\<rparr>) d of
                Inl _ \<Rightarrow> (answer_error 409 ''TFN already exists or workspace is invalid'', d)
              | Inr d' \<Rightarrow>
                  (answer 201 [(''id'', JStr (wid W 0)), (''workspace_id'', JStr (tiWorkspace i)),
                     (''number'', JStr number), (''label'', JStr (tiLabel i)), (''status'', JStr ''ACTIVE'')], d')))"

text \<open>The rows that the DELETE removes.\<close>

definition free_tfn :: "string \<Rightarrow> string \<Rightarrow> db \<Rightarrow> tfn_row \<Rightarrow> bool" where
  "free_tfn tid ws d t \<longleftrightarrow> tfID t = tid \<and> tfWorkspace t = ws \<and> \<not> (\<exists>b \<in> set (bridges d). brTfn b = Some tid)"

definition adminDeleteTFN :: "world \<Rightarrow> string \<Rightarrow> string \<Rightarrow> db \<Rightarrow> response \<times> db" where
  "adminDeleteTFN W param tid d =
     (let ws = TrimSpace param in
      if ws = '''' then (answer_error 400 ''workspace_id is required'', d)
      else case sql_exec W 0 (\<lambda>d. Some (d\<lparr>tfns := filter (\<lambda>t. \<not> free_tfn tid ws d t) (tfns d)\<rparr>)) d of
          Inl _ \<Rightarrow> (answer_error 409 ''TFN could not be removed'', d)
        | Inr d' \<Rightarrow>
            if filter (free_tfn tid ws d) (tfns d) = []
            then (answer_error 409 ''TFN is assigned to a room or does not exist'', d')
            else (answer 200 [(''status'', JStr ''deleted'')], d'))"

section \<open>Members and users\<close>

record grant_in =
  giOperator :: string
  giRole :: string

text \<open>\<open>ON CONFLICT DO UPDATE\<close>: an existing membership, an ownership too, gets the new role.\<close>

definition save_member :: "db \<Rightarrow> member_row \<Rightarrow> accounts \<Rightarrow> accounts option" where
  "save_member d m acc =
     (if \<exists>x \<in> set (members acc). member_of (wmWorkspace m) (wmOperator m) x
      then if wmRole m \<in> set member_roles
        then Some (acc\<lparr>members := update_where (member_of (wmWorkspace m) (wmOperator m))
               (\<lambda>x. x\<lparr>wmRole := wmRole m\<rparr>) (members acc)\<rparr>)
        else None
      else insert_member d m acc)"

definition workspace_role_in :: "string \<Rightarrow> string" where
  "workspace_role_in role =
     (if role \<noteq> ''OWNER'' \<and> role \<noteq> ''ADMIN'' \<and> role \<noteq> ''VIEWER'' then ''OPERATOR'' else role)"

definition adminAddMember :: "world \<Rightarrow> string \<Rightarrow> grant_in option \<Rightarrow> db \<Rightarrow> accounts \<Rightarrow> response \<times> accounts" where
  "adminAddMember W ws input d acc =
     (let bad = (answer_error 400 ''operator_id required'', acc) in
      case input of
        None \<Rightarrow> bad
      | Some i \<Rightarrow>
          if TrimSpace (giOperator i) = '''' then bad
          else case sql_exec W 0 (save_member d
                   \<lparr>wmWorkspace = ws, wmOperator = giOperator i, wmRole = workspace_role_in (giRole i)\<rparr>) acc of
              Inl _ \<Rightarrow> (answer_error 409 ''workspace member could not be saved'', acc)
            | Inr acc' \<Rightarrow> (answer 200 [(''status'', JStr ''saved'')], acc'))"

definition adminRemoveMember :: "world \<Rightarrow> string \<Rightarrow> string \<Rightarrow> accounts \<Rightarrow> response \<times> accounts" where
  "adminRemoveMember W ws opr acc =
     (let mine = (\<lambda>m. member_of ws opr m \<and> wmRole m \<noteq> ''OWNER'') in
      case sql_exec W 0 (\<lambda>acc. Some (acc\<lparr>members := filter (\<lambda>m. \<not> mine m) (members acc)\<rparr>)) acc of
        Inl _ \<Rightarrow> (answer_error 409 ''member could not be removed'', acc)
      | Inr acc' \<Rightarrow>
          if filter mine (members acc) = [] then (answer_error 409 ''owner membership cannot be removed'', acc')
          else (answer 200 [(''status'', JStr ''removed'')], acc'))"

record new_user_in =
  nuUsername :: string
  nuDisplay :: string
  nuPassword :: string
  nuPlatform :: string
  nuWorkspace :: string
  nuRole :: string

text \<open>Deleting an account: its memberships go with it (\<open>ON DELETE CASCADE\<close>).\<close>

definition delete_operator :: "string \<Rightarrow> accounts \<Rightarrow> accounts" where
  "delete_operator u acc =
     acc\<lparr>operators := filter (\<lambda>x. opID x \<noteq> u) (operators acc),
         members := filter (\<lambda>m. wmOperator m \<noteq> u) (members acc)\<rparr>"

text \<open>\<open>adminCreateUser\<close>: 0 the account, 1 the membership, 2 the account's removal when the membership
  fails. There is no transaction.\<close>

definition adminCreateUser ::
  "world \<Rightarrow> (string \<Rightarrow> string + string) \<Rightarrow> new_user_in option \<Rightarrow> db \<Rightarrow> accounts \<Rightarrow> response \<times> accounts" where
  "adminCreateUser W hashpw input d acc =
     (let bad = (answer_error 400 ''workspace_id, username, and a password of at least 8 characters are required'', acc) in
      case input of
        None \<Rightarrow> bad
      | Some i \<Rightarrow>
          if TrimSpace (nuUsername i) = '''' \<or> length (nuPassword i) < 8 \<or> TrimSpace (nuWorkspace i) = '''' then bad
          else (let platform = (if nuPlatform i \<noteq> ''PLATFORM_ADMIN'' then ''WORKSPACE_OPERATOR'' else ''PLATFORM_ADMIN'');
                    role = workspace_role_in (nuRole i) in
            case hashpw (nuPassword i) of
              Inl e \<Rightarrow> (answer_error 500 e, acc)
            | Inr h \<Rightarrow>
                (case sql_exec W 0 (insert_operator \<lparr>opID = wid W 0, opUsername = TrimSpace (nuUsername i), opHash = h,
                     opDisplay = TrimSpace (nuDisplay i), opPlatform = platform, opStatus = ''ACTIVE''\<rparr>) acc of
                   Inl _ \<Rightarrow> (answer_error 409 ''username already exists'', acc)
                 | Inr acc1 \<Rightarrow>
                     (case sql_exec W 1 (insert_member d
                          \<lparr>wmWorkspace = nuWorkspace i, wmOperator = wid W 0, wmRole = role\<rparr>) acc1 of
                        Inl _ \<Rightarrow> (answer_error 409 ''user created but workspace membership was invalid'',
                                  sql_try W 2 (delete_operator (wid W 0)) acc1)
                      | Inr acc2 \<Rightarrow>
                          (answer 201 [(''id'', JStr (wid W 0)), (''username'', JStr (nuUsername i)),
                             (''display_name'', JStr (nuDisplay i)), (''platform_role'', JStr platform),
                             (''status'', JStr ''ACTIVE'')], acc2)))))"

record user_update_in =
  uuDisplay :: string
  uuStatus :: string
  uuPlatform :: string
  uuPassword :: string

definition active_admins :: "accounts \<Rightarrow> operator_row list" where
  "active_admins acc = filter (\<lambda>u. opStatus u = ''ACTIVE'' \<and> product_role (opPlatform u)) (operators acc)"

definition update_status :: "user_update_in \<Rightarrow> string" where
  "update_status i = (if uuStatus i \<noteq> ''DISABLED'' then ''ACTIVE'' else ''DISABLED'')"

definition update_platform :: "user_update_in \<Rightarrow> string" where
  "update_platform i =
     (if uuPlatform i \<noteq> ''PLATFORM_ADMIN'' \<and> uuPlatform i \<noteq> ''PLATFORM_OWNER'' then ''WORKSPACE_OPERATOR''
      else uuPlatform i)"

text \<open>The checks of \<open>adminUpdateUser\<close>: 0 the user, 1 the count of active product administrators, whose
  error is dropped. \<open>None\<close> lets the update go on; in between, other requests may run.\<close>

definition update_user_check ::
  "world \<Rightarrow> (nat \<Rightarrow> int) \<Rightarrow> web_request \<Rightarrow> web \<Rightarrow> string \<Rightarrow> user_update_in \<Rightarrow> accounts \<Rightarrow> response option" where
  "update_user_check W now r st opr i acc =
     (let ws = TrimSpace (wrWorkspace r) in
      if ws = '''' then Some (answer_error 400 ''workspace_id is required'')
      else case query_row W 0 [u. u \<leftarrow> operators acc, opID u = opr,
                                  m \<leftarrow> members acc, wmOperator m = opID u \<and> wmWorkspace m = ws] of
          Row u \<Rightarrow>
            (let own = (case currentAdminSession (now 0) r st of None \<Rightarrow> False | Some s \<Rightarrow> liOperator s = opr);
                 remains = product_role (update_platform i) \<and> update_status i = ''ACTIVE'' in
             if own \<and> \<not> remains then Some (answer_error 409 ''you cannot remove your own product administrator access'')
             else if product_role (opPlatform u) \<and> \<not> remains \<and>
                     (if wfail W 1 then 0 else length (active_admins acc)) \<le> 1
             then Some (answer_error 409 ''at least one active product administrator must remain'')
             else None)
        | _ \<Rightarrow> Some (answer_error 404 ''user not found''))"

text \<open>The update, statement 2, which keeps the password when none is given.\<close>

definition update_user_write ::
  "world \<Rightarrow> (string \<Rightarrow> string + string) \<Rightarrow> string \<Rightarrow> user_update_in \<Rightarrow> accounts \<Rightarrow> response \<times> accounts" where
  "update_user_write W hashpw opr i acc =
     (let save = (\<lambda>h. \<lambda>u. u\<lparr>opDisplay := TrimSpace (uuDisplay i), opStatus := update_status i,
              opPlatform := update_platform i, opHash := (case h of None \<Rightarrow> opHash u | Some h \<Rightarrow> h)\<rparr>);
          run = (\<lambda>h. case sql_exec W 2 (\<lambda>acc. Some (acc\<lparr>operators :=
                   update_where (\<lambda>u. opID u = opr) (save h) (operators acc)\<rparr>)) acc of
              Inl e \<Rightarrow> (answer_error 409 e, acc)
            | Inr acc' \<Rightarrow> (answer 200 [(''status'', JStr ''saved'')], acc')) in
      if TrimSpace (uuPassword i) \<noteq> '''' then
        (if length (uuPassword i) < 8 then (answer_error 400 ''password must be at least 8 characters'', acc)
         else case hashpw (uuPassword i) of
             Inl e \<Rightarrow> (answer_error 500 e, acc)
           | Inr h \<Rightarrow> run (Some h))
      else run None)"

definition adminUpdateUser ::
  "world \<Rightarrow> (nat \<Rightarrow> int) \<Rightarrow> (string \<Rightarrow> string + string) \<Rightarrow> web_request \<Rightarrow> web \<Rightarrow> string \<Rightarrow>
     user_update_in option \<Rightarrow> accounts \<Rightarrow> response \<times> accounts" where
  "adminUpdateUser W now hashpw r st opr input acc =
     (case input of
        None \<Rightarrow> (answer_error 400 ''invalid user payload'', acc)
      | Some i \<Rightarrow>
          (case update_user_check W now r st opr i acc of
             Some e \<Rightarrow> (e, acc)
           | None \<Rightarrow> update_user_write W hashpw opr i acc))"

section \<open>Lists\<close>

definition count_or_0 :: "world \<Rightarrow> nat \<Rightarrow> 'a list \<Rightarrow> json" where
  "count_or_0 W k rows = JInt (if wfail W k then 0 else int (length rows))"

definition adminOverview :: "world \<Rightarrow> string \<Rightarrow> db \<Rightarrow> accounts \<Rightarrow> response" where
  "adminOverview W param d acc =
     (let ws = TrimSpace param in
      if ws \<noteq> '''' then
        (if wfail W 0 \<or> ws \<notin> wsID ` set (workspaces d) then answer_error 404 ''workspace not found''
         else answer 200
           [(''workspace_id'', JStr ws),
            (''workspaces'', count_or_0 W 1 (filter (\<lambda>w. wsID w = ws \<and> wsStatus w = ''ACTIVE'') (workspaces d))),
            (''rooms'', count_or_0 W 2 (filter (\<lambda>b. brWorkspace b = ws) (bridges d))),
            (''users'', count_or_0 W 3 (filter (\<lambda>(u, m). \<not> product_role (opPlatform u)) (member_operators ws acc))),
            (''tfns'', count_or_0 W 4 (filter (\<lambda>t. tfWorkspace t = ws \<and> tfStatus t = ''ACTIVE'') (tfns d)))])
      else answer 200
        [(''workspaces'', count_or_0 W 0 (filter (\<lambda>w. wsStatus w = ''ACTIVE'') (workspaces d))),
         (''rooms'', count_or_0 W 1 (bridges d)),
         (''users'', count_or_0 W 2 (filter (\<lambda>u. opStatus u = ''ACTIVE'') (operators acc))),
         (''tfns'', count_or_0 W 3 (filter (\<lambda>t. tfStatus t = ''ACTIVE'') (tfns d)))])"

definition answer_rows :: "(string + 'a list) \<Rightarrow> ('a \<Rightarrow> (string \<times> json) list) \<Rightarrow> response" where
  "answer_rows rows f =
     (case rows of Inl e \<Rightarrow> answer_error 500 e | Inr xs \<Rightarrow> answer_list 200 (map (\<lambda>x. JObj (f x)) xs))"

definition adminWorkspaces :: "world \<Rightarrow> db \<Rightarrow> response" where
  "adminWorkspaces W d =
     answer_rows (query_rows W 0 (rev (workspaces d)))
       (\<lambda>w. [(''id'', JStr (wsID w)), (''slug'', JStr (wsSlug w)), (''name'', JStr (wsName w)),
             (''status'', JStr (wsStatus w)), (''max_participants'', JInt (wsMax w)),
             (''room_count'', JInt (int (length (filter (\<lambda>b. brWorkspace b = wsID w) (bridges d))))),
             (''tfn_count'', JInt (int (length (filter (\<lambda>t. tfWorkspace t = wsID w) (tfns d)))))])"

text \<open>The number of a room by its id alone, whatever its workspace.\<close>

definition any_tfn :: "bridge_row \<Rightarrow> db \<Rightarrow> tfn_row option" where
  "any_tfn b d = (case brTfn b of None \<Rightarrow> None | Some t \<Rightarrow> List.find (\<lambda>r. tfID r = t) (tfns d))"

definition require_param :: "string \<Rightarrow> (string \<Rightarrow> response) \<Rightarrow> response" where
  "require_param param f =
     (let ws = TrimSpace param in if ws = '''' then answer_error 400 ''workspace_id is required'' else f ws)"

definition adminRooms :: "world \<Rightarrow> string \<Rightarrow> db \<Rightarrow> response" where
  "adminRooms W param d = require_param param (\<lambda>ws.
     answer_rows (query_rows W 0 [(b, w). b \<leftarrow> rev (bridges d), brWorkspace b = ws,
                                    w \<leftarrow> workspaces d, wsID w = brWorkspace b])
       (\<lambda>(b, w). [(''id'', JStr (brID b)), (''workspace_id'', JStr (brWorkspace b)), (''workspace_name'', JStr (wsName w)),
             (''name'', JStr (brName b)), (''status'', JStr ''ACTIVE''), (''room_state'', JStr (brState b)),
             (''participant_limit'', JInt (brLimit b)), (''tfn_id'', JStr (tfn_id (any_tfn b d))),
             (''tfn_number'', JStr (tfn_number (any_tfn b d))), (''tfn_label'', JStr (tfn_label (any_tfn b d)))]))"

text \<open>A left join: a number without a room has one row, without room.\<close>

definition tfn_rooms :: "tfn_row \<Rightarrow> db \<Rightarrow> bridge_row option list" where
  "tfn_rooms t d =
     (case filter (\<lambda>b. brTfn b = Some (tfID t)) (bridges d) of [] \<Rightarrow> [None] | bs \<Rightarrow> map Some bs)"

definition adminTFNs :: "world \<Rightarrow> string \<Rightarrow> db \<Rightarrow> response" where
  "adminTFNs W param d = require_param param (\<lambda>ws.
     answer_rows (query_rows W 0 [(t, w, b). t \<leftarrow> rev (tfns d), tfWorkspace t = ws,
                                    w \<leftarrow> workspaces d, wsID w = tfWorkspace t, b \<leftarrow> tfn_rooms t d])
       (\<lambda>(t, w, b). [(''id'', JStr (tfID t)), (''workspace_id'', JStr (tfWorkspace t)), (''workspace_name'', JStr (wsName w)),
             (''number'', JStr (tfNumber t)), (''label'', JStr (tfLabel t)), (''provider_ref'', JStr (tfProvider t)),
             (''status'', JStr (tfStatus t)), (''room_id'', JStr (coalesce_text (map_option brID b))),
             (''room_name'', JStr (coalesce_text (map_option brName b)))]))"

definition customer_members :: "string \<Rightarrow> accounts \<Rightarrow> (operator_row \<times> member_row) list" where
  "customer_members ws acc = filter (\<lambda>(u, m). \<not> product_role (opPlatform u)) (member_operators ws acc)"

definition adminMembers :: "world \<Rightarrow> (string \<Rightarrow> rat) \<Rightarrow> string \<Rightarrow> accounts \<Rightarrow> response" where
  "adminMembers W collate ws acc =
     answer_rows (query_rows W 0 (sort_key (\<lambda>(u, m). collate (opUsername u)) (customer_members ws acc)))
       (\<lambda>(u, m). [(''operator_id'', JStr (opID u)), (''username'', JStr (opUsername u)),
             (''display_name'', JStr (opDisplay u)), (''platform_role'', JStr (opPlatform u)),
             (''status'', JStr (opStatus u)), (''role'', JStr (wmRole m))])"

definition adminUsers :: "world \<Rightarrow> (string \<Rightarrow> json) \<Rightarrow> string \<Rightarrow> accounts \<Rightarrow> response" where
  "adminUsers W created param acc = require_param param (\<lambda>ws.
     answer_rows (query_rows W 0 [(u, m). u \<leftarrow> rev (operators acc), \<not> product_role (opPlatform u),
                                    m \<leftarrow> members acc, wmOperator m = opID u \<and> wmWorkspace m = ws])
       (\<lambda>(u, m). [(''id'', JStr (opID u)), (''username'', JStr (opUsername u)), (''display_name'', JStr (opDisplay u)),
             (''platform_role'', JStr (opPlatform u)), (''status'', JStr (opStatus u)), (''created_at'', created (opID u))]))"

section \<open>The router\<close>

datatype admin_op =
    Overview
  | ListUsers
  | CreateUser
  | UpdateUser string
  | ListWorkspaces
  | CreateWorkspace
  | UpdateWorkspace string
  | ListMembers string
  | AddMember string
  | RemoveMember string string
  | ListRooms
  | CreateRoom
  | UpdateRoom string
  | ListTFNs
  | CreateTFN
  | DeleteTFN string

definition admin_path :: "string \<Rightarrow> string list" where
  "admin_path path = split_on CHR ''/'' (Trim (TrimPrefix path ''/api/v1/admin'') ''/'')"

definition admin_route :: "string \<Rightarrow> string \<Rightarrow> admin_op option" where
  "admin_route meth path =
     (let get = (meth = ''GET''); post = (meth = ''POST''); put = (meth = ''PUT''); del = (meth = ''DELETE'') in
      case admin_path path of
        [a] \<Rightarrow>
          if a = ''overview'' \<and> get then Some Overview
          else if a = ''users'' \<and> get then Some ListUsers
          else if a = ''users'' \<and> post then Some CreateUser
          else if a = ''workspaces'' \<and> get then Some ListWorkspaces
          else if a = ''workspaces'' \<and> post then Some CreateWorkspace
          else if a = ''rooms'' \<and> get then Some ListRooms
          else if a = ''rooms'' \<and> post then Some CreateRoom
          else if a = ''tfns'' \<and> get then Some ListTFNs
          else if a = ''tfns'' \<and> post then Some CreateTFN
          else None
      | [a, i] \<Rightarrow>
          if a = ''users'' \<and> put then Some (UpdateUser i)
          else if a = ''workspaces'' \<and> put then Some (UpdateWorkspace i)
          else if a = ''rooms'' \<and> put then Some (UpdateRoom i)
          else if a = ''tfns'' \<and> del then Some (DeleteTFN i)
          else None
      | [a, i, b] \<Rightarrow>
          if a = ''workspaces'' \<and> b = ''members'' \<and> get then Some (ListMembers i)
          else if a = ''workspaces'' \<and> b = ''members'' \<and> post then Some (AddMember i)
          else None
      | [a, i, b, j] \<Rightarrow>
          if a = ''workspaces'' \<and> b = ''members'' \<and> del then Some (RemoveMember i j) else None
      | _ \<Rightarrow> None)"

text \<open>The body of a request, as each handler decodes it.\<close>

record admin_body =
  abUser :: "new_user_in option"
  abUserUpdate :: "user_update_in option"
  abWorkspace :: "workspace_in option"
  abWorkspaceUpdate :: "workspace_update_in option"
  abMember :: "grant_in option"
  abRoom :: "new_room_in option"
  abRoomUpdate :: "room_update_in option"
  abTFN :: "tfn_in option"

record pg =
  pgLower :: "string \<Rightarrow> string"
  pgCollate :: "string \<Rightarrow> rat"
  pgCreated :: "string \<Rightarrow> json"

fun run_admin ::
  "world \<Rightarrow> pg \<Rightarrow> (nat \<Rightarrow> int) \<Rightarrow> (string \<Rightarrow> string + string) \<Rightarrow> web_request \<Rightarrow> web \<Rightarrow> admin_body \<Rightarrow> admin_op \<Rightarrow>
     db \<Rightarrow> accounts \<Rightarrow> response \<times> db \<times> accounts" where
  "run_admin W pg now hashpw r st body Overview d acc = (adminOverview W (wrWorkspace r) d acc, d, acc)"
| "run_admin W pg now hashpw r st body ListUsers d acc = (adminUsers W (pgCreated pg) (wrWorkspace r) acc, d, acc)"
| "run_admin W pg now hashpw r st body CreateUser d acc =
     (case adminCreateUser W hashpw (abUser body) d acc of (a, acc') \<Rightarrow> (a, d, acc'))"
| "run_admin W pg now hashpw r st body (UpdateUser u) d acc =
     (case adminUpdateUser W now hashpw r st u (abUserUpdate body) acc of (a, acc') \<Rightarrow> (a, d, acc'))"
| "run_admin W pg now hashpw r st body ListWorkspaces d acc = (adminWorkspaces W d, d, acc)"
| "run_admin W pg now hashpw r st body CreateWorkspace d acc =
     (case adminCreateWorkspace W (abWorkspace body) d of (a, d') \<Rightarrow> (a, d', acc))"
| "run_admin W pg now hashpw r st body (UpdateWorkspace ws) d acc =
     (case adminUpdateWorkspace W ws (abWorkspaceUpdate body) d of (a, d') \<Rightarrow> (a, d', acc))"
| "run_admin W pg now hashpw r st body (ListMembers ws) d acc = (adminMembers W (pgCollate pg) ws acc, d, acc)"
| "run_admin W pg now hashpw r st body (AddMember ws) d acc =
     (case adminAddMember W ws (abMember body) d acc of (a, acc') \<Rightarrow> (a, d, acc'))"
| "run_admin W pg now hashpw r st body (RemoveMember ws u) d acc =
     (case adminRemoveMember W ws u acc of (a, acc') \<Rightarrow> (a, d, acc'))"
| "run_admin W pg now hashpw r st body ListRooms d acc = (adminRooms W (wrWorkspace r) d, d, acc)"
| "run_admin W pg now hashpw r st body CreateRoom d acc =
     (case adminCreateRoom W (pgLower pg) (abRoom body) d of (a, d') \<Rightarrow> (a, d', acc))"
| "run_admin W pg now hashpw r st body (UpdateRoom rid) d acc =
     (case adminUpdateRoom W (pgLower pg) (wrWorkspace r) rid (abRoomUpdate body) d of (a, d') \<Rightarrow> (a, d', acc))"
| "run_admin W pg now hashpw r st body ListTFNs d acc = (adminTFNs W (wrWorkspace r) d, d, acc)"
| "run_admin W pg now hashpw r st body CreateTFN d acc =
     (case adminCreateTFN W (abTFN body) d of (a, d') \<Rightarrow> (a, d', acc))"
| "run_admin W pg now hashpw r st body (DeleteTFN t) d acc =
     (case adminDeleteTFN W (wrWorkspace r) t d of (a, d') \<Rightarrow> (a, d', acc))"

definition admin ::
  "world \<Rightarrow> pg \<Rightarrow> (nat \<Rightarrow> int) \<Rightarrow> (string \<Rightarrow> string + string) \<Rightarrow> web_request \<Rightarrow> web \<Rightarrow> admin_body \<Rightarrow>
     db \<Rightarrow> accounts \<Rightarrow> response \<times> db \<times> accounts" where
  "admin W pg now hashpw r st body d acc =
     (case admin_route (wrMethod r) (wrPath r) of
        None \<Rightarrow> (answer_empty 404, d, acc)
      | Some op \<Rightarrow> run_admin W pg now hashpw r st body op d acc)"

end
