(* ===== verification/Dispatch.thy ===== *)
theory Dispatch
  imports Rooms
begin

text \<open>
  Calling a participant of a room and dropping a call (control API, main.go:
  \<open>dispatchExistingParticipant\<close>, \<open>dispatchDial\<close>, \<open>dial\<close>, \<open>addParticipant\<close>, \<open>dropCall\<close>). The PBX
  nodes and the sidecars are outside: the fleet \<open>F\<close> gives, for the n-th use in a handler, the
  result of \<open>nodes\<close>, the command id that \<open>newID\<close> draws and the error of the request to the sidecar.
  Besides its result a definition delivers the requests it has sent, and statements are numbered
  from an offset.
\<close>

record fleet =
  flNodes :: "nat \<Rightarrow> string + node list"
  flCommand :: "nat \<Rightarrow> string"
  flPost :: "nat \<Rightarrow> string option"

record sidecar_post =
  spNode :: node
  spPath :: string
  spBody :: "(string \<times> json) list"

section \<open>Calling a participant\<close>

text \<open>The row of \<open>dispatchExistingParticipant\<close>'s first query: the participant, the room it belongs
  to and that room's number.\<close>

definition dispatch_rows :: "string \<Rightarrow> string \<Rightarrow> string \<Rightarrow> db \<Rightarrow> (participant_row \<times> bridge_row) list" where
  "dispatch_rows ws br pid d =
     [(p, b). p \<leftarrow> participants d, paID p = pid \<and> paWorkspace p = ws \<and> paBridge p = br,
              b \<leftarrow> bridges d, brID b = paBridge p \<and> brWorkspace b = paWorkspace p]"

definition insert_leg :: "leg_row \<Rightarrow> db \<Rightarrow> db option" where
  "insert_leg l d =
     (if lgID l \<notin> lgID ` set (legs d) \<and> lgWorkspace l \<in> wsID ` set (workspaces d) \<and>
         lgParticipant l \<in> paID ` set (participants d) \<and> lgBridge l \<in> brID ` set (bridges d)
      then Some (d\<lparr>legs := legs d @ [l]\<rparr>) else None)"

definition on_leg :: "(leg_row \<Rightarrow> bool) \<Rightarrow> (leg_row \<Rightarrow> leg_row) \<Rightarrow> db \<Rightarrow> db" where
  "on_leg P f d = d\<lparr>legs := update_where P f (legs d)\<rparr>"

definition insert_attendance :: "attendance_row \<Rightarrow> db \<Rightarrow> db" where
  "insert_attendance a d =
     (if atSession a \<in> seID ` set (sessions d) \<and>
         refers (atParticipant a) (paID ` set (participants d)) \<and> refers (atLeg a) (lgID ` set (legs d))
      then d\<lparr>attendance := attendance d @ [a]\<rparr> else d)"

record dispatched =
  dpParticipant :: string
  dpCall :: string
  dpNode :: string
  dpRole :: string

definition dispatched_json :: "dispatched \<Rightarrow> (string \<times> json) list" where
  "dispatched_json r =
     [(''participant_id'', JStr (dpParticipant r)), (''call_id'', JStr (dpCall r)),
      (''node_id'', JStr (dpNode r)), (''role'', JStr (dpRole r)), (''state'', JStr ''DISPATCHED'')]"

text \<open>After the leg is inserted: k+2 marks it failed when the sidecar refuses the call; k+3 and k+4
  note the participant's state and its attendance.\<close>

definition dispatch_noted ::
  "world \<Rightarrow> nat \<Rightarrow> string \<Rightarrow> string \<Rightarrow> string \<Rightarrow> string \<Rightarrow> string \<Rightarrow> string \<Rightarrow> string \<Rightarrow> db \<Rightarrow> db" where
  "dispatch_noted W k ws pid session callID name dialNumber role d =
     (let participantState = (if role = ''HOST'' then ''ACTIVE'' else ''MUTED'');
          d = sql_try W (k + 3) (on_participant ws pid (\<lambda>p. p\<lparr>paDesired := participantState\<rparr>)) d
      in if session \<noteq> '''' then
           sql_try W (k + 4) (insert_attendance
             \<lparr>atSession = session, atParticipant = Some pid, atLeg = Some callID, atName = name,
              atPhone = dialNumber, atRole = role, atState = ''DISPATCHED'', atJoined = None, atLeft = None\<rparr>) d
         else d)"

definition dispatchExistingParticipant ::
  "world \<Rightarrow> nat \<Rightarrow> fleet \<Rightarrow> nat \<Rightarrow> string \<Rightarrow> string \<Rightarrow> string \<Rightarrow> string \<Rightarrow> db \<Rightarrow>
     (string + dispatched) \<times> sidecar_post list \<times> db" where
  "dispatchExistingParticipant W k F j ws br pid session d =
     (case query_row W k (dispatch_rows ws br pid d) of
        NoRows \<Rightarrow> (Inl (row_error (NoRows :: unit fetched_row)), [], d)
      | RowErr e \<Rightarrow> (Inl e, [], d)
      | Row (p, b) \<Rightarrow>
          (let tfn = room_tfn b d in
           if tfn_status tfn \<noteq> ''ACTIVE'' \<or> blank (tfn_number tfn)
           then (Inl ''room has no active TFN assigned'', [], d)
           else let dialNumber = normalizeDialNumber (paPhone p) (brRegion b) in
             if dialNumber = '''' then (Inl ''participant phone number is invalid'', [], d)
             else let role = normalizeParticipantRole (paRole p) in
               case flNodes F j of
                 Inl e \<Rightarrow> (Inl e, [], d)
               | Inr ns \<Rightarrow>
                   (case chooseNode ns role of
                      Inl e \<Rightarrow> (Inl e, [], d)
                    | Inr n \<Rightarrow>
                        (let callID = wid W (k + 1) in
                         case sql_exec W (k + 1) (insert_leg
                             \<lparr>lgID = callID, lgWorkspace = ws, lgParticipant = pid, lgBridge = br,
                              lgNode = NodeID n, lgEpoch = NodeEpoch n, lgMember = None, lgPBXCall = None,
                              lgSIPCall = None, lgState = ''DISPATCHED'', lgMute = (role \<noteq> ''HOST''),
                              lgError = None, lgAnswered = None, lgEnded = None\<rparr>) d of
                           Inl e \<Rightarrow> (Inl e, [], d)
                         | Inr d1 \<Rightarrow>
                             (let post = \<lparr>spNode = n, spPath = ''/v1/calls/originate'',
                                  spBody = [(''command_id'', JStr (flCommand F j)), (''call_id'', JStr callID),
                                    (''bridge_id'', JStr br), (''participant_id'', JStr pid),
                                    (''destination'', JStr dialNumber), (''caller_id'', JStr (tfn_number tfn)),
                                    (''role'', JStr role), (''desired_mute'', JBool (role \<noteq> ''HOST''))]\<rparr> in
                              case flPost F j of
                                Some e \<Rightarrow>
                                  (Inl e, [post],
                                   sql_try W (k + 2) (on_leg (\<lambda>l. lgID l = callID)
                                     (\<lambda>l. l\<lparr>lgState := ''FAILED'', lgError := Some e,
                                           lgEnded := Some (wnow W (k + 2))\<rparr>)) d1)
                              | None \<Rightarrow>
                                  (Inr \<lparr>dpParticipant = pid, dpCall = callID, dpNode = NodeID n, dpRole = role\<rparr>,
                                   [post],
                                   dispatch_noted W k ws pid session callID (paName p) dialNumber role d1))))))"

section \<open>The live dialer\<close>

text \<open>\<open>dispatchDial\<close>: 0 read the room and its roster, 1 insert the participant, then dispatch from 2.\<close>

definition dispatchDial ::
  "world \<Rightarrow> fleet \<Rightarrow> string \<Rightarrow> string \<Rightarrow> string \<Rightarrow> string \<Rightarrow> db \<Rightarrow>
     (string + dispatched) \<times> sidecar_post list \<times> db" where
  "dispatchDial W F ws br name phone d =
     (case query_row W 0 (room_rows ws br d) of
        NoRows \<Rightarrow> (Inl (row_error (NoRows :: unit fetched_row)), [], d)
      | RowErr e \<Rightarrow> (Inl e, [], d)
      | Row b \<Rightarrow>
          if brState b \<noteq> ''RUNNING'' then (Inl ''start the room before using the live dialer'', [], d)
          else if roster_count ws br d \<ge> brLimit b
          then (Inl (''room participant limit reached ('' @ Itoa (brLimit b) @ '')''), [], d)
          else let tfn = room_tfn b d in
            if tfn_status tfn \<noteq> ''ACTIVE'' \<or> blank (tfn_number tfn)
            then (Inl ''room has no active TFN assigned'', [], d)
            else case sql_exec W 1 (insert_participant
                \<lparr>paID = wid W 1, paWorkspace = ws, paBridge = br, paName = coalesce name phone,
                 paPhone = phone, paDesired = ''MUTED'', paRole = ''LISTENER''\<rparr>) d of
              Inl e \<Rightarrow> (Inl e, [], d)
            | Inr d1 \<Rightarrow> dispatchExistingParticipant W 2 F 0 ws br (wid W 1) '''' d1)"

record dial_in =
  diName :: string
  diPhone :: string
  diRegion :: string

definition dial ::
  "world \<Rightarrow> fleet \<Rightarrow> string \<Rightarrow> string \<Rightarrow> dial_in option \<Rightarrow> db \<Rightarrow> response \<times> sidecar_post list \<times> db" where
  "dial W F ws br input d =
     (case input of
        None \<Rightarrow> (answer_error 400 ''phone_number required'', [], d)
      | Some i \<Rightarrow>
          if diPhone i = '''' then (answer_error 400 ''phone_number required'', [], d)
          else let phone = (if \<not> blank (diRegion i) then normalizeDialNumber (diPhone i) (diRegion i)
                            else diPhone i) in
            if phone = '''' then (answer_error 400 ''phone_number is invalid'', [], d)
            else case dispatchDial W F ws br (diName i) phone d of
                (Inl e, ps, d') \<Rightarrow> (answer_error 502 e, ps, d')
              | (Inr r, ps, d') \<Rightarrow> (answer 202 (dispatched_json r), ps, d'))"

text \<open>\<open>addParticipant\<close>: 0 read the participant, 1 read the room, then dispatch from 2.\<close>

definition addParticipant ::
  "world \<Rightarrow> fleet \<Rightarrow> string \<Rightarrow> string \<Rightarrow> db \<Rightarrow> response \<times> sidecar_post list \<times> db" where
  "addParticipant W F ws pid d =
     (case query_row W 0 (filter (\<lambda>p. paID p = pid \<and> paWorkspace p = ws) (participants d)) of
        NoRows \<Rightarrow> (answer_error 404 ''participant not found'', [], d)
      | RowErr _ \<Rightarrow> (answer_error 404 ''participant not found'', [], d)
      | Row p \<Rightarrow>
          (case query_row W 1 (room_rows ws (paBridge p) d) of
             Row b \<Rightarrow>
               if brState b \<noteq> ''RUNNING''
               then (answer_error 409 ''start the room before adding a participant call'', [], d)
               else (case dispatchExistingParticipant W 2 F 0 ws (paBridge p) pid '''' d of
                   (Inl e, ps, d') \<Rightarrow> (answer_error 502 e, ps, d')
                 | (Inr r, ps, d') \<Rightarrow> (answer 202 (dispatched_json r), ps, d'))
           | _ \<Rightarrow> (answer_error 409 ''start the room before adding a participant call'', [], d)))"

section \<open>Dropping a call\<close>

definition participant_command_path :: "string \<Rightarrow> string \<Rightarrow> string" where
  "participant_command_path pid action = ''/v1/participants/'' @ pid @ ''/'' @ action"

definition command_body :: "string \<Rightarrow> string \<Rightarrow> string \<Rightarrow> int \<Rightarrow> (string \<times> json) list" where
  "command_body command callID pid epoch =
     [(''command_id'', JStr command), (''call_id'', JStr callID), (''participant_id'', JStr pid),
      (''node_epoch'', JInt epoch)]"

definition dropCall ::
  "world \<Rightarrow> nat \<Rightarrow> fleet \<Rightarrow> nat \<Rightarrow> string \<Rightarrow> leg_row \<Rightarrow> db \<Rightarrow> string option \<times> sidecar_post list \<times> db" where
  "dropCall W k F j ws leg d =
     (case flNodes F j of
        Inl e \<Rightarrow> (Some e, [], d)
      | Inr ns \<Rightarrow>
          (case owner_of ns (lgNode leg) of
             None \<Rightarrow> (Some ''owning PBX is unavailable'', [], d)
           | Some n \<Rightarrow>
               (let post = \<lparr>spNode = n, spPath = participant_command_path (lgParticipant leg) ''drop'',
                    spBody = command_body (flCommand F j) (lgID leg) (lgParticipant leg) (lgEpoch leg)\<rparr> in
                case flPost F j of
                  Some e \<Rightarrow> (Some e, [post], d)
                | None \<Rightarrow>
                    (None, [post],
                     sql_try W k (on_leg (\<lambda>l. lgID l = lgID leg \<and> lgWorkspace l = ws)
                       (\<lambda>l. l\<lparr>lgState := ''DROPPED'', lgEnded := coalesce_time (lgEnded l) (wnow W k)\<rparr>)) d))))"

end
