(* ===== verification/Sessions.thy ===== *)
theory Sessions
  imports Dispatch
begin

text \<open>
  The life of a room session (control API, main.go): the prerequisites and the start of a room, the
  goroutine that waits for the host's answer and then calls the listeners, the stop, and the events
  by which the sidecars report calls. The goroutine is given by its iterations: \<open>activate_tick\<close> is
  one pass through its loop, \<open>activate_timeout\<close> what it does when the deadline of 90 seconds has
  passed.
\<close>

section \<open>Prerequisites\<close>

definition check_row :: "string \<Rightarrow> string \<Rightarrow> bool \<Rightarrow> string \<Rightarrow> json" where
  "check_row key label ok detail =
     JObj [(''key'', JStr key), (''label'', JStr label), (''ok'', JBool ok), (''detail'', JStr detail)]"

definition rostered :: "int \<Rightarrow> int \<Rightarrow> string" where
  "rostered count limit = Itoa count @ '' of '' @ Itoa limit @ '' rostered''"

definition middle_dot :: string where
  "middle_dot = '' '' @ [CHR 0xC2, CHR 0xB7] @ '' ''"

definition roomStartChecks :: "world \<Rightarrow> nat \<Rightarrow> string \<Rightarrow> string \<Rightarrow> db \<Rightarrow> json list \<times> bool" where
  "roomStartChecks W k ws br d =
     (case query_row W k (room_rows ws br d) of
        Row b \<Rightarrow>
          (let tfn = room_tfn b d; count = roster_count ws br d; limit = brLimit b;
               hostName = coalesce_text (brHostName b); hostPhone = coalesce_text (brHostPhone b);
               hostOK = (\<not> blank hostName \<and> \<not> blank hostPhone);
               tfnOK = (tfn_id tfn \<noteq> '''' \<and> tfn_status tfn = ''ACTIVE'' \<and> \<not> blank (tfn_number tfn));
               capacityOK = (limit > 0 \<and> count \<le> limit)
           in ([check_row ''host'' ''Fixed host'' hostOK
                  (if hostOK then hostName else ''Add a host in Room settings''),
                check_row ''tfn'' ''Room TFN'' tfnOK
                  (if tfnOK then if tfn_label tfn \<noteq> '''' then tfn_label tfn @ middle_dot @ tfn_number tfn
                                 else tfn_number tfn
                   else ''Product admin must assign an active TFN''),
                check_row ''capacity'' ''Participant limit'' capacityOK (rostered count limit)],
               hostOK \<and> tfnOK \<and> capacityOK))
      | _ \<Rightarrow> ([check_row ''room'' ''Room'' False ''Room configuration could not be read''], False))"

section \<open>Starting a room\<close>

text \<open>The insert of a session, with the index \<open>room_sessions_one_active_uq\<close>.\<close>

definition insert_session :: "session_row \<Rightarrow> db \<Rightarrow> db option" where
  "insert_session s d =
     (if seID s \<notin> seID ` set (sessions d) \<and> seWorkspace s \<in> wsID ` set (workspaces d) \<and>
         seBridge s \<in> brID ` set (bridges d) \<and>
         refers (seHost s) (paID ` set (participants d)) \<and>
         (active_session (seStatus s) \<longrightarrow>
            \<not> (\<exists>t \<in> set (sessions d). seBridge t = seBridge s \<and> active_session (seStatus t)))
      then Some (d\<lparr>sessions := sessions d @ [s]\<rparr>) else None)"

definition on_session :: "(session_row \<Rightarrow> bool) \<Rightarrow> (session_row \<Rightarrow> session_row) \<Rightarrow> db \<Rightarrow> db" where
  "on_session P f d = d\<lparr>sessions := update_where P f (sessions d)\<rparr>"

text \<open>The answer when a prerequisite is missing.\<close>

definition prerequisite :: "string \<Rightarrow> json list \<Rightarrow> response" where
  "prerequisite msg checks =
     answer 409 [(''error'', JStr msg), (''code'', JStr ''ROOM_START_PREREQUISITES''), (''checks'', JArr checks)]"

definition start_refusal :: "bridge_row \<Rightarrow> int \<Rightarrow> tfn_row option \<Rightarrow> response option" where
  "start_refusal b count tfn =
     (let hostName = coalesce_text (brHostName b); hostPhone = coalesce_text (brHostPhone b); limit = brLimit b in
      if busy (brState b) then Some (answer_error 409 ''room is already running'')
      else if blank hostName \<or> blank hostPhone then
        Some (prerequisite ''configure a host before starting the room''
          [check_row ''host'' ''Fixed host'' False ''Add a host in Room settings'',
           check_row ''tfn'' ''Room TFN'' (tfn_id tfn \<noteq> '''' \<and> tfn_status tfn = ''ACTIVE'')
             ''Product admin must assign an active TFN'',
           check_row ''capacity'' ''Participant limit'' (count \<le> limit) (rostered count limit)])
      else if tfn_id tfn = '''' \<or> tfn_status tfn \<noteq> ''ACTIVE'' \<or> blank (tfn_number tfn) then
        Some (prerequisite ''assign an active TFN to this room before starting it''
          [check_row ''host'' ''Fixed host'' True hostName,
           check_row ''tfn'' ''Room TFN'' False ''Product admin must assign an active TFN'',
           check_row ''capacity'' ''Participant limit'' (count \<le> limit) (rostered count limit)])
      else if limit \<le> 0 \<or> count > limit then
        Some (prerequisite ''room participant limit exceeded''
          [check_row ''host'' ''Fixed host'' True hostName,
           check_row ''tfn'' ''Room TFN'' True (tfn_number tfn),
           check_row ''capacity'' ''Participant limit'' False (rostered count limit)])
      else None)"

text \<open>The transaction of \<open>startRoom\<close>: 0 begin, 1 read the room, 2 look for the host participant, 3
  insert it, 4 insert the session, 5 mark the room, 6 commit.\<close>

definition start_host :: "world \<Rightarrow> string \<Rightarrow> string \<Rightarrow> bridge_row \<Rightarrow> db \<Rightarrow> string + (string \<times> db)" where
  "start_host W ws br b d =
     (case query_row W 2 (host_rows ws br d) of
        RowErr e \<Rightarrow> Inl e
      | Row h \<Rightarrow> Inr (paID h, d)
      | NoRows \<Rightarrow>
          (case sql_exec W 3 (insert_participant
              \<lparr>paID = wid W 3, paWorkspace = ws, paBridge = br, paName = coalesce_text (brHostName b),
               paPhone = coalesce_text (brHostPhone b), paDesired = ''ACTIVE'', paRole = ''HOST''\<rparr>) d of
             Inl e \<Rightarrow> Inl e
           | Inr d' \<Rightarrow> Inr (wid W 3, d')))"

definition start_tx :: "world \<Rightarrow> string \<Rightarrow> string \<Rightarrow> db \<Rightarrow> response + (string \<times> string \<times> db)" where
  "start_tx W ws br d =
     (if wfail W 0 then Inl (sql_failure (wtext W 0))
      else case query_row W 1 (room_rows ws br d) of
          NoRows \<Rightarrow> Inl (answer_error 404 ''room not found'')
        | RowErr _ \<Rightarrow> Inl (answer_error 404 ''room not found'')
        | Row b \<Rightarrow>
            (case start_refusal b (roster_count ws br d) (room_tfn b d) of
               Some r \<Rightarrow> Inl r
             | None \<Rightarrow>
                 (case start_host W ws br b d of
                    Inl e \<Rightarrow> Inl (sql_failure e)
                  | Inr (hostID, d1) \<Rightarrow>
                      (case sql_exec W 4 (insert_session
                          \<lparr>seID = wid W 4, seWorkspace = ws, seBridge = br, seHost = Some hostID,
                           seStatus = ''STARTING'', seStarted = wnow W 4, seEnded = None, seDuration = None\<rparr>) d1 of
                         Inl _ \<Rightarrow> Inl (answer_error 409 ''room already has an active session'')
                       | Inr d2 \<Rightarrow>
                           (case sql_exec W 5 (\<lambda>d. Some (on_room ws br (\<lambda>b. b\<lparr>brState := ''STARTING''\<rparr>) d)) d2 of
                              Inl e \<Rightarrow> Inl (sql_failure e)
                            | Inr d3 \<Rightarrow>
                                (case sql_commit W 6 d3 of
                                   Inl e \<Rightarrow> Inl (sql_failure e)
                                 | Inr d4 \<Rightarrow> Inr (hostID, wid W 4, d4)))))))"

text \<open>What the goroutine is started with.\<close>

record activation =
  acSession :: string
  acWorkspace :: string
  acBridge :: string
  acCall :: string

text \<open>\<open>startRoom\<close>: the transaction, then the host's call (statements from 7), and 12 and 13 to undo
  the start when the call cannot be dispatched.\<close>

definition startRoom ::
  "world \<Rightarrow> fleet \<Rightarrow> string \<Rightarrow> string \<Rightarrow> db \<Rightarrow> response \<times> activation option \<times> sidecar_post list \<times> db" where
  "startRoom W F ws br d =
     (case start_tx W ws br d of
        Inl r \<Rightarrow> (r, None, [], d)
      | Inr (hostID, session, d1) \<Rightarrow>
          (case dispatchExistingParticipant W 7 F 0 ws br hostID session d1 of
             (Inl e, ps, d2) \<Rightarrow>
               (let d3 = sql_try W 12 (on_session (\<lambda>s. seID s = session)
                      (\<lambda>s. s\<lparr>seStatus := ''FAILED'', seEnded := Some (wnow W 12), seDuration := Some 0\<rparr>)) d2;
                    d4 = sql_try W 13 (on_room ws br (\<lambda>b. b\<lparr>brState := ''READY''\<rparr>)) d3
                in (answer_error 502 (''host call could not be dispatched: '' @ e), None, ps, d4))
           | (Inr r, ps, d2) \<Rightarrow>
               (answer 202 [(''session_id'', JStr session), (''room_state'', JStr ''STARTING''),
                            (''host'', JObj (dispatched_json r))],
                Some \<lparr>acSession = session, acWorkspace = ws, acBridge = br, acCall = dpCall r\<rparr>, ps, d2)))"

section \<open>Waiting for the host\<close>

text \<open>The listeners are called by goroutines, 32 at a time; their statements touch different rows, so
  one after the other is a representative order. The i-th uses the statements from \<open>10 + 5 * i\<close>.\<close>

fun dispatch_all ::
  "world \<Rightarrow> fleet \<Rightarrow> nat \<Rightarrow> activation \<Rightarrow> string list \<Rightarrow> db \<Rightarrow> sidecar_post list \<times> db" where
  "dispatch_all W F i a [] d = ([], d)"
| "dispatch_all W F i a (pid # rest) d =
     (let (r, ps, d) = dispatchExistingParticipant W (10 + 5 * i) F i (acWorkspace a) (acBridge a) pid (acSession a) d;
          (qs, d) = dispatch_all W F (Suc i) a rest d
      in (ps @ qs, d))"

definition listener_ids :: "string \<Rightarrow> string \<Rightarrow> db \<Rightarrow> string list" where
  "listener_ids ws br d =
     map paID (filter (\<lambda>p. paBridge p = br \<and> paWorkspace p = ws \<and> paRole p = ''LISTENER'') (participants d))"

text \<open>Ending the wait without an answer: k fails the session if it is still starting, k+1 resets the
  room.\<close>

definition activation_failed :: "world \<Rightarrow> nat \<Rightarrow> activation \<Rightarrow> db \<Rightarrow> db" where
  "activation_failed W k a d =
     (let d = sql_try W k (on_session (\<lambda>s. seID s = acSession a \<and> seStatus s = ''STARTING'')
            (\<lambda>s. s\<lparr>seStatus := ''FAILED'', seEnded := Some (wnow W k)\<rparr>)) d
      in sql_try W (k + 1) (on_room (acWorkspace a) (acBridge a) (\<lambda>b. b\<lparr>brState := ''READY''\<rparr>)) d)"

datatype wait = Waiting | Finished

text \<open>One iteration: 0 read the host's call; answered: 1 the session, 2 the room, 3 the listeners.\<close>

definition activate_tick ::
  "world \<Rightarrow> fleet \<Rightarrow> activation \<Rightarrow> db \<Rightarrow> wait \<times> sidecar_post list \<times> db" where
  "activate_tick W F a d =
     (case query_row W 0 (filter (\<lambda>l. lgID l = acCall a) (legs d)) of
        Row l \<Rightarrow>
          if lgState l = ''ANSWERED'' \<or> lgState l = ''IN_BRIDGE'' then
            (let mine = (\<lambda>s. seID s = acSession a \<and> seStatus s = ''STARTING'');
                 changed = length (filter mine (sessions d))
             in if wfail W 1 then (Finished, [], d)
                else let d1 = on_session mine (\<lambda>s. s\<lparr>seStatus := ''RUNNING''\<rparr>) d in
                  if changed \<noteq> 1 then (Finished, [], d1)
                  else let d2 = sql_try W 2 (\<lambda>d. d\<lparr>bridges := update_where
                               (\<lambda>b. brID b = acBridge a \<and> brWorkspace b = acWorkspace a \<and> brState b = ''STARTING'')
                               (\<lambda>b. b\<lparr>brState := ''RUNNING''\<rparr>) (bridges d)\<rparr>) d1;
                           ids = (case query_rows W 3 (listener_ids (acWorkspace a) (acBridge a) d2) of
                                    Inl _ \<Rightarrow> [] | Inr ids \<Rightarrow> ids);
                           (ps, d3) = dispatch_all W F 0 a ids d2
                       in (Finished, ps, d3))
          else if lgState l = ''FAILED'' \<or> lgState l = ''ENDED'' \<or> lgState l = ''DROPPED''
          then (Finished, [], activation_failed W 1 a d)
          else (Waiting, [], d)
      | _ \<Rightarrow> (Waiting, [], d))"

definition activate_timeout :: "world \<Rightarrow> activation \<Rightarrow> db \<Rightarrow> db" where
  "activate_timeout W a d = activation_failed W 0 a d"

section \<open>Stopping a room\<close>

text \<open>The calls of the room are dropped one by one; the i-th writes with statement \<open>10 + i\<close>. A call
  whose owner cannot be reached keeps its row.\<close>

fun drop_all :: "world \<Rightarrow> fleet \<Rightarrow> nat \<Rightarrow> string \<Rightarrow> leg_row list \<Rightarrow> db \<Rightarrow> sidecar_post list \<times> db" where
  "drop_all W F i ws [] d = ([], d)"
| "drop_all W F i ws (l # rest) d =
     (let (e, ps, d) = dropCall W (10 + i) F i ws l d; (qs, d) = drop_all W F (Suc i) ws rest d
      in (ps @ qs, d))"

definition attend_until :: "world \<Rightarrow> nat \<Rightarrow> string \<Rightarrow> db \<Rightarrow> db" where
  "attend_until W k session d =
     sql_try W k (\<lambda>d. d\<lparr>attendance := update_where (\<lambda>a. atSession a = session \<and> atLeft a = None)
       (\<lambda>a. a\<lparr>atLeft := Some (wnow W k)\<rparr>) (attendance d)\<rparr>) d"

text \<open>\<open>stopRoom\<close>: 0 the active session, 1 the live calls, 2 the session, 3 the attendance, 4 the room.\<close>

definition live_legs :: "string \<Rightarrow> string \<Rightarrow> db \<Rightarrow> leg_row list" where
  "live_legs ws br d = filter (\<lambda>l. lgBridge l = br \<and> lgWorkspace l = ws \<and> \<not> terminal_leg (lgState l)) (legs d)"

definition active_sessions :: "string \<Rightarrow> string \<Rightarrow> db \<Rightarrow> session_row list" where
  "active_sessions ws br d =
     filter (\<lambda>s. seBridge s = br \<and> seWorkspace s = ws \<and> active_session (seStatus s)) (sessions d)"

definition stopRoom ::
  "world \<Rightarrow> fleet \<Rightarrow> string \<Rightarrow> string \<Rightarrow> db \<Rightarrow> response \<times> sidecar_post list \<times> db" where
  "stopRoom W F ws br d =
     (case query_row W 0 (rev (active_sessions ws br d)) of
        NoRows \<Rightarrow> (answer 200 [(''status'', JStr ''already_stopped''), (''room_state'', JStr ''READY'')], [], d)
      | RowErr e \<Rightarrow> (sql_failure e, [], d)
      | Row s \<Rightarrow>
          (let (ps, d1) = (case query_rows W 1 (live_legs ws br d) of
                 Inl _ \<Rightarrow> ([], d) | Inr ls \<Rightarrow> drop_all W F 0 ws ls d);
               d2 = sql_try W 2 (on_session (\<lambda>t. seID t = seID s \<and> seWorkspace t = ws)
                      (\<lambda>t. t\<lparr>seStatus := ''ENDED'', seEnded := Some (wnow W 2),
                            seDuration := Some (wseconds W (wnow W 2 - seStarted t))\<rparr>)) d1;
               d3 = attend_until W 3 (seID s) d2;
               d4 = sql_try W 4 (on_room ws br (\<lambda>b. b\<lparr>brState := ''READY''\<rparr>)) d3
           in (answer 200 [(''status'', JStr ''stopped''), (''room_state'', JStr ''READY''),
                           (''session_id'', JStr (seID s))], ps, d4)))"

section \<open>Reports from the sidecars\<close>

record event_in =
  eiCallID :: string
  eiState :: string
  eiInnerCallID :: string
  eiInnerState :: string
  eiMember :: string

definition leg_reported :: "string \<Rightarrow> string \<Rightarrow> int \<Rightarrow> leg_row \<Rightarrow> leg_row" where
  "leg_reported st member now l =
     l\<lparr>lgState := st, lgMember := (if member = '''' then lgMember l else Some member),
       lgAnswered := (if st = ''ANSWERED'' then Some now else lgAnswered l),
       lgEnded := (if terminal_leg st then Some now else lgEnded l)\<rparr>"

definition attendance_reported :: "string \<Rightarrow> int \<Rightarrow> attendance_row \<Rightarrow> attendance_row" where
  "attendance_reported st now a =
     a\<lparr>atState := st,
       atJoined := (if st = ''ANSWERED'' \<or> st = ''IN_BRIDGE'' then coalesce_time (atJoined a) now else atJoined a),
       atLeft := (if terminal_leg st then coalesce_time (atLeft a) now else atLeft a)\<rparr>"

text \<open>\<open>finishHostSession\<close>, statements from k: k find the session whose host's call it is, k+1 close
  it, k+2 the attendance, k+3 the room.\<close>

definition host_sessions :: "string \<Rightarrow> db \<Rightarrow> session_row list" where
  "host_sessions callID d =
     [s. s \<leftarrow> sessions d, active_session (seStatus s),
         a \<leftarrow> attendance d, atSession a = seID s \<and> atLeg a = Some callID,
         p \<leftarrow> participants d, atParticipant a = Some (paID p) \<and> paRole p = ''HOST'']"

definition finishHostSession :: "world \<Rightarrow> nat \<Rightarrow> string \<Rightarrow> string \<Rightarrow> db \<Rightarrow> db" where
  "finishHostSession W k callID st d =
     (if \<not> terminal_leg st then d
      else case query_row W k (host_sessions callID d) of
          Row s \<Rightarrow>
            (let terminal = (if seStatus s = ''STARTING'' then ''FAILED'' else ''ENDED'');
                 now = wnow W (k + 1);
                 d = sql_try W (k + 1) (on_session (\<lambda>t. seID t = seID s \<and> active_session (seStatus t))
                        (\<lambda>t. t\<lparr>seStatus := terminal, seEnded := coalesce_time (seEnded t) now,
                              seDuration := Some (wseconds W
                                ((case seEnded t of None \<Rightarrow> now | Some e \<Rightarrow> e) - seStarted t))\<rparr>)) d;
                 d = attend_until W (k + 2) (seID s) d
             in sql_try W (k + 3) (\<lambda>d. d\<lparr>bridges := update_where
                   (\<lambda>b. brID b = seBridge s \<and> brWorkspace b = seWorkspace s \<and> busy (brState b))
                   (\<lambda>b. b\<lparr>brState := ''READY''\<rparr>) (bridges d)\<rparr>) d)
        | _ \<Rightarrow> d)"

text \<open>\<open>events\<close> after the authorisation: 0 the call leg, 1 its batch items, 2 its attendance, then
  \<open>finishHostSession\<close> from 3.\<close>

definition report_call :: "world \<Rightarrow> string \<Rightarrow> string \<Rightarrow> string \<Rightarrow> db \<Rightarrow> db" where
  "report_call W callID st member d =
     (let d = sql_try W 0 (on_leg (\<lambda>l. lgID l = callID) (leg_reported st member (wnow W 0))) d;
          d = sql_try W 1 (\<lambda>d. case List.find (\<lambda>l. lgID l = callID) (legs d) of
                 None \<Rightarrow> d
               | Some l \<Rightarrow> d\<lparr>items := update_where (\<lambda>i. itParticipant i = Some (lgParticipant l))
                              (\<lambda>i. i\<lparr>itStatus := st\<rparr>) (items d)\<rparr>) d;
          d = sql_try W 2 (\<lambda>d. d\<lparr>attendance := update_where (\<lambda>a. atLeg a = Some callID)
                 (attendance_reported st (wnow W 2)) (attendance d)\<rparr>) d
      in finishHostSession W 3 callID st d)"

definition events :: "world \<Rightarrow> bool \<Rightarrow> event_in option \<Rightarrow> db \<Rightarrow> response \<times> db" where
  "events W allowed input d =
     (if \<not> allowed then (answer_error 403 ''internal event authorization failed'', d)
      else case input of
          None \<Rightarrow> (answer_empty 400, d)
        | Some e \<Rightarrow>
            (let callID = (if eiCallID e = '''' then eiInnerCallID e else eiCallID e);
                 st = (if eiState e = '''' then eiInnerState e else eiState e)
             in (answer 202 [(''status'', JStr ''accepted'')],
                 if callID \<noteq> '''' \<and> st \<noteq> '''' then report_call W callID st (eiMember e) d else d)))"

end
