(* ===== verification/Batches.thy ===== *)
theory Batches
  imports Sessions
begin

text \<open>
  Importing a fixed roster in bulk and the state of an import (control API, main.go: \<open>batch\<close>,
  \<open>batchState\<close>, and \<open>runBatch\<close>, which no code calls). The pacing of \<open>runBatch\<close> by a ticker and a
  semaphore is left out: its items are dialed one after the other, item \<open>i\<close> in the world
  \<open>Ws i\<close> and with the fleet \<open>Fs i\<close>.
\<close>

section \<open>Importing\<close>

record batch_in =
  biContacts :: "contact_in list"
  biConcurrency :: int
  biRate :: int

definition insert_batch :: "batch_row \<Rightarrow> db \<Rightarrow> db option" where
  "insert_batch b d =
     (if baID b \<in> baID ` set (batches d) \<or> baWorkspace b \<notin> wsID ` set (workspaces d) \<or>
         baBridge b \<notin> brID ` set (bridges d)
      then None else Some (d\<lparr>batches := batches d @ [b]\<rparr>))"

definition insert_item :: "item_row \<Rightarrow> db \<Rightarrow> db option" where
  "insert_item i d =
     (if itID i \<in> itID ` set (items d) \<or> itBatch i \<notin> baID ` set (batches d) \<or>
         itWorkspace i \<notin> wsID ` set (workspaces d) \<or> \<not> refers (itParticipant i) (paID ` set (participants d))
      then None else Some (d\<lparr>items := items d @ [i]\<rparr>))"

definition host_contact :: "contact_in \<Rightarrow> bool" where
  "host_contact c \<longleftrightarrow> normalizeParticipantRole (ciRole c) = ''HOST''"

text \<open>One contact: k writes the host to the room, k+1 inserts the participant, k+2 the batch item.\<close>

definition name_host :: "world \<Rightarrow> nat \<Rightarrow> string \<Rightarrow> string \<Rightarrow> string \<Rightarrow> string \<Rightarrow> db \<Rightarrow> string + db" where
  "name_host W k ws br name phone d =
     (if wfail W k then Inl (wtext W k)
      else if room_rows ws br d = [] then Inl (row_error (NoRows :: unit fetched_row))
      else Inr (on_room ws br (\<lambda>b. b\<lparr>brHostName := Some name, brHostPhone := Some phone\<rparr>) d))"

definition import_contact :: "world \<Rightarrow> nat \<Rightarrow> string \<Rightarrow> string \<Rightarrow> string \<Rightarrow> contact_in \<Rightarrow> db \<Rightarrow> string + db" where
  "import_contact W k ws br batchID c d =
     (let name = TrimSpace (ciName c); phone = TrimSpace (ciPhone c);
          person = (\<lambda>role st. \<lparr>paID = wid W (k + 1), paWorkspace = ws, paBridge = br, paName = name,
                      paPhone = phone, paDesired = st, paRole = role\<rparr>);
          added = (if host_contact c then
              (case name_host W k ws br name phone d of
                 Inl e \<Rightarrow> Inl e
               | Inr d1 \<Rightarrow> sql_exec W (k + 1) (insert_participant (person ''HOST'' ''ACTIVE'')) d1)
            else sql_exec W (k + 1) (insert_participant (person ''LISTENER'' ''MUTED'')) d) in
      case added of
        Inl e \<Rightarrow> Inl e
      | Inr d2 \<Rightarrow> sql_exec W (k + 2) (insert_item
          \<lparr>itID = wid W (k + 2), itWorkspace = ws, itBatch = batchID, itName = name, itPhone = phone,
           itStatus = ''ROSTERED'', itParticipant = Some (wid W (k + 1)), itError = None\<rparr>) d2)"

fun import_contacts :: "world \<Rightarrow> nat \<Rightarrow> string \<Rightarrow> string \<Rightarrow> string \<Rightarrow> contact_in list \<Rightarrow> db \<Rightarrow> string + db" where
  "import_contacts W k ws br batchID [] d = sql_commit W k d"
| "import_contacts W k ws br batchID (c # cs) d =
     (case import_contact W k ws br batchID c d of
        Inl e \<Rightarrow> Inl e
      | Inr d' \<Rightarrow> import_contacts W (k + 3) ws br batchID cs d')"

text \<open>The refusals before the transaction, in their order; \<open>b\<close> is the room.\<close>

definition batch_refusal :: "bridge_row \<Rightarrow> int \<Rightarrow> contact_in list \<Rightarrow> response option" where
  "batch_refusal b count contacts =
     (let hosts = length (filter host_contact contacts) in
      if busy (brState b) then Some (answer_error 409 ''stop the room before importing its fixed roster'')
      else if \<exists>c \<in> set contacts. blank (ciPhone c) \<or> blank (ciName c)
      then Some (answer_error 400 ''every roster row requires name and phone_number'')
      else if hosts > 1 then Some (answer_error 400 ''bulk upload may contain at most one HOST row'')
      else if hosts = 1 \<and> coalesce_text (brHostPhone b) \<noteq> ''''
      then Some (answer_error 409 ''this room already has a host; edit the host in Room settings before importing another one'')
      else if brLimit b \<le> 0 \<or> count + int (length contacts) > brLimit b
      then Some (answer 409 [(''error'', JStr ''bulk roster exceeds the room participant limit''),
             (''participant_limit'', JInt (brLimit b)), (''existing_participants'', JInt count),
             (''requested'', JInt (int (length contacts)))])
      else None)"

text \<open>\<open>batch\<close>: 0 the room and its roster, 1 begin, 2 the batch, from 3 on the contacts and the commit.\<close>

definition batch :: "world \<Rightarrow> string \<Rightarrow> string \<Rightarrow> batch_in option \<Rightarrow> db \<Rightarrow> response \<times> db" where
  "batch W ws br input d =
     (let bad = (answer_error 400 ''contacts required'', d) in
      case input of
        None \<Rightarrow> bad
      | Some i \<Rightarrow>
          if biContacts i = [] then bad
          else case query_row W 0 (room_rows ws br d) of
              Row b \<Rightarrow>
                (case batch_refusal b (roster_count ws br d) (biContacts i) of
                   Some r \<Rightarrow> (r, d)
                 | None \<Rightarrow>
                     if wfail W 1 then (sql_failure (wtext W 1), d)
                     else case sql_exec W 2 (insert_batch \<lparr>baID = wid W 2, baWorkspace = ws, baBridge = br,
                              baStatus = ''IMPORTED'', baConcurrency = maxInt (biConcurrency i) 16,
                              baRate = maxInt (biRate i) 8\<rparr>) d of
                         Inl e \<Rightarrow> (sql_failure e, d)
                       | Inr d1 \<Rightarrow>
                           (case import_contacts W 3 ws br (wid W 2) (biContacts i) d1 of
                              Inl e \<Rightarrow> (sql_failure e, d)
                            | Inr d' \<Rightarrow>
                                (answer 201 [(''batch_id'', JStr (wid W 2)), (''status'', JStr ''IMPORTED''),
                                   (''count'', JInt (int (length (biContacts i)))),
                                   (''message'', JStr ''fixed roster imported; start the room to call the host first, then listeners'')],
                                 d')))
            | _ \<Rightarrow> (answer_error 404 ''room not found'', d))"

section \<open>The state of an import\<close>

definition item_done :: "item_row \<Rightarrow> bool" where
  "item_done i \<longleftrightarrow> itStatus i \<in> {''ANSWERED'', ''IN_BRIDGE'', ''FAILED'', ''ENDED'', ''DROPPED''}"

definition set_batch :: "string \<Rightarrow> string \<Rightarrow> db \<Rightarrow> db" where
  "set_batch bid status d =
     d\<lparr>batches := update_where (\<lambda>b. baID b = bid) (\<lambda>b. b\<lparr>baStatus := status\<rparr>) (batches d)\<rparr>"

text \<open>\<open>batchState\<close>, after the check of the workspace: 0 the batch and its counts, 1 the new status.\<close>

definition batchState :: "world \<Rightarrow> string \<Rightarrow> string \<Rightarrow> db \<Rightarrow> response \<times> db" where
  "batchState W ws path d =
     (let bid = TrimPrefix path ''/api/v1/batches/'' in
      case query_row W 0 (filter (\<lambda>b. baID b = bid \<and> baWorkspace b = ws) (batches d)) of
        Row b \<Rightarrow>
          (let its = filter (\<lambda>i. itBatch i = bid) (items d); total = length its; done_count = length (filter item_done its);
               complete = (total > 0 \<and> done_count \<ge> total \<and> baStatus b \<noteq> ''COMPLETED'');
               status = (if complete then ''COMPLETED'' else baStatus b)
           in (answer 200 [(''batch_id'', JStr bid), (''status'', JStr status), (''total'', JInt (int total)),
                 (''completed'', JInt (int done_count))],
               if complete then sql_try W 1 (set_batch bid ''COMPLETED'') d else d))
      | _ \<Rightarrow> (answer_error 404 ''batch not found'', d))"

section \<open>Dialing a batch\<close>

record batch_item =
  bcID :: string
  bcName :: string
  bcPhone :: string

definition set_item :: "string \<Rightarrow> (item_row \<Rightarrow> item_row) \<Rightarrow> db \<Rightarrow> db" where
  "set_item i f d = d\<lparr>items := update_where (\<lambda>x. itID x = i) f (items d)\<rparr>"

fun run_items ::
  "(nat \<Rightarrow> world) \<Rightarrow> (nat \<Rightarrow> fleet) \<Rightarrow> nat \<Rightarrow> string \<Rightarrow> string \<Rightarrow> batch_item list \<Rightarrow> db \<Rightarrow> sidecar_post list \<times> db" where
  "run_items Ws Fs k ws br [] d = ([], d)"
| "run_items Ws Fs k ws br (i # rest) d =
     (let (r, ps, d) = dispatchDial (Ws k) (Fs k) ws br (bcName i) (bcPhone i) d;
          d = (case r of
                 Inl e \<Rightarrow> sql_try (Ws k) 10 (set_item (bcID i) (\<lambda>x. x\<lparr>itStatus := ''FAILED'', itError := Some e\<rparr>)) d
               | Inr p \<Rightarrow> sql_try (Ws k) 10 (set_item (bcID i)
                   (\<lambda>x. x\<lparr>itStatus := ''DISPATCHED'', itParticipant := Some (dpParticipant p)\<rparr>)) d);
          (qs, d) = run_items Ws Fs (Suc k) ws br rest d
      in (ps @ qs, d))"

definition runBatch ::
  "world \<Rightarrow> (nat \<Rightarrow> world) \<Rightarrow> (nat \<Rightarrow> fleet) \<Rightarrow> string \<Rightarrow> string \<Rightarrow> string \<Rightarrow> batch_item list \<Rightarrow> db \<Rightarrow>
     sidecar_post list \<times> db" where
  "runBatch W Ws Fs bid ws br its d =
     (case run_items Ws Fs 0 ws br its (sql_try W 0 (set_batch bid ''RUNNING'') d) of
        (ps, d') \<Rightarrow> (ps, sql_try W 1 (set_batch bid ''DISPATCHED'') d'))"

end
