(* ===== verification/Speakers.thy ===== *)
theory Speakers
  imports Sessions
begin

text \<open>
  The speaker queue (control API, main.go: \<open>dtmf\<close>, \<open>roomEvent\<close>, \<open>speakerRequests\<close>,
  \<open>speakerRequestAction\<close>). A caller asks to speak with 0 and takes it back with #; the operator
  grants or withdraws. A request is open while it is QUEUED, GRANTED or ACTIVE.
\<close>

section \<open>Statements\<close>

definition roomEvent :: "world \<Rightarrow> nat \<Rightarrow> string \<Rightarrow> string \<Rightarrow> string \<Rightarrow> string \<Rightarrow> (string \<times> json) list \<Rightarrow> db \<Rightarrow> db" where
  "roomEvent W k ws br pid eventType payload d =
     sql_try W k (\<lambda>d.
       if ws \<in> wsID ` set (workspaces d) \<and> br \<in> brID ` set (bridges d) \<and> pid \<in> paID ` set (participants d)
       then d\<lparr>eventlog := eventlog d @ [\<lparr>evWorkspace = ws, evBridge = br, evParticipant = Some pid,
                                       evType = eventType, evPayload = JObj payload\<rparr>]\<rparr>
       else d) d"

definition open_for :: "string \<Rightarrow> string \<Rightarrow> request_row \<Rightarrow> bool" where
  "open_for br pid r \<longleftrightarrow> rqBridge r = br \<and> rqParticipant r = pid \<and> open_request (rqStatus r)"

text \<open>\<open>INSERT ... SELECT ... WHERE NOT EXISTS\<close> an open request of the participant in the room.\<close>

definition enqueue :: "request_row \<Rightarrow> db \<Rightarrow> db option" where
  "enqueue r d =
     (if \<exists>q \<in> set (requests d). open_for (rqBridge r) (rqParticipant r) q then Some d
      else if rqID r \<notin> rqID ` set (requests d) \<and> rqWorkspace r \<in> wsID ` set (workspaces d) \<and>
              rqBridge r \<in> brID ` set (bridges d) \<and> rqParticipant r \<in> paID ` set (participants d) \<and>
              refers (rqLeg r) (lgID ` set (legs d))
      then Some (d\<lparr>requests := requests d @ [r]\<rparr>) else None)"

definition on_request :: "(request_row \<Rightarrow> bool) \<Rightarrow> (request_row \<Rightarrow> request_row) \<Rightarrow> db \<Rightarrow> db" where
  "on_request P f d = d\<lparr>requests := update_where P f (requests d)\<rparr>"

definition withdrawn :: "int \<Rightarrow> request_row \<Rightarrow> request_row" where
  "withdrawn now r = r\<lparr>rqStatus := ''WITHDRAWN'', rqWithdrawn := Some now\<rparr>"

text \<open>Marking a request active: the index \<open>speaker_requests_open_uq\<close> refuses it when another request
  of the same participant in the same room is open.\<close>

definition activate_request :: "string \<Rightarrow> string \<Rightarrow> int \<Rightarrow> db \<Rightarrow> db" where
  "activate_request ws rid now d =
     (let mine = (\<lambda>r. rqID r = rid \<and> rqWorkspace r = ws) in
      if \<exists>r \<in> set (requests d). mine r \<and>
           (\<exists>q \<in> set (requests d). \<not> mine q \<and> open_for (rqBridge r) (rqParticipant r) q)
      then d
      else on_request mine (\<lambda>r. r\<lparr>rqStatus := ''ACTIVE'', rqGranted := Some now, rqGrantedBy := Some ''admin''\<rparr>) d)"

section \<open>Digits\<close>

record dtmf_in =
  dtCallID :: string
  dtDigit :: string
  dtWorkspaceID :: string
  dtRoomID :: string
  dtParticipantID :: string

definition dtmf_legs :: "dtmf_in \<Rightarrow> db \<Rightarrow> leg_row list" where
  "dtmf_legs i d =
     rev (filter (\<lambda>l. \<not> terminal_leg (lgState l) \<and>
       (if dtParticipantID i \<noteq> '''' then lgParticipant l = dtParticipantID i
        else lgID l = dtCallID i \<or> lgPBXCall l = Some (dtCallID i) \<or> lgSIPCall l = Some (dtCallID i))) (legs d))"

definition queue_answer :: "string \<Rightarrow> leg_row \<Rightarrow> response" where
  "queue_answer st l =
     answer 202 [(''status'', JStr st), (''workspace_id'', JStr (lgWorkspace l)), (''room_id'', JStr (lgBridge l)),
                 (''participant_id'', JStr (lgParticipant l))]"

text \<open>\<open>dtmf\<close>: 0 the call leg, 1 the request, 2 the participant, 3 the room event.\<close>

definition lower_hand :: "world \<Rightarrow> leg_row \<Rightarrow> string \<Rightarrow> db \<Rightarrow> db" where
  "lower_hand W l digit d =
     (let d = sql_try W 1 (on_request
            (\<lambda>r. rqWorkspace r = lgWorkspace l \<and> open_for (lgBridge l) (lgParticipant l) r) (withdrawn (wnow W 1))) d;
          d = sql_try W 2 (\<lambda>d. d\<lparr>participants := update_where
                (\<lambda>p. paID p = lgParticipant l \<and> paWorkspace p = lgWorkspace l \<and> paDesired p = ''HAND_RAISED'')
                (\<lambda>p. p\<lparr>paDesired := ''MUTED''\<rparr>) (participants d)\<rparr>) d
      in roomEvent W 3 (lgWorkspace l) (lgBridge l) (lgParticipant l) ''SPEAKER_REQUEST_WITHDRAWN''
           [(''digit'', JStr digit)] d)"

definition raise_hand :: "world \<Rightarrow> leg_row \<Rightarrow> string \<Rightarrow> db \<Rightarrow> string + db" where
  "raise_hand W l digit d =
     (case sql_exec W 1 (enqueue
         \<lparr>rqID = wid W 1, rqWorkspace = lgWorkspace l, rqBridge = lgBridge l, rqParticipant = lgParticipant l,
          rqLeg = Some (lgID l), rqDigit = digit, rqStatus = ''QUEUED'', rqGranted = None, rqWithdrawn = None,
          rqGrantedBy = None\<rparr>) d of
        Inl e \<Rightarrow> Inl e
      | Inr d \<Rightarrow>
          (let d = sql_try W 2 (\<lambda>d. d\<lparr>participants := update_where
                 (\<lambda>p. paID p = lgParticipant l \<and> paWorkspace p = lgWorkspace l \<and>
                      paDesired p \<notin> {''DROPPED'', ''FAILED''})
                 (\<lambda>p. p\<lparr>paDesired := ''HAND_RAISED''\<rparr>) (participants d)\<rparr>) d
           in Inr (roomEvent W 3 (lgWorkspace l) (lgBridge l) (lgParticipant l) ''SPEAKER_REQUESTED''
                     [(''digit'', JStr digit)] d)))"

definition dtmf :: "world \<Rightarrow> bool \<Rightarrow> dtmf_in option \<Rightarrow> db \<Rightarrow> response \<times> db" where
  "dtmf W allowed input d =
     (if \<not> allowed then (answer_error 403 ''internal event authorization failed'', d)
      else case input of
          None \<Rightarrow> (answer_error 400 ''digit must be 0 or #'', d)
        | Some i \<Rightarrow>
            if dtDigit i \<noteq> ''0'' \<and> dtDigit i \<noteq> ''#'' then (answer_error 400 ''digit must be 0 or #'', d)
            else case query_row W 0 (dtmf_legs i d) of
                NoRows \<Rightarrow> (answer_error 404 ''active call leg not found'', d)
              | RowErr _ \<Rightarrow> (answer_error 404 ''active call leg not found'', d)
              | Row l \<Rightarrow>
                  if dtWorkspaceID i \<noteq> '''' \<and> dtWorkspaceID i \<noteq> lgWorkspace l
                  then (answer_error 403 ''workspace mismatch'', d)
                  else if dtRoomID i \<noteq> '''' \<and> dtRoomID i \<noteq> lgBridge l
                  then (answer_error 403 ''room mismatch'', d)
                  else if dtDigit i = ''#'' then (queue_answer ''WITHDRAWN'' l, lower_hand W l ''#'' d)
                  else (case raise_hand W l (dtDigit i) d of
                      Inl e \<Rightarrow> (sql_failure e, d)
                    | Inr d' \<Rightarrow> (queue_answer ''QUEUED'' l, d')))"

section \<open>The operator\<close>

definition speakerRequests :: "world \<Rightarrow> string \<Rightarrow> string \<Rightarrow> db \<Rightarrow> string + request_row list" where
  "speakerRequests W ws br d =
     query_rows W 0 (filter (\<lambda>r. rqWorkspace r = ws \<and> rqBridge r = br \<and> open_request (rqStatus r)) (requests d))"

definition maxSpeakers :: "string \<Rightarrow> int" where
  "maxSpeakers setting =
     (case Atoi (if setting = '''' then ''16'' else setting) of
        NumOk v \<Rightarrow> if v > 0 then v else 16
      | _ \<Rightarrow> 16)"

text \<open>The path of \<open>speakerRequestAction\<close>.\<close>

definition speaker_path :: "string \<Rightarrow> (string \<times> string) option" where
  "speaker_path path =
     (case split_on CHR ''/'' (Trim (TrimPrefix path ''/api/v1/speaker-requests/'') ''/'') of
        [rid, action] \<Rightarrow> if action = ''grant'' \<or> action = ''withdraw'' then Some (rid, action) else None
      | _ \<Rightarrow> None)"

text \<open>Withdrawing: 1 the request, 2 the participant, 3 the event.\<close>

definition withdraw_request :: "world \<Rightarrow> string \<Rightarrow> request_row \<Rightarrow> db \<Rightarrow> db" where
  "withdraw_request W ws q d =
     (let d = sql_try W 1 (on_request (\<lambda>r. rqID r = rqID q \<and> rqWorkspace r = ws \<and> open_request (rqStatus r))
            (withdrawn (wnow W 1))) d;
          d = sql_try W 2 (on_participant ws (rqParticipant q) (\<lambda>p. p\<lparr>paDesired := ''MUTED''\<rparr>)) d
      in roomEvent W 3 ws (rqBridge q) (rqParticipant q) ''SPEAKER_REQUEST_WITHDRAWN''
           [(''request_id'', JStr (rqID q)), (''actor'', JStr ''admin'')] d)"

text \<open>Granting: 1 count the speakers (an error leaves the count at zero), 2 look for a live call when
  the request names none, 3 the owner of the call; after the sidecar has accepted, 4 the request, 5
  the participant, 6 the call, 7 the event.\<close>

definition speaking :: "string \<Rightarrow> string \<Rightarrow> request_row \<Rightarrow> bool" where
  "speaking ws br r \<longleftrightarrow>
     rqWorkspace r = ws \<and> rqBridge r = br \<and> (rqStatus r = ''GRANTED'' \<or> rqStatus r = ''ACTIVE'')"

definition speaker_count :: "world \<Rightarrow> nat \<Rightarrow> string \<Rightarrow> string \<Rightarrow> db \<Rightarrow> int" where
  "speaker_count W k ws br d =
     (if wfail W k then 0 else int (length (filter (speaking ws br) (requests d))))"

definition granted_call :: "world \<Rightarrow> string \<Rightarrow> request_row \<Rightarrow> db \<Rightarrow> string" where
  "granted_call W ws q d =
     (let callID = coalesce_text (rqLeg q) in
      if callID \<noteq> '''' then callID
      else case query_row W 2 (rev (filter (\<lambda>l. lgParticipant l = rqParticipant q \<and> lgWorkspace l = ws \<and>
                                               \<not> terminal_leg (lgState l)) (legs d))) of
          Row l \<Rightarrow> lgID l
        | _ \<Rightarrow> '''')"

definition grant_noted :: "world \<Rightarrow> string \<Rightarrow> request_row \<Rightarrow> string \<Rightarrow> string \<Rightarrow> db \<Rightarrow> db" where
  "grant_noted W ws q callID command d =
     (let d = sql_try W 4 (activate_request ws (rqID q) (wnow W 4)) d;
          d = sql_try W 5 (on_participant ws (rqParticipant q) (\<lambda>p. p\<lparr>paDesired := ''ACTIVE''\<rparr>)) d;
          d = sql_try W 6 (on_leg (\<lambda>l. lgID l = callID \<and> lgWorkspace l = ws) (\<lambda>l. l\<lparr>lgMute := False\<rparr>)) d
      in roomEvent W 7 ws (rqBridge q) (rqParticipant q) ''SPEAKER_GRANTED''
           [(''request_id'', JStr (rqID q)), (''command_id'', JStr command)] d)"

definition grant_request ::
  "world \<Rightarrow> fleet \<Rightarrow> string \<Rightarrow> string \<Rightarrow> request_row \<Rightarrow> db \<Rightarrow> response \<times> sidecar_post list \<times> db" where
  "grant_request W F setting ws q d =
     (if speaker_count W 1 ws (rqBridge q) d \<ge> maxSpeakers setting
      then (answer_error 409 ''room active-speaker limit reached'', [], d)
      else let callID = granted_call W ws q d in
        case query_row W 3 (filter (\<lambda>l. lgID l = callID \<and> lgWorkspace l = ws) (legs d)) of
          Row l \<Rightarrow>
            (case flNodes F 0 of
               Inl e \<Rightarrow> (answer_error 503 e, [], d)
             | Inr ns \<Rightarrow>
                 (case owner_of ns (lgNode l) of
                    None \<Rightarrow> (answer_error 409 ''owning PBX is unavailable'', [], d)
                  | Some n \<Rightarrow>
                      (let post = \<lparr>spNode = n, spPath = participant_command_path (rqParticipant q) ''unmute'',
                           spBody = command_body (flCommand F 0) callID (rqParticipant q) (lgEpoch l)\<rparr> in
                       case flPost F 0 of
                         Some e \<Rightarrow> (answer_error 502 e, [post], d)
                       | None \<Rightarrow>
                           (answer 200 [(''status'', JStr ''ACTIVE''), (''request_id'', JStr (rqID q)),
                              (''participant_id'', JStr (rqParticipant q)), (''node_id'', JStr (lgNode l))],
                            [post], grant_noted W ws q callID (flCommand F 0) d))))
        | _ \<Rightarrow> (answer_error 409 ''participant call owner unavailable'', [], d))"

text \<open>\<open>speakerRequestAction\<close> for an authorised caller; 0 reads the request.\<close>

definition speakerRequestAction ::
  "world \<Rightarrow> fleet \<Rightarrow> string \<Rightarrow> string \<Rightarrow> string \<Rightarrow> db \<Rightarrow> response \<times> sidecar_post list \<times> db" where
  "speakerRequestAction W F setting ws path d =
     (case speaker_path path of
        None \<Rightarrow> (answer_empty 404, [], d)
      | Some (rid, action) \<Rightarrow>
          (case query_row W 0 (filter (\<lambda>r. rqID r = rid \<and> rqWorkspace r = ws) (requests d)) of
             Row q \<Rightarrow>
               if action = ''withdraw'' then
                 (answer 200 [(''status'', JStr ''WITHDRAWN''), (''request_id'', JStr rid)], [],
                  withdraw_request W ws q d)
               else grant_request W F setting ws q d
           | _ \<Rightarrow> (answer_error 404 ''speaker request not found'', [], d)))"

end
