(* ===== verification/Live.thy ===== *)
theory Live
  imports Speakers
begin

text \<open>
  Actions of an operator on a participant (control API, main.go: \<open>action\<close>, \<open>volume\<close>). The check of
  the caller's role is the argument \<open>require\<close>: for a list of allowed roles it delivers the refusal or
  lets the caller through.
\<close>

section \<open>The live call of a participant\<close>

definition participant_live_legs :: "string \<Rightarrow> string \<Rightarrow> db \<Rightarrow> leg_row list" where
  "participant_live_legs ws pid d =
     filter (\<lambda>l. lgParticipant l = pid \<and> lgWorkspace l = ws \<and> \<not> terminal_leg (lgState l)) (legs d)"

text \<open>Removing a participant from the roster: 0 count the live calls, 1 delete.\<close>

definition remove_participant :: "world \<Rightarrow> string \<Rightarrow> string \<Rightarrow> db \<Rightarrow> response \<times> db" where
  "remove_participant W ws pid d =
     (if wfail W 0 then (sql_failure (wtext W 0), d)
      else if participant_live_legs ws pid d \<noteq> []
      then (answer_error 409 ''drop the active call before removing the roster participant'', d)
      else (let mine = (\<lambda>p. paID p = pid \<and> paWorkspace p = ws \<and> paRole p \<noteq> ''HOST'') in
        case sql_exec W 1 (\<lambda>d. Some (delete_participants mine d)) d of
          Inl e \<Rightarrow> (answer_error 409 e, d)
        | Inr d' \<Rightarrow>
            if length (filter mine (participants d)) = 0
            then (answer_error 404 ''roster participant not found'', d')
            else (answer 200 [(''status'', JStr ''removed''), (''participant_id'', JStr pid)], d')))"

text \<open>What the database notes of an accepted action: 1 the call, 2 the participant.\<close>

definition action_noted :: "world \<Rightarrow> string \<Rightarrow> string \<Rightarrow> string \<Rightarrow> string \<Rightarrow> db \<Rightarrow> db" where
  "action_noted W ws action callID pid d =
     (let leg = (\<lambda>f. on_leg (\<lambda>l. lgID l = callID \<and> lgWorkspace l = ws) f);
          desired = (\<lambda>st. on_participant ws pid (\<lambda>p. p\<lparr>paDesired := st\<rparr>))
      in if action = ''mute'' then
           sql_try W 2 (desired ''MUTED'') (sql_try W 1 (leg (\<lambda>l. l\<lparr>lgMute := True\<rparr>)) d)
         else if action = ''unmute'' then
           sql_try W 2 (desired ''ACTIVE'') (sql_try W 1 (leg (\<lambda>l. l\<lparr>lgMute := False\<rparr>)) d)
         else
           sql_try W 2 (desired ''DROPPED'')
             (sql_try W 1 (leg (\<lambda>l. l\<lparr>lgState := ''DROPPED'', lgEnded := Some (wnow W 1)\<rparr>)) d))"

text \<open>Mute, unmute and drop: 0 the live call. The error of \<open>nodes\<close> is dropped.\<close>

definition live_action ::
  "world \<Rightarrow> fleet \<Rightarrow> string \<Rightarrow> string \<Rightarrow> string \<Rightarrow> db \<Rightarrow> response \<times> sidecar_post list \<times> db" where
  "live_action W F ws pid action d =
     (case query_row W 0 (rev (participant_live_legs ws pid d)) of
        Row l \<Rightarrow>
          (case owner_of (case flNodes F 0 of Inl _ \<Rightarrow> [] | Inr ns \<Rightarrow> ns) (lgNode l) of
             None \<Rightarrow> (answer_error 409 ''owning PBX is unavailable'', [], d)
           | Some n \<Rightarrow>
               (let post = \<lparr>spNode = n, spPath = participant_command_path pid action,
                    spBody = command_body (flCommand F 0) (lgID l) pid (lgEpoch l)\<rparr> in
                case flPost F 0 of
                  Some e \<Rightarrow> (answer_error 502 e, [post], d)
                | None \<Rightarrow>
                    (answer 200 [(''workspace_id'', JStr ws), (''call_id'', JStr (lgID l)),
                       (''participant_id'', JStr pid), (''action'', JStr action), (''node_id'', JStr (lgNode l))],
                     [post], action_noted W ws action (lgID l) pid d)))
      | _ \<Rightarrow> (answer_error 404 ''active call leg not found'', [], d))"

text \<open>\<open>volume\<close>: 0 the live call; \<open>reading\<close> is the sidecar's answer.\<close>

definition volume ::
  "world \<Rightarrow> fleet \<Rightarrow> string + (rat \<times> string) \<Rightarrow> string \<Rightarrow> string \<Rightarrow> db \<Rightarrow> response" where
  "volume W F reading ws pid d =
     (case query_row W 0 (rev (participant_live_legs ws pid d)) of
        Row l \<Rightarrow>
          (case flNodes F 0 of
             Inl e \<Rightarrow> answer_error 503 e
           | Inr ns \<Rightarrow>
               (case owner_of ns (lgNode l) of
                  None \<Rightarrow> answer_error 409 ''owning PBX is unavailable''
                | Some n \<Rightarrow>
                    (case reading of
                       Inl e \<Rightarrow> answer_error 502 e
                     | Inr (db, st) \<Rightarrow>
                         answer 200 [(''participant_id'', JStr pid), (''call_id'', JStr (lgID l)),
                                     (''volume_db'', JNum db), (''state'', JStr st)])))
      | _ \<Rightarrow> answer_error 404 ''active call leg not found'')"

text \<open>\<open>action\<close>: the path below \<open>/api/v1/participants/\<close> and the method choose the operation. Only
  editing and removing ask for a role.\<close>

definition action_parts :: "string \<Rightarrow> string list" where
  "action_parts path = split_on CHR ''/'' (Trim (TrimPrefix path ''/api/v1/participants/'') ''/'')"

definition action ::
  "world \<Rightarrow> fleet \<Rightarrow> string + (rat \<times> string) \<Rightarrow> (string list \<Rightarrow> response option) \<Rightarrow> string \<Rightarrow> string \<Rightarrow> string \<Rightarrow>
     contact_in option \<Rightarrow> db \<Rightarrow> response \<times> sidecar_post list \<times> db" where
  "action W F reading require ws meth path input d =
     (case action_parts path of
        [pid] \<Rightarrow>
          if meth = ''PUT'' then
            (case require [''OWNER'', ''ADMIN''] of
               Some r \<Rightarrow> (r, [], d)
             | None \<Rightarrow> (case editRosterParticipant W ws pid input d of (r, d') \<Rightarrow> (r, [], d')))
          else (answer_empty 404, [], d)
      | [pid, act] \<Rightarrow>
          if act = ''volume'' \<and> meth = ''GET'' then (volume W F reading ws pid d, [], d)
          else if act = ''add'' then addParticipant W F ws pid d
          else if act = ''remove'' then
            (case require [''OWNER'', ''ADMIN''] of
               Some r \<Rightarrow> (r, [], d)
             | None \<Rightarrow> (case remove_participant W ws pid d of (r, d') \<Rightarrow> (r, [], d')))
          else if act \<noteq> ''mute'' \<and> act \<noteq> ''unmute'' \<and> act \<noteq> ''drop'' then (answer_empty 404, [], d)
          else live_action W F ws pid act d
      | _ \<Rightarrow> (answer_empty 404, [], d))"

end
