(* ===== verification/RoomList.thy ===== *)
theory RoomList
  imports AdminUsers Batches Live
begin

text \<open>
  Listing, showing, creating and deleting rooms (control API, main.go: \<open>bridges\<close>, \<open>bridge\<close>,
  \<open>deleteBridge\<close>, \<open>bridgeState\<close>, \<open>sessionRows\<close>, \<open>listSessions\<close>). \<open>stamp\<close> is Go's rendering of a
  time, \<open>created\<close> the column \<open>created_at\<close> of a row.
\<close>

section \<open>All rooms\<close>

definition list_rooms :: "world \<Rightarrow> (string \<Rightarrow> json) \<Rightarrow> string \<Rightarrow> db \<Rightarrow> response" where
  "list_rooms W created ws d =
     answer_rows (query_rows W 1 (filter (\<lambda>b. brWorkspace b = ws) (rev (bridges d))))
       (\<lambda>b. [(''id'', JStr (brID b)), (''name'', JStr (brName b)), (''status'', JStr ''ACTIVE''),
             (''room_state'', JStr (brState b)), (''host_name'', JStr (coalesce_text (brHostName b))),
             (''host_phone'', JStr (coalesce_text (brHostPhone b))),
             (''default_region'', JStr (normalizeDialRegion (brRegion b))),
             (''participant_limit'', JInt (brLimit b)), (''tfn_id'', JStr (tfn_id (any_tfn b d))),
             (''tfn_number'', JStr (tfn_number (any_tfn b d))), (''tfn_label'', JStr (tfn_label (any_tfn b d))),
             (''created_at'', created (brID b))])"

text \<open>\<open>INSERT ... SELECT max_participants FROM workspaces\<close>, statement 2: no row when the workspace is
  gone.\<close>

definition create_room :: "world \<Rightarrow> (string \<Rightarrow> string) \<Rightarrow> string \<Rightarrow> string option \<Rightarrow> db \<Rightarrow> response \<times> db" where
  "create_room W lo ws input d =
     (case input of
        None \<Rightarrow> (answer_error 400 ''name required'', d)
      | Some name \<Rightarrow>
          if blank name then (answer_error 400 ''name required'', d)
          else if wfail W 2 then (sql_failure (wtext W 2), d)
          else (case filter (\<lambda>w. wsID w = ws) (workspaces d) of
              [] \<Rightarrow> (sql_failure (row_error (NoRows :: unit fetched_row)), d)
            | w # _ \<Rightarrow>
                (case insert_bridge lo (new_room (wid W 2) ws name (wsMax w)) d of
                   None \<Rightarrow> (sql_failure (wtext W 2), d)
                 | Some d' \<Rightarrow> (answer 201 [(''id'', JStr (wid W 2)), (''name'', JStr name)], d'))))"

text \<open>\<open>bridges\<close>: the caller's workspace is \<open>ws\<close>; \<open>role\<close> refuses or lets a role through.\<close>

definition bridges_handler ::
  "world \<Rightarrow> (string \<Rightarrow> string) \<Rightarrow> (string \<Rightarrow> json) \<Rightarrow> (string list \<Rightarrow> response option) \<Rightarrow> string \<Rightarrow> string \<Rightarrow>
     string option \<Rightarrow> db \<Rightarrow> response \<times> db" where
  "bridges_handler W lo created role ws meth input d =
     (if meth = ''GET'' then (list_rooms W created ws d, d)
      else if meth = ''POST'' then
        (case role [''OWNER'', ''ADMIN''] of Some r \<Rightarrow> (r, d) | None \<Rightarrow> create_room W lo ws input d)
      else (answer_empty 405, d))"

section \<open>Deleting a room\<close>

text \<open>\<open>DELETE FROM bridges\<close> and what goes with it: its participants, calls, sessions with their
  attendance, requests, imports with their items, and events; references from elsewhere become null.\<close>

definition delete_room :: "string \<Rightarrow> db \<Rightarrow> db" where
  "delete_room br d =
     (let d = delete_participants (\<lambda>p. paBridge p = br) d;
          gone_leg = (\<lambda>i. \<exists>l \<in> set (legs d). lgID l = i \<and> lgBridge l = br);
          gone_session = (\<lambda>i. \<exists>s \<in> set (sessions d). seID s = i \<and> seBridge s = br);
          gone_batch = (\<lambda>i. \<exists>b \<in> set (batches d). baID b = i \<and> baBridge b = br)
      in d\<lparr>bridges := filter (\<lambda>b. brID b \<noteq> br) (bridges d),
           legs := filter (\<lambda>l. lgBridge l \<noteq> br) (legs d),
           sessions := filter (\<lambda>s. seBridge s \<noteq> br) (sessions d),
           attendance := map (\<lambda>a. a\<lparr>atLeg := forget gone_leg (atLeg a)\<rparr>)
                           (filter (\<lambda>a. \<not> gone_session (atSession a)) (attendance d)),
           requests := map (\<lambda>r. r\<lparr>rqLeg := forget gone_leg (rqLeg r)\<rparr>)
                         (filter (\<lambda>r. rqBridge r \<noteq> br) (requests d)),
           batches := filter (\<lambda>b. baBridge b \<noteq> br) (batches d),
           items := filter (\<lambda>i. \<not> gone_batch (itBatch i)) (items d),
           eventlog := filter (\<lambda>e. evBridge e \<noteq> br) (eventlog d)\<rparr>)"

text \<open>The items of participants of a room.\<close>

definition room_item :: "string \<Rightarrow> db \<Rightarrow> item_row \<Rightarrow> bool" where
  "room_item br d i \<longleftrightarrow> (\<exists>p \<in> set (participants d). paBridge p = br \<and> itParticipant i = Some (paID p))"

definition room_live_legs :: "string \<Rightarrow> db \<Rightarrow> leg_row list" where
  "room_live_legs br d = filter (\<lambda>l. lgBridge l = br \<and> \<not> terminal_leg (lgState l)) (legs d)"

text \<open>\<open>deleteBridge\<close>: 0 begin, 1 read and lock the room, 2 count its live calls, 3 its rows in
  \<open>node_commands\<close>, a table into which no code inserts, 4 the items of its participants, 5 the room,
  6 commit.\<close>

definition deleteBridge :: "world \<Rightarrow> string \<Rightarrow> string \<Rightarrow> db \<Rightarrow> response \<times> db" where
  "deleteBridge W ws br d =
     (if wfail W 0 then (sql_failure (wtext W 0), d)
      else case query_row W 1 (room_rows ws br d) of
          NoRows \<Rightarrow> (answer_error 404 ''room not found'', d)
        | RowErr e \<Rightarrow> (sql_failure e, d)
        | Row b \<Rightarrow>
            if wfail W 2 then (sql_failure (wtext W 2), d)
            else if room_live_legs br d \<noteq> []
            then (answer_error 409 ''room has active participants; remove them before deleting the room'', d)
            else if wfail W 3 then (sql_failure (wtext W 3), d)
            else case sql_exec W 4 (\<lambda>d. Some (d\<lparr>items := filter (\<lambda>i. \<not> room_item br d i) (items d)\<rparr>)) d of
                Inl e \<Rightarrow> (sql_failure e, d)
              | Inr d1 \<Rightarrow>
                  (case sql_exec W 5 (\<lambda>d. Some (delete_room br d)) d1 of
                     Inl e \<Rightarrow> (sql_failure e, d)
                   | Inr d2 \<Rightarrow>
                       (case sql_commit W 6 d2 of
                          Inl e \<Rightarrow> (sql_failure e, d)
                        | Inr d3 \<Rightarrow> (answer 200 [(''status'', JStr ''deleted''), (''bridge_id'', JStr br)], d3))))"

section \<open>The history of a room\<close>

definition stamp_option :: "(int \<Rightarrow> json) \<Rightarrow> int option \<Rightarrow> json" where
  "stamp_option stamp t = (case t of None \<Rightarrow> JNull | Some t \<Rightarrow> stamp t)"

definition text_option :: "string option \<Rightarrow> json" where
  "text_option s = (case s of None \<Rightarrow> JNull | Some s \<Rightarrow> JStr s)"

definition attendance_json :: "(int \<Rightarrow> json) \<Rightarrow> attendance_row \<Rightarrow> json" where
  "attendance_json stamp a =
     JObj [(''participant_id'', text_option (atParticipant a)), (''name'', JStr (atName a)),
           (''phone_number'', JStr (atPhone a)), (''role'', JStr (atRole a)), (''state'', JStr (atState a)),
           (''joined_at'', stamp_option stamp (atJoined a)), (''left_at'', stamp_option stamp (atLeft a))]"

definition session_seconds :: "world \<Rightarrow> nat \<Rightarrow> session_row \<Rightarrow> int" where
  "session_seconds W k s =
     (case seDuration s of
        Some n \<Rightarrow> n
      | None \<Rightarrow> wseconds W ((case seEnded s of None \<Rightarrow> wnow W k | Some t \<Rightarrow> t) - seStarted s))"

definition session_json :: "world \<Rightarrow> nat \<Rightarrow> (int \<Rightarrow> json) \<Rightarrow> db \<Rightarrow> session_row \<Rightarrow> json" where
  "session_json W k stamp d s =
     JObj ([(''session_id'', JStr (seID s)), (''status'', JStr (seStatus s)),
            (''duration_seconds'', JInt (session_seconds W k s)),
            (''participants'', JArr (map (attendance_json stamp)
               (filter (\<lambda>a. atSession a = seID s) (attendance d)))),
            (''started_at'', stamp (seStarted s))] @
           (case seEnded s of None \<Rightarrow> [] | Some t \<Rightarrow> [(''ended_at'', stamp t)]))"

text \<open>The last 25 sessions, newest first; an error gives an empty list.\<close>

definition sessionRows :: "world \<Rightarrow> nat \<Rightarrow> (int \<Rightarrow> json) \<Rightarrow> string \<Rightarrow> string \<Rightarrow> db \<Rightarrow> json list" where
  "sessionRows W k stamp ws br d =
     (if wfail W k then []
      else map (session_json W k stamp d)
             (take 25 (rev (sort_key seStarted (filter (\<lambda>s. seWorkspace s = ws \<and> seBridge s = br) (sessions d))))))"

definition listSessions :: "world \<Rightarrow> (int \<Rightarrow> json) \<Rightarrow> string \<Rightarrow> string \<Rightarrow> db \<Rightarrow> response" where
  "listSessions W stamp ws br d =
     answer 200 [(''workspace_id'', JStr ws), (''bridge_id'', JStr br), (''sessions'', JArr (sessionRows W 0 stamp ws br d))]"

section \<open>The state of a room\<close>

text \<open>A participant's newest call.\<close>

definition latest_leg :: "string \<Rightarrow> participant_row \<Rightarrow> db \<Rightarrow> leg_row option" where
  "latest_leg ws p d = List.find (\<lambda>l. lgParticipant l = paID p \<and> lgWorkspace l = ws) (rev (legs d))"

definition state_rows :: "string \<Rightarrow> string \<Rightarrow> db \<Rightarrow> participant_row list" where
  "state_rows ws br d =
     sort_key (\<lambda>p. if paRole p = ''HOST'' then 0 else 1 :: nat)
       (filter (\<lambda>p. paBridge p = br \<and> paWorkspace p = ws) (participants d))"

text \<open>The epochs of the nodes that answer now; when two have one id, the later one counts.\<close>

definition current_epochs :: "node list \<Rightarrow> string \<rightharpoonup> int" where
  "current_epochs ns = map_of (rev (map (\<lambda>n. (NodeID n, NodeEpoch n)) ns))"

definition stale_leg :: "(string \<rightharpoonup> int) \<Rightarrow> leg_row \<Rightarrow> bool" where
  "stale_leg epochs l \<longleftrightarrow>
     lgID l \<noteq> '''' \<and> lgState l \<noteq> '''' \<and> \<not> terminal_leg (lgState l) \<and> lgEpoch l \<noteq> 0 \<and>
     (case epochs (lgNode l) of None \<Rightarrow> False | Some e \<Rightarrow> e \<noteq> lgEpoch l)"

definition end_stale :: "world \<Rightarrow> nat \<Rightarrow> string \<Rightarrow> leg_row \<Rightarrow> db \<Rightarrow> db" where
  "end_stale W k ws l d =
     sql_try W k (on_leg (\<lambda>x. lgID x = lgID l \<and> lgWorkspace x = ws \<and> \<not> terminal_leg (lgState x))
       (\<lambda>x. x\<lparr>lgState := ''ENDED'', lgEnded := coalesce_time (lgEnded x) (wnow W k),
              lgError := Some ''sidecar epoch changed; call no longer active''\<rparr>)) d"

definition participant_json :: "participant_row \<Rightarrow> leg_row option \<Rightarrow> json" where
  "participant_json p l =
     JObj [(''participant_id'', JStr (paID p)), (''name'', JStr (paName p)), (''phone_number'', JStr (paPhone p)),
           (''role'', JStr (normalizeParticipantRole (paRole p))), (''desired_state'', JStr (paDesired p)),
           (''call_id'', JStr (coalesce_text (map_option lgID l))), (''state'', JStr (coalesce_text (map_option lgState l))),
           (''node_id'', JStr (coalesce_text (map_option lgNode l)))]"

text \<open>The loop over the rows of one query: a stale call is not shown, and ended.\<close>

fun state_loop ::
  "world \<Rightarrow> nat \<Rightarrow> string \<Rightarrow> (string \<rightharpoonup> int) \<Rightarrow> (participant_row \<times> leg_row option) list \<Rightarrow> db \<Rightarrow> json list \<times> db" where
  "state_loop W k ws epochs [] d = ([], d)"
| "state_loop W k ws epochs ((p, l) # rows) d =
     (let stale = (case l of None \<Rightarrow> False | Some l \<Rightarrow> stale_leg epochs l);
          shown = participant_json p (if stale then None else l);
          d = (if stale then end_stale W k ws (the l) d else d);
          (js, d) = state_loop W (Suc k) ws epochs rows d
      in (shown # js, d))"

definition request_json :: "(string \<Rightarrow> json) \<Rightarrow> request_row \<Rightarrow> json" where
  "request_json created q =
     JObj [(''id'', JStr (rqID q)), (''participant_id'', JStr (rqParticipant q)), (''status'', JStr (rqStatus q)),
           (''digit'', JStr (rqDigit q)), (''requested_at'', created (rqID q)),
           (''granted_by'', JStr (coalesce_text (rqGrantedBy q)))]"

text \<open>\<open>bridgeState\<close>: 0 the room, 1 its participants, 2 its requests, 3 its prerequisites, 4 its sessions,
  5 and on the stale calls. The fleet's error is dropped.\<close>

definition bridgeState ::
  "world \<Rightarrow> fleet \<Rightarrow> (int \<Rightarrow> json) \<Rightarrow> (string \<Rightarrow> json) \<Rightarrow> string \<Rightarrow> string \<Rightarrow> db \<Rightarrow> response \<times> db" where
  "bridgeState W F stamp created ws br d =
     (case query_row W 0 (room_rows ws br d) of
        NoRows \<Rightarrow> (answer_error 404 ''room not found'', d)
      | RowErr e \<Rightarrow> (sql_failure e, d)
      | Row b \<Rightarrow>
          (let epochs = (case flNodes F 0 of Inl _ \<Rightarrow> Map.empty | Inr ns \<Rightarrow> current_epochs ns) in
           case query_rows W 1 (map (\<lambda>p. (p, latest_leg ws p d)) (state_rows ws br d)) of
             Inl e \<Rightarrow> (sql_failure e, d)
           | Inr rows \<Rightarrow>
               (let (out, d') = state_loop W 5 ws epochs rows d in
                case query_rows W 2 (filter (\<lambda>r. rqWorkspace r = ws \<and> rqBridge r = br \<and> open_request (rqStatus r))
                    (requests d')) of
                  Inl e \<Rightarrow> (sql_failure e, d')
                | Inr qs \<Rightarrow>
                    (let (checks, ready) = roomStartChecks W 3 ws br d'; tfn = any_tfn b d in
                     (answer 200
                        [(''workspace_id'', JStr ws), (''bridge_id'', JStr br), (''room_state'', JStr (brState b)),
                         (''default_region'', JStr (normalizeDialRegion (brRegion b))),
                         (''participant_limit'', JInt (brLimit b)),
                         (''tfn'', JObj [(''id'', JStr (tfn_id tfn)), (''number'', JStr (tfn_number tfn)),
                                         (''label'', JStr (tfn_label tfn))]),
                         (''start_ready'', JBool ready), (''start_checks'', JArr checks),
                         (''host'', JObj [(''name'', JStr (coalesce_text (brHostName b))),
                                          (''phone_number'', JStr (coalesce_text (brHostPhone b)))]),
                         (''participants'', JArr out), (''speaker_requests'', JArr (map (request_json created) qs)),
                         (''sessions'', JArr (sessionRows W 4 stamp ws br d'))], d')))))"

section \<open>The router of one room\<close>

datatype room_op =
    ShowRoom
  | DeleteRoom
  | DialRoom
  | HostRoom
  | SettingsRoom
  | AddToRoom
  | StartRoom
  | StopRoom
  | SessionsRoom
  | BatchRoom
  | RequestsRoom

definition room_path_parts :: "string \<Rightarrow> string list" where
  "room_path_parts path = split_on CHR ''/'' (Trim (TrimPrefix path ''/api/v1/bridges/'') ''/'')"

text \<open>The roles a request to one room must have; \<open>None\<close> asks for none.\<close>

definition configuration_change :: "string \<Rightarrow> string list \<Rightarrow> bool" where
  "configuration_change meth parts \<longleftrightarrow>
     meth = ''DELETE'' \<or>
     (length parts = 2 \<and> parts ! 1 \<in> {''host'', ''settings'', ''participants'', ''batches''})"

definition room_roles :: "string \<Rightarrow> string list \<Rightarrow> string list option" where
  "room_roles meth parts =
     (if configuration_change meth parts then Some [''OWNER'', ''ADMIN'']
      else if meth \<noteq> ''GET'' then Some [''OWNER'', ''ADMIN'', ''OPERATOR'']
      else None)"

definition room_op :: "string \<Rightarrow> string list \<Rightarrow> room_op option" where
  "room_op meth parts =
     (let get = (meth = ''GET''); post = (meth = ''POST''); put = (meth = ''PUT''); del = (meth = ''DELETE'') in
      case parts of
        [i] \<Rightarrow> if get then Some ShowRoom else if del then Some DeleteRoom else None
      | [i, a] \<Rightarrow>
          if a = ''dial'' \<and> post then Some DialRoom
          else if a = ''host'' \<and> (put \<or> del) then Some HostRoom
          else if a = ''settings'' \<and> put then Some SettingsRoom
          else if a = ''participants'' \<and> post then Some AddToRoom
          else if a = ''start'' \<and> post then Some StartRoom
          else if a = ''stop'' \<and> post then Some StopRoom
          else if a = ''sessions'' \<and> get then Some SessionsRoom
          else if a = ''batches'' \<and> post then Some BatchRoom
          else if a = ''speaker-requests'' \<and> get then Some RequestsRoom
          else None
      | _ \<Rightarrow> None)"

text \<open>\<open>bridge\<close> up to the call of the operation: a refusal, or the room and the operation. \<open>role\<close>
  refuses or lets roles through.\<close>

definition bridge_route ::
  "(string list \<Rightarrow> response option) \<Rightarrow> string \<Rightarrow> string \<Rightarrow> response + (string \<times> room_op)" where
  "bridge_route role meth path =
     (let parts = room_path_parts path in
      if parts = [] \<or> hd parts = '''' then Inl (answer_empty 404)
      else case (case room_roles meth parts of None \<Rightarrow> None | Some rs \<Rightarrow> role rs) of
          Some r \<Rightarrow> Inl r
        | None \<Rightarrow> (case room_op meth parts of None \<Rightarrow> Inl (answer_empty 404) | Some op \<Rightarrow> Inr (hd parts, op)))"

end
