(* ===== verification/Statements.thy ===== *)
theory Statements
  imports Live
begin

text \<open>
  The statements by which the handlers change the tables, as a step relation: \<open>stmt A d d'\<close> says
  that one statement acting on rows of the workspaces in \<open>A\<close> turns \<open>d\<close> into \<open>d'\<close>. Every handler is a
  sequence of such steps (theory RoomFacts), so what holds along every sequence of steps holds after
  every handler, and between the statements of handlers that run at the same time as well. The
  theory shows what holds: one host per room, one active session per room, one open request per
  participant, references inside one workspace, and the rows of other workspaces untouched.
\<close>

section \<open>One statement\<close>

definition bridge_kept :: "(bridge_row \<Rightarrow> bridge_row) \<Rightarrow> bool" where
  "bridge_kept f \<longleftrightarrow> (\<forall>b. brID (f b) = brID b \<and> brWorkspace (f b) = brWorkspace b \<and>
     brLimit (f b) = brLimit b \<and> brTfn (f b) = brTfn b \<and> brName (f b) = brName b)"

definition participant_kept :: "(participant_row \<Rightarrow> participant_row) \<Rightarrow> bool" where
  "participant_kept f \<longleftrightarrow> (\<forall>p. paID (f p) = paID p \<and> paWorkspace (f p) = paWorkspace p \<and>
     paBridge (f p) = paBridge p \<and> paRole (f p) = paRole p)"

definition leg_kept :: "(leg_row \<Rightarrow> leg_row) \<Rightarrow> bool" where
  "leg_kept f \<longleftrightarrow> (\<forall>l. lgID (f l) = lgID l \<and> lgWorkspace (f l) = lgWorkspace l \<and>
     lgParticipant (f l) = lgParticipant l \<and> lgBridge (f l) = lgBridge l \<and> lgNode (f l) = lgNode l \<and>
     lgEpoch (f l) = lgEpoch l)"

definition session_kept :: "(session_row \<Rightarrow> session_row) \<Rightarrow> bool" where
  "session_kept f \<longleftrightarrow> (\<forall>s. seID (f s) = seID s \<and> seWorkspace (f s) = seWorkspace s \<and>
     seBridge (f s) = seBridge s \<and> seHost (f s) = seHost s)"

definition request_kept :: "(request_row \<Rightarrow> request_row) \<Rightarrow> bool" where
  "request_kept f \<longleftrightarrow> (\<forall>r. rqID (f r) = rqID r \<and> rqWorkspace (f r) = rqWorkspace r \<and>
     rqBridge (f r) = rqBridge r \<and> rqParticipant (f r) = rqParticipant r \<and> rqLeg (f r) = rqLeg r)"

lemmas kept_defs = bridge_kept_def participant_kept_def leg_kept_def session_kept_def request_kept_def

text \<open>The pairs of id and workspace by which rows are referred to.\<close>

definition pkeys :: "db \<Rightarrow> (string \<times> string) set" where
  "pkeys d = (\<lambda>p. (paID p, paWorkspace p)) ` set (participants d)"

definition lkeys :: "db \<Rightarrow> (string \<times> string) set" where
  "lkeys d = (\<lambda>l. (lgID l, lgWorkspace l)) ` set (legs d)"

definition bkeys :: "db \<Rightarrow> (string \<times> string) set" where
  "bkeys d = (\<lambda>b. (brID b, brWorkspace b)) ` set (bridges d)"

inductive stmt :: "string set \<Rightarrow> db \<Rightarrow> db \<Rightarrow> bool" for A where
  room: "bridge_kept f \<Longrightarrow> (\<And>b. P b \<Longrightarrow> brWorkspace b \<in> A) \<Longrightarrow>
     stmt A d (d\<lparr>bridges := update_where P f (bridges d)\<rparr>)"
| participant: "participant_kept f \<Longrightarrow> (\<And>p. P p \<Longrightarrow> paWorkspace p \<in> A) \<Longrightarrow>
     stmt A d (d\<lparr>participants := update_where P f (participants d)\<rparr>)"
| add_participant: "insert_participant p d = Some d' \<Longrightarrow> paWorkspace p \<in> A \<Longrightarrow>
     (paBridge p, paWorkspace p) \<in> bkeys d \<Longrightarrow> stmt A d d'"
| delete: "(\<And>p. P p \<Longrightarrow> paWorkspace p \<in> A) \<Longrightarrow> stmt A d (delete_participants P d)"
| add_leg: "insert_leg l d = Some d' \<Longrightarrow> lgWorkspace l \<in> A \<Longrightarrow> (lgParticipant l, lgWorkspace l) \<in> pkeys d \<Longrightarrow>
     (lgBridge l, lgWorkspace l) \<in> bkeys d \<Longrightarrow> stmt A d d'"
| leg: "leg_kept f \<Longrightarrow> (\<And>l. l \<in> set (legs d) \<Longrightarrow> P l \<Longrightarrow> lgWorkspace l \<in> A) \<Longrightarrow> stmt A d (on_leg P f d)"
| add_session: "insert_session s d = Some d' \<Longrightarrow> seWorkspace s \<in> A \<Longrightarrow>
     (\<And>h. seHost s = Some h \<Longrightarrow> (h, seWorkspace s) \<in> pkeys d) \<Longrightarrow>
     (seBridge s, seWorkspace s) \<in> bkeys d \<Longrightarrow> stmt A d d'"
| session: "session_kept f \<Longrightarrow> (\<And>s. s \<in> set (sessions d) \<Longrightarrow> P s \<Longrightarrow> seWorkspace s \<in> A) \<Longrightarrow>
     (\<And>s. P s \<Longrightarrow> active_session (seStatus (f s)) \<Longrightarrow> active_session (seStatus s)) \<Longrightarrow>
     stmt A d (on_session P f d)"
| attend: "stmt A d (d\<lparr>attendance := as\<rparr>)"
| add_request: "enqueue r d = Some d' \<Longrightarrow> rqWorkspace r \<in> A \<Longrightarrow> (rqParticipant r, rqWorkspace r) \<in> pkeys d \<Longrightarrow>
     (\<And>l. rqLeg r = Some l \<Longrightarrow> (l, rqWorkspace r) \<in> lkeys d) \<Longrightarrow>
     (\<exists>l \<in> set (legs d). lgBridge l = rqBridge r \<and> lgWorkspace l = rqWorkspace r) \<Longrightarrow> stmt A d d'"
| request: "request_kept f \<Longrightarrow> (\<And>r. P r \<Longrightarrow> rqWorkspace r \<in> A) \<Longrightarrow>
     (\<And>r. P r \<Longrightarrow> open_request (rqStatus (f r)) \<Longrightarrow> open_request (rqStatus r)) \<Longrightarrow> stmt A d (on_request P f d)"
| activate: "ws \<in> A \<Longrightarrow> stmt A d (activate_request ws rid now d)"
| item: "stmt A d (d\<lparr>items := is\<rparr>)"
| log: "stmt A d (d\<lparr>eventlog := es\<rparr>)"

definition changes :: "string set \<Rightarrow> db \<Rightarrow> db \<Rightarrow> bool" where
  "changes A = (stmt A)\<^sup>*\<^sup>*"

lemma changes_refl [simp, intro]: "changes A d d"
  by (simp add: changes_def)

lemma changes_stmt: "stmt A d d' \<Longrightarrow> changes A d d'"
  by (simp add: changes_def)

lemma changes_trans [trans]: "changes A d e \<Longrightarrow> changes A e f \<Longrightarrow> changes A d f"
  unfolding changes_def by (rule rtranclp_trans)

lemma changes_step: "changes A d e \<Longrightarrow> stmt A e f \<Longrightarrow> changes A d f"
  unfolding changes_def by (rule rtranclp.rtrancl_into_rtrancl)

lemma changes_induct [consumes 1, case_names refl step]:
  assumes "changes A d d'" and "Q d" and "\<And>e f. changes A d e \<Longrightarrow> Q e \<Longrightarrow> stmt A e f \<Longrightarrow> Q f"
  shows "Q d'"
  using assms(1) unfolding changes_def
  by (induction rule: rtranclp_induct) (use assms(2,3) in \<open>auto simp: changes_def\<close>)

lemma changes_preserve:
  assumes "changes A d d'" and "I d" and "\<And>e f. I e \<Longrightarrow> stmt A e f \<Longrightarrow> I f"
  shows "I d'"
  using assms by (induction rule: changes_induct) auto

lemma stmt_mono: "A \<subseteq> B \<Longrightarrow> stmt A d d' \<Longrightarrow> stmt B d d'"
  by (erule stmt.cases) (blast intro: stmt.intros)+

lemma changes_mono: "A \<subseteq> B \<Longrightarrow> changes A d d' \<Longrightarrow> changes B d d'"
  unfolding changes_def using stmt_mono by (metis mono_rtranclp)

section \<open>Lists of rows\<close>

lemma update_where_id [simp]: "update_where P f [] = []"
  by (simp add: update_where_def)

lemma set_update_where: "set (update_where P f rs) = (\<lambda>r. if P r then f r else r) ` set rs"
  by (simp add: update_where_def)

lemma map_update_where: "(\<And>r. g (f r) = g r) \<Longrightarrow> map g (update_where P f rs) = map g rs"
  by (induction rs) (auto simp: update_where_def)

lemma filter_update_where:
  "(\<And>r. r \<in> set rs \<Longrightarrow> P r \<Longrightarrow> \<not> Q r \<and> \<not> Q (f r)) \<Longrightarrow> filter Q (update_where P f rs) = filter Q rs"
  by (induction rs) (auto simp: update_where_def)

lemma filter_map_update_where:
  "(\<And>r. r \<in> set rs \<Longrightarrow> P r \<Longrightarrow> Q (f r) \<Longrightarrow> Q r) \<Longrightarrow> (\<And>r. g (f r) = g r) \<Longrightarrow>
     \<exists>R. map g (filter Q (update_where P f rs)) = map g (filter (\<lambda>r. Q r \<and> R r) rs)"
  by (rule exI [of _ "\<lambda>r. P r \<longrightarrow> Q (f r)"], induction rs) (auto simp: update_where_def)

lemma distinct_map_filter_conj: "distinct (map g (filter Q rs)) \<Longrightarrow> distinct (map g (filter (\<lambda>r. Q r \<and> R r) rs))"
  by (induction rs) (auto split: if_splits)

lemma distinct_update_where:
  "(\<And>r. r \<in> set rs \<Longrightarrow> P r \<Longrightarrow> Q (f r) \<Longrightarrow> Q r) \<Longrightarrow> (\<And>r. g (f r) = g r) \<Longrightarrow>
     distinct (map g (filter Q rs)) \<Longrightarrow> distinct (map g (filter Q (update_where P f rs)))"
  using filter_map_update_where [of rs P Q f g] distinct_map_filter_conj by metis

section \<open>Exclusive rows\<close>

text \<open>The three partial unique indexes (with the primary key of the requests).\<close>

definition one_host :: "db \<Rightarrow> bool" where
  "one_host d \<longleftrightarrow> distinct (map paBridge (filter (\<lambda>p. paRole p = ''HOST'') (participants d)))"

definition one_session :: "db \<Rightarrow> bool" where
  "one_session d \<longleftrightarrow> distinct (map seBridge (filter (\<lambda>s. active_session (seStatus s)) (sessions d)))"

definition one_request :: "db \<Rightarrow> bool" where
  "one_request d \<longleftrightarrow> distinct (map rqID (requests d)) \<and>
     distinct (map (\<lambda>r. (rqBridge r, rqParticipant r)) (filter (\<lambda>r. open_request (rqStatus r)) (requests d)))"

definition exclusive :: "db \<Rightarrow> bool" where
  "exclusive d \<longleftrightarrow> one_host d \<and> one_session d \<and> one_request d"

lemma delete_participants_simps [simp]:
  "participants (delete_participants P d) = filter (\<lambda>p. \<not> P p) (participants d)"
  "bridges (delete_participants P d) = bridges d"
  "workspaces (delete_participants P d) = workspaces d"
  "tfns (delete_participants P d) = tfns d"
  "map seBridge (filter (\<lambda>s. active_session (seStatus s)) (sessions (delete_participants P d))) =
     map seBridge (filter (\<lambda>s. active_session (seStatus s)) (sessions d))"
  by (simp_all add: delete_participants_def Let_def filter_map comp_def)

lemma distinct_map_filter_mono: "distinct (map g (filter Q rs)) \<Longrightarrow> distinct (map g (filter (\<lambda>r. R r \<and> Q r) rs))"
  by (induction rs) (auto split: if_splits)

lemma distinct_requests_map:
  "(\<And>r. rqBridge (f r) = rqBridge r \<and> rqParticipant (f r) = rqParticipant r \<and> rqStatus (f r) = rqStatus r) \<Longrightarrow>
   map (\<lambda>r. (rqBridge r, rqParticipant r)) (filter (\<lambda>r. open_request (rqStatus r)) (map f rs)) =
   map (\<lambda>r. (rqBridge r, rqParticipant r)) (filter (\<lambda>r. open_request (rqStatus r)) rs)"
  by (induction rs) auto

lemma one_request_delete: "one_request d \<Longrightarrow> one_request (delete_participants P d)"
  unfolding one_request_def delete_participants_def Let_def
  by (simp add: distinct_requests_map distinct_map_filter_mono comp_def distinct_map_filter)

lemma one_request_activate:
  assumes "one_request d"
  shows "one_request (activate_request ws rid now d)"
proof -
  let ?mine = "\<lambda>r. rqID r = rid \<and> rqWorkspace r = ws"
  let ?f = "\<lambda>r. r\<lparr>rqStatus := ''ACTIVE'', rqGranted := Some now, rqGrantedBy := Some ''admin''\<rparr>"
  let ?g = "\<lambda>r. (rqBridge r, rqParticipant r)"
  let ?us = "update_where ?mine ?f (requests d)"
  show ?thesis
  proof (cases "\<exists>r \<in> set (requests d). ?mine r \<and>
      (\<exists>q \<in> set (requests d). \<not> ?mine q \<and> open_for (rqBridge r) (rqParticipant r) q)")
    case True
    then have "activate_request ws rid now d = d"
      unfolding activate_request_def Let_def by (rule if_P)
    with assms show ?thesis by simp
  next
    case False
    then have new: "activate_request ws rid now d = on_request ?mine ?f d"
      unfolding activate_request_def Let_def by (rule if_not_P)
    have ids: "distinct (map rqID (requests d))" "distinct (map rqID ?us)"
      using assms by (simp_all add: one_request_def map_update_where)
    have old: "inj_on ?g {r \<in> set (requests d). open_request (rqStatus r)}"
      using assms by (simp add: one_request_def distinct_map)
    have same_id: "x = y" if "x \<in> set (requests d)" "y \<in> set (requests d)" "rqID x = rqID y" for x y
      using ids(1) that by (auto simp: distinct_map dest: inj_onD)
    have "inj_on ?g {r \<in> set ?us. open_request (rqStatus r)}"
    proof (rule inj_onI)
      fix x y
      assume x: "x \<in> {r \<in> set ?us. open_request (rqStatus r)}" and y: "y \<in> {r \<in> set ?us. open_request (rqStatus r)}"
        and g: "?g x = ?g y"
      obtain x0 where x0: "x0 \<in> set (requests d)" "x = (if ?mine x0 then ?f x0 else x0)"
        using x by (auto simp: set_update_where)
      obtain y0 where y0: "y0 \<in> set (requests d)" "y = (if ?mine y0 then ?f y0 else y0)"
        using y by (auto simp: set_update_where)
      have cross: False if "a \<in> set (requests d)" "b \<in> set (requests d)" "?mine a" "\<not> ?mine b" "?g a = ?g b"
        "open_request (rqStatus b)" for a b
      proof -
        have "open_for (rqBridge a) (rqParticipant a) b" using that by (simp add: open_for_def)
        with False that show False by blast
      qed
      have gx: "?g x0 = ?g y0" using g x0(2) y0(2) by (auto split: if_splits)
      have ox: "open_request (rqStatus x0)" if "\<not> ?mine x0" using x x0(2) that by auto
      have oy: "open_request (rqStatus y0)" if "\<not> ?mine y0" using y y0(2) that by auto
      consider "?mine x0" "?mine y0" | "?mine x0" "\<not> ?mine y0" | "\<not> ?mine x0" "?mine y0"
        | "\<not> ?mine x0" "\<not> ?mine y0" by blast
      then have "x0 = y0"
      proof cases
        case 1
        then show ?thesis using same_id [OF x0(1) y0(1)] by simp
      next
        case 2
        then show ?thesis using cross [OF x0(1) y0(1) 2 gx] oy by blast
      next
        case 3
        then show ?thesis using cross [OF y0(1) x0(1) 3(2) 3(1) gx [symmetric]] ox by blast
      next
        case 4
        then show ?thesis using inj_onD [OF old gx] x0(1) y0(1) ox oy by blast
      qed
      with x0 y0 show "x = y" by simp
    qed
    moreover have "distinct ?us" using ids(2) by (simp add: distinct_map)
    ultimately show ?thesis
      using ids(2) unfolding new by (simp add: one_request_def on_request_def distinct_map)
  qed
qed

lemma stmt_one_host:
  assumes "one_host d" and "stmt A d d'"
  shows "one_host d'"
  using assms(2)
proof cases
  case (participant f P)
  with assms(1) show ?thesis
    by (auto simp: one_host_def participant_kept_def intro!: distinct_update_where)
next
  case (delete P)
  with assms(1) show ?thesis by (simp add: one_host_def distinct_map_filter_mono conj_commute)
qed (use assms(1) in \<open>auto simp: one_host_def insert_participant_def insert_leg_def on_leg_def insert_session_def
      on_session_def enqueue_def on_request_def activate_request_def Let_def split: if_splits\<close>)

lemma stmt_one_session:
  assumes "one_session d" and "stmt A d d'"
  shows "one_session d'"
  using assms(2)
proof cases
  case (session f P)
  with assms(1) show ?thesis
    by (auto simp: one_session_def on_session_def session_kept_def intro!: distinct_update_where)
next
  case (delete P)
  with assms(1) show ?thesis by (simp add: one_session_def)
qed (use assms(1) in \<open>auto simp: one_session_def insert_participant_def insert_leg_def on_leg_def insert_session_def
      enqueue_def on_request_def activate_request_def Let_def split: if_splits\<close>)

lemma stmt_one_request:
  assumes "one_request d" and "stmt A d d'"
  shows "one_request d'"
  using assms(2)
proof cases
  case (request f P)
  with assms(1) show ?thesis
    by (auto simp: one_request_def on_request_def request_kept_def map_update_where intro!: distinct_update_where)
next
  case (delete P)
  with assms(1) show ?thesis by (simp add: one_request_delete)
next
  case (activate ws rid now)
  with assms(1) show ?thesis by (simp add: one_request_activate)
qed (use assms(1) in \<open>auto simp: one_request_def insert_participant_def insert_leg_def on_leg_def insert_session_def
      on_session_def enqueue_def open_for_def Let_def split: if_splits\<close>)

lemma changes_exclusive:
  assumes "changes A d d'" and "exclusive d"
  shows "exclusive d'"
  using assms
  by (rule changes_preserve) (auto simp: exclusive_def intro: stmt_one_host stmt_one_session stmt_one_request)

section \<open>References and workspaces\<close>

text \<open>Primary keys, and references that exist and stay inside one workspace.\<close>

definition consistent :: "db \<Rightarrow> bool" where
  "consistent d \<longleftrightarrow>
     distinct (map paID (participants d)) \<and> distinct (map lgID (legs d)) \<and> distinct (map seID (sessions d)) \<and>
     (\<forall>l \<in> set (legs d). (lgParticipant l, lgWorkspace l) \<in> pkeys d) \<and>
     (\<forall>s \<in> set (sessions d). \<forall>h. seHost s = Some h \<longrightarrow> (h, seWorkspace s) \<in> pkeys d) \<and>
     (\<forall>r \<in> set (requests d). (rqParticipant r, rqWorkspace r) \<in> pkeys d \<and>
        (\<forall>i. rqLeg r = Some i \<longrightarrow> (i, rqWorkspace r) \<in> lkeys d))"

text \<open>The rows of the workspaces outside \<open>A\<close>.\<close>

definition foreign ::
  "string set \<Rightarrow> db \<Rightarrow> bridge_row list \<times> participant_row list \<times> leg_row list \<times> session_row list \<times> request_row list" where
  "foreign A d =
     (filter (\<lambda>b. brWorkspace b \<notin> A) (bridges d), filter (\<lambda>p. paWorkspace p \<notin> A) (participants d),
      filter (\<lambda>l. lgWorkspace l \<notin> A) (legs d), filter (\<lambda>s. seWorkspace s \<notin> A) (sessions d),
      filter (\<lambda>r. rqWorkspace r \<notin> A) (requests d))"

lemma pkeys_ids: "fst ` pkeys d = paID ` set (participants d)"
  by (auto simp: pkeys_def image_image)

lemma lkeys_ids: "fst ` lkeys d = lgID ` set (legs d)"
  by (auto simp: lkeys_def image_image)

lemma image_update_where: "(\<And>r. g (f r) = g r) \<Longrightarrow> g ` set (update_where P f rs) = g ` set rs"
  by (metis list.set_map map_update_where)

text \<open>A statement that keeps the referring columns of every table keeps the references.\<close>

lemma consistent_cong:
  assumes "consistent d" and "pkeys d \<subseteq> pkeys d'" "lkeys d \<subseteq> lkeys d'"
    and "distinct (map paID (participants d'))" "distinct (map lgID (legs d'))" "distinct (map seID (sessions d'))"
    and "\<And>l. l \<in> set (legs d') \<Longrightarrow> (lgParticipant l, lgWorkspace l) \<in> pkeys d' \<or>
      (\<exists>k \<in> set (legs d). lgParticipant k = lgParticipant l \<and> lgWorkspace k = lgWorkspace l)"
    and "\<And>s h. s \<in> set (sessions d') \<Longrightarrow> seHost s = Some h \<Longrightarrow> (h, seWorkspace s) \<in> pkeys d' \<or>
      (\<exists>t \<in> set (sessions d). seHost t = seHost s \<and> seWorkspace t = seWorkspace s)"
    and "\<And>r. r \<in> set (requests d') \<Longrightarrow>
      (rqParticipant r, rqWorkspace r) \<in> pkeys d' \<and> (\<forall>i. rqLeg r = Some i \<longrightarrow> (i, rqWorkspace r) \<in> lkeys d') \<or>
      (\<exists>q \<in> set (requests d). rqParticipant q = rqParticipant r \<and> rqLeg q = rqLeg r \<and> rqWorkspace q = rqWorkspace r)"
  shows "consistent d'"
  unfolding consistent_def
proof (intro conjI ballI allI impI)
  fix l
  assume "l \<in> set (legs d')"
  with assms(7) [OF this] assms(1,2) show "(lgParticipant l, lgWorkspace l) \<in> pkeys d'"
    unfolding consistent_def by (metis subsetD)
next
  fix s h
  assume "s \<in> set (sessions d')" "seHost s = Some h"
  with assms(8) [OF this] assms(1,2) show "(h, seWorkspace s) \<in> pkeys d'"
    unfolding consistent_def by (metis subsetD)
next
  fix r
  assume "r \<in> set (requests d')"
  with assms(9) [OF this] assms(1,2) show "(rqParticipant r, rqWorkspace r) \<in> pkeys d'"
    unfolding consistent_def by (metis subsetD)
next
  fix r i
  assume "r \<in> set (requests d')" "rqLeg r = Some i"
  with assms(9) [OF this(1)] assms(1,3) show "(i, rqWorkspace r) \<in> lkeys d'"
    unfolding consistent_def by (metis subsetD)
qed (use assms(4-6) in auto)

lemma forget_Some: "forget g r = Some i \<longleftrightarrow> r = Some i \<and> \<not> g i"
  by (auto simp: forget_def split: option.splits)

lemma consistent_delete:
  assumes "consistent d"
  shows "consistent (delete_participants P d)"
proof -
  let ?d = "delete_participants P d"
  let ?gone = "\<lambda>i. \<exists>p \<in> set (participants d). paID p = i \<and> P p"
  let ?gone_leg = "\<lambda>i. \<exists>l \<in> set (legs d). lgID l = i \<and> ?gone (lgParticipant l)"
  have keep: "(i, w) \<in> pkeys ?d" if "(i, w) \<in> pkeys d" "\<not> ?gone i" for i w
    using that by (force simp: pkeys_def)
  have keepl: "(i, w) \<in> lkeys ?d" if k: "(i, w) \<in> lkeys d" and ng: "\<not> ?gone_leg i" for i w
  proof -
    obtain l where l: "l \<in> set (legs d)" "i = lgID l" "w = lgWorkspace l"
      using k unfolding lkeys_def by blast
    with ng have "\<not> ?gone (lgParticipant l)" by blast
    with l show ?thesis by (auto simp: lkeys_def delete_participants_def Let_def)
  qed
  have "l \<in> set (legs ?d) \<Longrightarrow> (lgParticipant l, lgWorkspace l) \<in> pkeys ?d" for l
    using assms keep by (auto simp: consistent_def delete_participants_def Let_def)
  moreover have "s \<in> set (sessions ?d) \<Longrightarrow> seHost s = Some h \<Longrightarrow> (h, seWorkspace s) \<in> pkeys ?d" for s h
    using assms keep by (auto simp: consistent_def delete_participants_def Let_def forget_Some)
  moreover have "r \<in> set (requests ?d) \<Longrightarrow> (rqParticipant r, rqWorkspace r) \<in> pkeys ?d \<and>
      (\<forall>i. rqLeg r = Some i \<longrightarrow> (i, rqWorkspace r) \<in> lkeys ?d)" for r
    using assms keep keepl by (auto simp: consistent_def delete_participants_def Let_def forget_Some)
  moreover have "distinct (map paID (participants ?d))" "distinct (map lgID (legs ?d))" "distinct (map seID (sessions ?d))"
    using assms by (simp_all add: consistent_def delete_participants_def Let_def distinct_map_filter comp_def)
  ultimately show ?thesis unfolding consistent_def by blast
qed

lemma pkeys_cong: "map paID (participants d') = map paID (participants d) \<Longrightarrow>
    map paWorkspace (participants d') = map paWorkspace (participants d) \<Longrightarrow> pkeys d' = pkeys d"
proof -
  have "pkeys e = set (zip (map paID (participants e)) (map paWorkspace (participants e)))" for e
    by (simp add: pkeys_def zip_map_map zip_same_conv_map)
  then show "map paID (participants d') = map paID (participants d) \<Longrightarrow>
    map paWorkspace (participants d') = map paWorkspace (participants d) \<Longrightarrow> pkeys d' = pkeys d" by simp
qed

lemma pkeys_update [simp]:
  "participant_kept f \<Longrightarrow> pkeys (d\<lparr>participants := update_where P f (participants d)\<rparr>) = pkeys d"
  by (rule pkeys_cong) (simp_all add: participant_kept_def map_update_where)

lemma lkeys_cong: "map lgID (legs d') = map lgID (legs d) \<Longrightarrow>
    map lgWorkspace (legs d') = map lgWorkspace (legs d) \<Longrightarrow> lkeys d' = lkeys d"
proof -
  have "lkeys e = set (zip (map lgID (legs e)) (map lgWorkspace (legs e)))" for e
    by (simp add: lkeys_def zip_map_map zip_same_conv_map)
  then show "map lgID (legs d') = map lgID (legs d) \<Longrightarrow>
    map lgWorkspace (legs d') = map lgWorkspace (legs d) \<Longrightarrow> lkeys d' = lkeys d" by simp
qed

lemma lkeys_update [simp]: "leg_kept f \<Longrightarrow> lkeys (on_leg P f d) = lkeys d"
  by (rule lkeys_cong) (simp_all add: leg_kept_def on_leg_def map_update_where)

lemma stmt_consistent:
  assumes "consistent d" and "stmt A d d'"
  shows "consistent d'"
  using assms(2)
proof cases
  case (participant f P)
  show ?thesis unfolding participant(1)
    by (rule consistent_cong [OF assms(1)])
      (use assms(1) participant(2) in \<open>auto simp: consistent_def lkeys_def participant_kept_def map_update_where\<close>)
next
  case (add_participant p)
  then have d': "d' = d\<lparr>participants := participants d @ [p]\<rparr>" "paID p \<notin> paID ` set (participants d)"
    by (auto simp: insert_participant_def split: if_splits)
  show ?thesis unfolding d'(1)
    by (rule consistent_cong [OF assms(1)])
      (use assms(1) d'(2) in \<open>auto simp: consistent_def lkeys_def pkeys_def\<close>)
next
  case (delete P)
  with assms(1) show ?thesis by (simp add: consistent_delete)
next
  case (add_leg l)
  then have d': "d' = d\<lparr>legs := legs d @ [l]\<rparr>" "lgID l \<notin> lgID ` set (legs d)"
    by (auto simp: insert_leg_def split: if_splits)
  show ?thesis unfolding d'(1)
    by (rule consistent_cong [OF assms(1)])
      (use assms(1) d'(2) add_leg(3) in \<open>auto simp: consistent_def lkeys_def pkeys_def\<close>)
next
  case (leg f P)
  have "map lgID (legs d') = map lgID (legs d)"
    using leg(2) by (simp add: leg(1) on_leg_def leg_kept_def map_update_where)
  moreover have "lkeys d' = lkeys d" using leg by simp
  moreover have "pkeys d' = pkeys d" by (simp add: leg(1) pkeys_def on_leg_def)
  moreover have "sessions d' = sessions d" "requests d' = requests d" "participants d' = participants d"
    by (simp_all add: leg(1) on_leg_def)
  moreover have "l \<in> set (legs d') \<Longrightarrow>
      \<exists>k \<in> set (legs d). lgParticipant k = lgParticipant l \<and> lgWorkspace k = lgWorkspace l" for l
    using leg(2) by (auto simp: leg(1) on_leg_def leg_kept_def set_update_where)
  ultimately show ?thesis
    using assms(1) by (intro consistent_cong [OF assms(1)])
      (auto simp: consistent_def)
next
  case (add_session s)
  then have d': "d' = d\<lparr>sessions := sessions d @ [s]\<rparr>" "seID s \<notin> seID ` set (sessions d)"
    by (auto simp: insert_session_def split: if_splits)
  show ?thesis unfolding d'(1)
    by (rule consistent_cong [OF assms(1)])
      (use assms(1) d'(2) add_session(3) in \<open>auto simp: consistent_def lkeys_def pkeys_def\<close>)
next
  case (session f P)
  have "map seID (sessions d') = map seID (sessions d)"
    using session(2) by (simp add: session(1) on_session_def session_kept_def map_update_where)
  then show ?thesis
    using assms(1) session(2) unfolding session(1)
    by (intro consistent_cong [OF assms(1)])
      (auto simp: consistent_def on_session_def pkeys_def lkeys_def session_kept_def set_update_where)
next
  case (add_request r)
  then consider "d' = d" | "d' = d\<lparr>requests := requests d @ [r]\<rparr>"
    by (auto simp: enqueue_def split: if_splits)
  then show ?thesis
  proof cases
    case 2
    show ?thesis unfolding 2
      by (rule consistent_cong [OF assms(1)])
        (use assms(1) add_request(3,4) in \<open>auto simp: consistent_def lkeys_def pkeys_def\<close>)
  qed (use assms(1) in simp)
next
  case (request f P)
  then show ?thesis
    using assms(1)
    by (intro consistent_cong [OF assms(1)])
      (auto simp: consistent_def on_request_def pkeys_def lkeys_def request_kept_def set_update_where)
next
  case (activate ws rid now)
  show ?thesis
  proof (cases "d' = d")
    case False
    then show ?thesis
      using assms(1) activate
      by (intro consistent_cong [OF assms(1)])
        (auto simp: activate_request_def consistent_def on_request_def pkeys_def lkeys_def set_update_where
          Let_def split: if_splits)
  qed (use assms(1) in simp)
qed (use assms(1) in \<open>simp_all add: consistent_def pkeys_def lkeys_def\<close>)

lemma changes_consistent: "changes A d d' \<Longrightarrow> consistent d \<Longrightarrow> consistent d'"
  by (rule changes_preserve) (auto intro: stmt_consistent)

text \<open>Every row of a room lies in the room's workspace.\<close>

definition housed :: "db \<Rightarrow> bool" where
  "housed d \<longleftrightarrow> distinct (map brID (bridges d)) \<and>
     (\<forall>p \<in> set (participants d). (paBridge p, paWorkspace p) \<in> bkeys d) \<and>
     (\<forall>l \<in> set (legs d). (lgBridge l, lgWorkspace l) \<in> bkeys d) \<and>
     (\<forall>s \<in> set (sessions d). (seBridge s, seWorkspace s) \<in> bkeys d) \<and>
     (\<forall>r \<in> set (requests d). (rqBridge r, rqWorkspace r) \<in> bkeys d)"

lemma bkeys_update: "bridge_kept f \<Longrightarrow> bkeys (d\<lparr>bridges := update_where P f (bridges d)\<rparr>) = bkeys d"
  unfolding bkeys_def by (simp add: image_update_where bridge_kept_def)

lemma bkeys_cong: "bridges d' = bridges d \<Longrightarrow> bkeys d' = bkeys d"
  by (simp add: bkeys_def)

lemma stmt_bkeys:
  assumes "stmt A d d'"
  shows "bkeys d' = bkeys d"
  using assms
proof cases
  case (room f P)
  then show ?thesis by (simp add: bkeys_update)
qed (auto simp: insert_participant_def insert_leg_def insert_session_def enqueue_def activate_request_def
      on_leg_def on_session_def on_request_def Let_def intro!: bkeys_cong split: if_splits)

lemma stmt_housed:
  assumes "housed d" and "stmt A d d'"
  shows "housed d'"
proof -
  note keys = stmt_bkeys [OF assms(2)]
  note old = assms(1) [unfolded housed_def]
  have ids: "distinct (map brID (bridges d'))"
    using assms(2)
  proof cases
    case (room f P)
    then show ?thesis using old by (simp add: bridge_kept_def map_update_where)
  qed (use old in \<open>auto simp: insert_participant_def insert_leg_def insert_session_def enqueue_def
      activate_request_def on_leg_def on_session_def on_request_def Let_def split: if_splits\<close>)
  have "\<forall>p \<in> set (participants d'). (paBridge p, paWorkspace p) \<in> bkeys d"
    using assms(2) old
    by cases (auto simp: insert_participant_def insert_leg_def insert_session_def enqueue_def activate_request_def
        on_leg_def on_session_def on_request_def participant_kept_def set_update_where Let_def split: if_splits)
  moreover have "\<forall>l \<in> set (legs d'). (lgBridge l, lgWorkspace l) \<in> bkeys d"
    using assms(2) old
    by cases (auto simp: insert_participant_def insert_leg_def insert_session_def enqueue_def activate_request_def
        on_leg_def on_session_def on_request_def leg_kept_def set_update_where delete_participants_def Let_def
        split: if_splits)
  moreover have "\<forall>s \<in> set (sessions d'). (seBridge s, seWorkspace s) \<in> bkeys d"
    using assms(2) old
    by cases (auto simp: insert_participant_def insert_leg_def insert_session_def enqueue_def activate_request_def
        on_leg_def on_session_def on_request_def session_kept_def set_update_where delete_participants_def Let_def
        split: if_splits)
  moreover have "\<forall>r \<in> set (requests d'). (rqBridge r, rqWorkspace r) \<in> bkeys d"
    using assms(2)
  proof cases
    case (add_request r)
    then obtain l where "l \<in> set (legs d)" "lgBridge l = rqBridge r" "lgWorkspace l = rqWorkspace r" by blast
    with old have "(rqBridge r, rqWorkspace r) \<in> bkeys d" by metis
    with add_request(1) old show ?thesis by (auto simp: enqueue_def split: if_splits)
  qed (use old in \<open>auto simp: insert_participant_def insert_leg_def insert_session_def activate_request_def
      on_leg_def on_session_def on_request_def request_kept_def set_update_where delete_participants_def Let_def
      split: if_splits\<close>)
  ultimately show ?thesis using ids unfolding housed_def keys by blast
qed

lemma changes_housed: "changes A d d' \<Longrightarrow> housed d \<Longrightarrow> housed d'"
  by (rule changes_preserve) (auto intro: stmt_housed)

lemma changes_bkeys: "changes A d d' \<Longrightarrow> bkeys d' = bkeys d"
  by (induction rule: changes_induct) (auto dest: stmt_bkeys)

text \<open>A participant deleted by a statement on \<open>A\<close> is not referred to from outside \<open>A\<close>.\<close>

lemma pkeys_unique:
  assumes "consistent d" and "(i, v) \<in> pkeys d" and "p \<in> set (participants d)" "paID p = i"
  shows "paWorkspace p = v"
proof -
  obtain q where "q \<in> set (participants d)" "paID q = i" "paWorkspace q = v"
    using assms(2) by (auto simp: pkeys_def)
  moreover have "inj_on paID (set (participants d))" using assms(1) by (simp add: consistent_def distinct_map)
  ultimately show ?thesis using assms(3,4) by (metis inj_onD)
qed

lemma lkeys_unique:
  assumes "consistent d" and "(i, v) \<in> lkeys d" and "l \<in> set (legs d)" "lgID l = i"
  shows "lgWorkspace l = v"
proof -
  obtain q where "q \<in> set (legs d)" "lgID q = i" "lgWorkspace q = v"
    using assms(2) by (auto simp: lkeys_def)
  moreover have "inj_on lgID (set (legs d))" using assms(1) by (simp add: consistent_def distinct_map)
  ultimately show ?thesis using assms(3,4) by (metis inj_onD)
qed

lemma filter_map_id:
  "(\<And>r. r \<in> set rs \<Longrightarrow> Q (f r) = Q r) \<Longrightarrow> (\<And>r. r \<in> set rs \<Longrightarrow> Q r \<Longrightarrow> f r = r) \<Longrightarrow> filter Q (map f rs) = filter Q rs"
  by (induction rs) auto

lemma filter_filter_id:
  "(\<And>r. r \<in> set rs \<Longrightarrow> Q r \<Longrightarrow> R r) \<Longrightarrow> filter Q (filter R rs) = filter Q rs"
  by (induction rs) auto

lemma forget_id: "(\<And>i. r = Some i \<Longrightarrow> \<not> g i) \<Longrightarrow> forget g r = r"
  by (cases r) (auto simp: forget_def)

lemma delete_foreign:
  assumes "consistent d" and P: "\<And>p. p \<in> set (participants d) \<Longrightarrow> P p \<Longrightarrow> paWorkspace p \<in> A"
  shows "foreign A (delete_participants P d) = foreign A d"
proof -
  let ?gone = "\<lambda>i. \<exists>p \<in> set (participants d). paID p = i \<and> P p"
  let ?gone_leg = "\<lambda>i. \<exists>l \<in> set (legs d). lgID l = i \<and> ?gone (lgParticipant l)"
  have gone: "v \<in> A" if "(i, v) \<in> pkeys d" "?gone i" for i v
    using that P pkeys_unique [OF assms(1) that(1)] by blast
  have legs: "lgWorkspace l \<in> A" if "l \<in> set (legs d)" "?gone (lgParticipant l)" for l
    using that assms(1) gone unfolding consistent_def by blast
  have gone_leg: "v \<in> A" if "(i, v) \<in> lkeys d" "?gone_leg i" for i v
    using that legs lkeys_unique [OF assms(1) that(1)] by blast
  have "filter (\<lambda>s. seWorkspace s \<notin> A) (map (\<lambda>s. s\<lparr>seHost := forget ?gone (seHost s)\<rparr>) (sessions d)) =
      filter (\<lambda>s. seWorkspace s \<notin> A) (sessions d)"
  proof (rule filter_map_id)
    fix s
    assume s: "s \<in> set (sessions d)" "seWorkspace s \<notin> A"
    have "forget ?gone (seHost s) = seHost s"
    proof (rule forget_id)
      fix i assume "seHost s = Some i"
      with s(1) assms(1) have "(i, seWorkspace s) \<in> pkeys d" by (auto simp: consistent_def)
      with s(2) gone show "\<not> ?gone i" by blast
    qed
    then show "s\<lparr>seHost := forget ?gone (seHost s)\<rparr> = s" by simp
  qed simp
  moreover have "filter (\<lambda>r. rqWorkspace r \<notin> A)
      (map (\<lambda>r. r\<lparr>rqLeg := forget ?gone_leg (rqLeg r)\<rparr>) (filter (\<lambda>r. \<not> ?gone (rqParticipant r)) (requests d))) =
      filter (\<lambda>r. rqWorkspace r \<notin> A) (requests d)"
  proof (subst filter_map_id)
    fix r
    assume r: "r \<in> set (filter (\<lambda>r. \<not> ?gone (rqParticipant r)) (requests d))" "rqWorkspace r \<notin> A"
    have "forget ?gone_leg (rqLeg r) = rqLeg r"
    proof (rule forget_id)
      fix i assume "rqLeg r = Some i"
      with r(1) assms(1) have "(i, rqWorkspace r) \<in> lkeys d" by (auto simp: consistent_def)
      with r(2) gone_leg show "\<not> ?gone_leg i" by blast
    qed
    then show "r\<lparr>rqLeg := forget ?gone_leg (rqLeg r)\<rparr> = r" by simp
  next
    have "\<not> ?gone (rqParticipant r)" if "r \<in> set (requests d)" "rqWorkspace r \<notin> A" for r
    proof -
      have "(rqParticipant r, rqWorkspace r) \<in> pkeys d" using that(1) assms(1) by (auto simp: consistent_def)
      with that(2) gone show ?thesis by blast
    qed
    then show "filter (\<lambda>r. rqWorkspace r \<notin> A) (filter (\<lambda>r. \<not> ?gone (rqParticipant r)) (requests d)) =
      filter (\<lambda>r. rqWorkspace r \<notin> A) (requests d)"
      by (rule filter_filter_id) auto
  qed simp
  moreover have "filter (\<lambda>l. lgWorkspace l \<notin> A) (filter (\<lambda>l. \<not> ?gone (lgParticipant l)) (legs d)) =
      filter (\<lambda>l. lgWorkspace l \<notin> A) (legs d)"
    using legs by (intro filter_filter_id) blast
  moreover have "filter (\<lambda>p. paWorkspace p \<notin> A) (filter (\<lambda>p. \<not> P p) (participants d)) =
      filter (\<lambda>p. paWorkspace p \<notin> A) (participants d)"
    using P by (intro filter_filter_id) auto
  ultimately show ?thesis
    unfolding foreign_def delete_participants_def Let_def by (simp del: filter_filter)
qed

lemma stmt_foreign:
  assumes "consistent d" and "stmt A d d'"
  shows "foreign A d' = foreign A d"
  using assms(2)
proof cases
  case (delete P)
  with assms(1) show ?thesis by (simp add: delete_foreign)
next
  case (activate ws rid now)
  then show ?thesis
    by (auto simp: activate_request_def on_request_def foreign_def Let_def intro!: filter_update_where)
qed (auto simp: foreign_def kept_defs insert_participant_def insert_leg_def insert_session_def enqueue_def
      on_leg_def on_session_def on_request_def split: if_splits intro!: filter_update_where)

lemma changes_foreign: "changes A d d' \<Longrightarrow> consistent d \<Longrightarrow> foreign A d' = foreign A d"
proof (induction rule: changes_induct)
  case (step e f)
  have "consistent e" using step changes_consistent by blast
  with step stmt_foreign show ?case by metis
qed simp

end
