(* ===== verification/RoomFacts.thy ===== *)
theory RoomFacts
  imports Statements
begin

text \<open>
  Every handler of the rooms, the sessions, the live calls and the speaker queue is a sequence of
  statements on the rows of the workspace it is run for. Together with theory Statements this gives
  the invariants of all of them at once.
\<close>

section \<open>Reading and running statements\<close>

lemma query_row_Row: "query_row W k rows = Row r \<Longrightarrow> r \<in> set rows"
  by (auto simp: query_row_def split: if_splits list.splits)

lemma query_row_NoRows: "query_row W k rows = NoRows \<Longrightarrow> rows = []"
  by (auto simp: query_row_def split: if_splits list.splits)

lemma sql_exec_Inr: "sql_exec W k st d = Inr d' \<longleftrightarrow> \<not> wfail W k \<and> st d = Some d'"
  by (auto simp: sql_exec_def split: option.splits)

lemma sql_commit_Inr: "sql_commit W k d = Inr d' \<longleftrightarrow> \<not> wfail W k \<and> d' = d"
  by (auto simp: sql_commit_def)

lemma changes_try: "stmt A d (f d) \<Longrightarrow> changes A d (sql_try W k f d)"
  by (auto simp: sql_try_def intro: changes_stmt)

lemma changes_try_opt: "changes A d (f d) \<Longrightarrow> changes A d (sql_try W k f d)"
  by (simp add: sql_try_def)

lemma changes_if:
  "(b \<Longrightarrow> changes A d x) \<Longrightarrow> (\<not> b \<Longrightarrow> changes A d y) \<Longrightarrow> changes A d (if b then x else y)"
  by simp

lemma stmt_on_room: "ws \<in> A \<Longrightarrow> bridge_kept f \<Longrightarrow> stmt A d (on_room ws br f d)"
  unfolding on_room_def by (rule stmt.room) auto

lemma stmt_on_participant: "ws \<in> A \<Longrightarrow> participant_kept f \<Longrightarrow> stmt A d (on_participant ws pid f d)"
  unfolding on_participant_def by (rule stmt.participant) auto

lemma on_room_changes [intro]: "ws \<in> A \<Longrightarrow> bridge_kept f \<Longrightarrow> changes A d (sql_try W k (on_room ws br f) d)"
  by (intro changes_try stmt_on_room)

lemma on_participant_changes [intro]:
  "ws \<in> A \<Longrightarrow> participant_kept f \<Longrightarrow> changes A d (sql_try W k (on_participant ws pid f) d)"
  by (intro changes_try stmt_on_participant)

lemma attend_until_changes [intro]: "changes A d (attend_until W k s d)"
  unfolding attend_until_def by (intro changes_try stmt.attend)

lemma roomEvent_changes [intro]: "changes A d (roomEvent W k ws br pid t ps d)"
proof -
  have "changes A d (if ws \<in> wsID ` set (workspaces d) \<and> br \<in> brID ` set (bridges d) \<and> pid \<in> paID ` set (participants d)
       then d\<lparr>eventlog := eventlog d @ [\<lparr>evWorkspace = ws, evBridge = br, evParticipant = Some pid,
                                       evType = t, evPayload = JObj ps\<rparr>]\<rparr> else d)"
    by (auto intro: changes_stmt stmt.log)
  then show ?thesis unfolding roomEvent_def by (rule changes_try_opt)
qed

lemma insert_attendance_changes: "changes A d (sql_try W k (insert_attendance a) d)"
  by (rule changes_try_opt) (auto simp: insert_attendance_def intro: changes_stmt stmt.attend)

section \<open>Rooms\<close>

lemma insert_participant_pkeys: "insert_participant p d = Some d' \<Longrightarrow> pkeys d' = insert (paID p, paWorkspace p) (pkeys d)"
  by (auto simp: insert_participant_def pkeys_def split: if_splits)

lemma add_participant_changes:
  "insert_participant p d = Some d' \<Longrightarrow> paWorkspace p = ws \<Longrightarrow> (paBridge p, ws) \<in> bkeys d \<Longrightarrow> changes {ws} d d'"
  by (rule changes_stmt [OF stmt.add_participant]) auto

lemma room_rows_bkeys: "b \<in> set (room_rows ws br d) \<Longrightarrow> (br, ws) \<in> bkeys d"
  by (auto simp: room_rows_def bkeys_def)

lemma query_room_bkeys: "query_row W k (room_rows ws br d) = Row b \<Longrightarrow> (br, ws) \<in> bkeys d"
  by (rule room_rows_bkeys [OF query_row_Row])

lemma bkeys_on_room: "bridge_kept f \<Longrightarrow> bkeys (on_room ws br f d) = bkeys d"
  unfolding on_room_def by (rule bkeys_update)

lemma host_clear_changes: "host_clear W ws br d = Inr d' \<Longrightarrow> changes {ws} d d'"
  by (auto simp: host_clear_def sql_exec_Inr sql_commit_Inr split: sum.splits
      intro!: changes_step [OF changes_stmt [OF stmt_on_room] stmt.delete] simp: bridge_kept_def)

lemma host_save_changes:
  assumes "host_save W ws br name phone d = Inr (h, d')" and "(br, ws) \<in> bkeys d"
  shows "changes {ws} d d'"
proof -
  let ?d1 = "on_room ws br (\<lambda>b. b\<lparr>brHostName := Some name, brHostPhone := Some phone\<rparr>) d"
  have s1: "changes {ws} d ?d1" by (rule changes_stmt [OF stmt_on_room]) (simp_all add: bridge_kept_def)
  have "(br, ws) \<in> bkeys ?d1" using assms(2) by (simp add: bkeys_on_room bridge_kept_def)
  then have "stmt {ws} ?d1 d'"
    using assms(1)
    by (auto simp: host_save_def sql_exec_Inr sql_commit_Inr Let_def participant_kept_def
        split: sum.splits fetched_row.splits intro: stmt.add_participant intro!: stmt_on_participant)
  with s1 show ?thesis by (rule changes_step)
qed

lemma host_changes: "host W del ws br i d = (r, d') \<Longrightarrow> changes {ws} d d'"
  by (auto simp: host_def Let_def split: if_splits fetched_row.splits sum.splits option.splits
      intro: host_clear_changes host_save_changes query_room_bkeys)

lemma bridgeSettings_changes: "bridgeSettings W ws br i d = (r, d') \<Longrightarrow> changes {ws} d d'"
  by (auto simp: bridgeSettings_def sql_exec_Inr Let_def bridge_kept_def
      split: if_splits fetched_row.splits sum.splits option.splits intro!: changes_stmt [OF stmt_on_room])

lemma addRosterParticipant_changes: "addRosterParticipant W ws br i d = (r, d') \<Longrightarrow> changes {ws} d d'"
  by (auto simp: addRosterParticipant_def sql_exec_Inr
      split: if_splits fetched_row.splits sum.splits option.splits elim!: add_participant_changes
      intro: query_room_bkeys)

lemma edit_save_changes: "edit_save W ws pid name phone d = Inr d' \<Longrightarrow> changes {ws} d d'"
  by (auto simp: edit_save_def sql_exec_Inr sql_commit_Inr participant_kept_def split: sum.splits
      intro!: changes_step [OF changes_stmt [OF stmt_on_participant] stmt.item])

lemma editRosterParticipant_changes: "editRosterParticipant W ws pid i d = (r, d') \<Longrightarrow> changes {ws} d d'"
  by (auto simp: editRosterParticipant_def Let_def
      split: if_splits fetched_row.splits sum.splits option.splits intro: edit_save_changes)

lemma remove_participant_changes: "remove_participant W ws pid d = (r, d') \<Longrightarrow> changes {ws} d d'"
  by (auto simp: remove_participant_def sql_exec_Inr Let_def split: if_splits sum.splits
      intro!: changes_stmt stmt.delete)

section \<open>Calls\<close>

lemma on_leg_changes:
  "leg_kept f \<Longrightarrow> (\<And>l. P l \<Longrightarrow> lgWorkspace l \<in> A) \<Longrightarrow> changes A d (sql_try W k (on_leg P f) d)"
  by (intro changes_try stmt.leg) auto

lemma dispatch_noted_changes: "changes {ws} d (dispatch_noted W k ws pid se c n ph ro d)"
proof -
  have "changes {ws} d (sql_try W (k + 3) (on_participant ws pid (\<lambda>p. p\<lparr>paDesired := st\<rparr>)) d)" for st
    by (rule on_participant_changes) (simp_all add: participant_kept_def)
  then show ?thesis
    unfolding dispatch_noted_def Let_def
    by (auto intro: insert_attendance_changes changes_trans)
qed

lemma dispatch_rows_mem:
  "(p, b) \<in> set (dispatch_rows ws br pid d) \<longleftrightarrow>
     p \<in> set (participants d) \<and> b \<in> set (bridges d) \<and> paID p = pid \<and> paWorkspace p = ws \<and> paBridge p = br \<and>
     brID b = br \<and> brWorkspace b = ws"
  by (auto simp: dispatch_rows_def)

text \<open>What a dispatch does when it gets as far as the call leg.\<close>

definition new_leg :: "string \<Rightarrow> string \<Rightarrow> string \<Rightarrow> string \<Rightarrow> node \<Rightarrow> string \<Rightarrow> leg_row" where
  "new_leg callID ws pid br n role =
     \<lparr>lgID = callID, lgWorkspace = ws, lgParticipant = pid, lgBridge = br, lgNode = NodeID n,
      lgEpoch = NodeEpoch n, lgMember = None, lgPBXCall = None, lgSIPCall = None, lgState = ''DISPATCHED'',
      lgMute = (role \<noteq> ''HOST''), lgError = None, lgAnswered = None, lgEnded = None\<rparr>"

definition originate_post ::
  "node \<Rightarrow> string \<Rightarrow> string \<Rightarrow> string \<Rightarrow> string \<Rightarrow> string \<Rightarrow> string \<Rightarrow> string \<Rightarrow> sidecar_post" where
  "originate_post n command callID br pid number tfn role =
     \<lparr>spNode = n, spPath = ''/v1/calls/originate'',
      spBody = [(''command_id'', JStr command), (''call_id'', JStr callID), (''bridge_id'', JStr br),
        (''participant_id'', JStr pid), (''destination'', JStr number), (''caller_id'', JStr tfn),
        (''role'', JStr role), (''desired_mute'', JBool (role \<noteq> ''HOST''))]\<rparr>"

lemma dispatch_cases:
  assumes "dispatchExistingParticipant W k F j ws br pid se d = (res, ps, d')"
  obtains (refused) e where "res = Inl e" "ps = []" "d' = d"
  | (called) p b n ns d1 where "p \<in> set (participants d)" "paID p = pid" "paWorkspace p = ws" "paBridge p = br"
      "b \<in> set (bridges d)" "brID b = br" "brWorkspace b = ws"
      "tfn_status (room_tfn b d) = ''ACTIVE''" "\<not> blank (tfn_number (room_tfn b d))"
      "normalizeDialNumber (paPhone p) (brRegion b) \<noteq> []"
      "flNodes F j = Inr ns" "chooseNode ns (normalizeParticipantRole (paRole p)) = Inr n"
      "\<not> wfail W (k + 1)"
      "insert_leg (new_leg (wid W (k + 1)) ws pid br n (normalizeParticipantRole (paRole p))) d = Some d1"
      "ps = [originate_post n (flCommand F j) (wid W (k + 1)) br pid (normalizeDialNumber (paPhone p) (brRegion b))
              (tfn_number (room_tfn b d)) (normalizeParticipantRole (paRole p))]"
      "(\<exists>e. flPost F j = Some e \<and> res = Inl e \<and>
          d' = sql_try W (k + 2) (on_leg (\<lambda>l. lgID l = wid W (k + 1))
                 (\<lambda>l. l\<lparr>lgState := ''FAILED'', lgError := Some e, lgEnded := Some (wnow W (k + 2))\<rparr>)) d1) \<or>
       flPost F j = None \<and>
          res = Inr \<lparr>dpParticipant = pid, dpCall = wid W (k + 1), dpNode = NodeID n,
                     dpRole = normalizeParticipantRole (paRole p)\<rparr> \<and>
          d' = dispatch_noted W k ws pid se (wid W (k + 1)) (paName p)
                 (normalizeDialNumber (paPhone p) (brRegion b)) (normalizeParticipantRole (paRole p)) d1"
proof (cases "ps = []")
  case True
  then have "d' = d \<and> (\<exists>e. res = Inl e)"
    using assms by (auto simp: dispatchExistingParticipant_def Let_def
        split: fetched_row.splits prod.splits if_splits sum.splits option.splits)
  with True refused show thesis by blast
next
  case False
  from assms False obtain p b where q: "query_row W k (dispatch_rows ws br pid d) = Row (p, b)"
    by (auto simp: dispatchExistingParticipant_def split: fetched_row.splits)
  from query_row_Row [OF q] have pb: "p \<in> set (participants d)" "paID p = pid" "paWorkspace p = ws" "paBridge p = br"
    "b \<in> set (bridges d)" "brID b = br" "brWorkspace b = ws" by (simp_all add: dispatch_rows_mem)
  have t: "tfn_status (room_tfn b d) = ''ACTIVE''" "\<not> blank (tfn_number (room_tfn b d))"
    "normalizeDialNumber (paPhone p) (brRegion b) \<noteq> []"
    using assms False q by (auto simp: dispatchExistingParticipant_def Let_def split: if_splits)
  from assms False q t obtain ns n where n: "flNodes F j = Inr ns"
      "chooseNode ns (normalizeParticipantRole (paRole p)) = Inr n"
    by (auto simp: dispatchExistingParticipant_def Let_def split: sum.splits)
  from assms False q t n obtain d1 where
    e: "sql_exec W (k + 1) (insert_leg (new_leg (wid W (k + 1)) ws pid br n (normalizeParticipantRole (paRole p)))) d = Inr d1"
    by (auto simp: dispatchExistingParticipant_def Let_def new_leg_def split: sum.splits)
  have "res = (case flPost F j of Some e \<Rightarrow> Inl e | None \<Rightarrow> Inr \<lparr>dpParticipant = pid, dpCall = wid W (k + 1),
            dpNode = NodeID n, dpRole = normalizeParticipantRole (paRole p)\<rparr>)"
    and "d' = (case flPost F j of
        Some e \<Rightarrow> sql_try W (k + 2) (on_leg (\<lambda>l. lgID l = wid W (k + 1))
                 (\<lambda>l. l\<lparr>lgState := ''FAILED'', lgError := Some e, lgEnded := Some (wnow W (k + 2))\<rparr>)) d1
      | None \<Rightarrow> dispatch_noted W k ws pid se (wid W (k + 1)) (paName p)
                 (normalizeDialNumber (paPhone p) (brRegion b)) (normalizeParticipantRole (paRole p)) d1)"
    and ps: "ps = [originate_post n (flCommand F j) (wid W (k + 1)) br pid (normalizeDialNumber (paPhone p) (brRegion b))
              (tfn_number (room_tfn b d)) (normalizeParticipantRole (paRole p))]"
    using e assms q t n
    by (simp_all add: dispatchExistingParticipant_def Let_def new_leg_def originate_post_def split: option.splits)
  then show thesis
    using e by (intro called [OF pb t n _ _ ps]) (auto simp: sql_exec_Inr split: option.splits)
qed

lemma insert_leg_Some:
  "insert_leg l d = Some d' \<Longrightarrow> d' = d\<lparr>legs := legs d @ [l]\<rparr> \<and> lgID l \<notin> lgID ` set (legs d)"
  by (auto simp: insert_leg_def split: if_splits)

lemma dispatch_changes:
  assumes "dispatchExistingParticipant W k F j ws br pid se d = (res, ps, d')"
  shows "changes {ws} d d'"
  using assms
proof (cases rule: dispatch_cases)
  case refused
  then show ?thesis by simp
next
  case (called p b n ns d1)
  let ?l = "new_leg (wid W (k + 1)) ws pid br n (normalizeParticipantRole (paRole p))"
  have l: "lgWorkspace ?l = ws" "lgParticipant ?l = pid" by (simp_all add: new_leg_def)
  have "(pid, ws) \<in> pkeys d" using called(1-3) by (auto simp: pkeys_def)
  then have s1: "changes {ws} d d1"
    using called(5-7) by (intro changes_stmt stmt.add_leg [OF called(14)]) (auto simp: new_leg_def bkeys_def)
  have d1: "d1 = d\<lparr>legs := legs d @ [?l]\<rparr>" and fresh: "wid W (k + 1) \<notin> lgID ` set (legs d)"
    using insert_leg_Some [OF called(14)] by (simp_all add: new_leg_def)
  have "lgID x \<noteq> wid W (k + 1)" if "x \<in> set (legs d)" for x
    using fresh imageI [OF that, of lgID] by auto
  then have mine: "lgWorkspace x = ws" if "x \<in> set (legs d1)" "lgID x = wid W (k + 1)" for x
    using that l unfolding d1 by auto
  have "stmt {ws} d1 (on_leg (\<lambda>l. lgID l = wid W (k + 1)) (\<lambda>l. l\<lparr>lgState := ''FAILED'', lgError := Some e,
      lgEnded := Some t\<rparr>) d1)" for e t
    by (rule stmt.leg) (use mine in \<open>auto simp: leg_kept_def\<close>)
  then have "changes {ws} d1 d'"
    using called(16) by (auto intro: changes_try dispatch_noted_changes)
  with s1 show ?thesis by (rule changes_trans)
qed

lemma dispatchDial_changes:
  assumes "dispatchDial W F ws br name phone d = (res, ps, d')"
  shows "changes {ws} d d'"
proof -
  consider "d' = d" | p d1 where "insert_participant p d = Some d1" "paWorkspace p = ws" "(paBridge p, ws) \<in> bkeys d"
    "dispatchExistingParticipant W 2 F 0 ws br (wid W 1) '''' d1 = (res, ps, d')"
    using assms by (auto simp: dispatchDial_def sql_exec_Inr Let_def
        split: fetched_row.splits if_splits sum.splits dest: query_room_bkeys)
  then show ?thesis
    by cases (auto intro: changes_trans [OF add_participant_changes dispatch_changes])
qed

lemma dial_changes: "dial W F ws br i d = (r, ps, d') \<Longrightarrow> changes {ws} d d'"
  by (auto simp: dial_def Let_def split: option.splits if_splits prod.splits sum.splits
      intro: dispatchDial_changes)

lemma addParticipant_changes: "addParticipant W F ws pid d = (r, ps, d') \<Longrightarrow> changes {ws} d d'"
  by (auto simp: addParticipant_def split: fetched_row.splits if_splits prod.splits sum.splits
      intro: dispatch_changes)

lemma dropCall_changes: "dropCall W k F j ws l d = (r, ps, d') \<Longrightarrow> changes {ws} d d'"
  by (auto simp: dropCall_def leg_kept_def Let_def split: sum.splits option.splits intro!: on_leg_changes)

section \<open>Sessions\<close>

lemma insert_session_Some:
  "insert_session s d = Some d' \<Longrightarrow> d' = d\<lparr>sessions := sessions d @ [s]\<rparr> \<and> seID s \<notin> seID ` set (sessions d)"
  by (auto simp: insert_session_def split: if_splits)

lemma insert_participant_Some:
  "insert_participant p d = Some d' \<Longrightarrow> d' = d\<lparr>participants := participants d @ [p]\<rparr> \<and> paID p \<notin> paID ` set (participants d)"
  by (auto simp: insert_participant_def split: if_splits)

text \<open>What the transaction of a start does when it commits.\<close>

definition started :: "world \<Rightarrow> string \<Rightarrow> string \<Rightarrow> string \<Rightarrow> session_row" where
  "started W ws br hostID =
     \<lparr>seID = wid W 4, seWorkspace = ws, seBridge = br, seHost = Some hostID, seStatus = ''STARTING'',
      seStarted = wnow W 4, seEnded = None, seDuration = None\<rparr>"

lemma start_host_cases:
  assumes "start_host W ws br b d = Inr (h, d1)"
  obtains p where "p \<in> set (host_rows ws br d)" "h = paID p" "d1 = d"
  | p where "host_rows ws br d = []" "h = paID p" "paWorkspace p = ws" "paBridge p = br" "paRole p = ''HOST''"
      "insert_participant p d = Some d1"
proof (cases "query_row W 2 (host_rows ws br d)")
  case NoRows
  let ?p = "\<lparr>paID = wid W 3, paWorkspace = ws, paBridge = br,
          paName = coalesce_text (brHostName b), paPhone = coalesce_text (brHostPhone b),
          paDesired = ''ACTIVE'', paRole = ''HOST''\<rparr>"
  have "h = wid W 3 \<and> sql_exec W 3 (insert_participant ?p) d = Inr d1"
    using assms NoRows by (simp add: start_host_def split: sum.splits)
  then show thesis
    using query_row_NoRows [OF NoRows] by (intro that(2) [where p = ?p]) (simp_all add: sql_exec_Inr)
next
  case (RowErr e)
  with assms show thesis by (simp add: start_host_def)
next
  case (Row p)
  then have "h = paID p" "d1 = d" using assms by (simp_all add: start_host_def)
  then show thesis by (rule that(1) [OF query_row_Row [OF Row]])
qed

lemma start_tx_cases:
  assumes "start_tx W ws br d = Inr (h, se, d4)"
  obtains b d1 d2 where "b \<in> set (room_rows ws br d)" "start_refusal b (roster_count ws br d) (room_tfn b d) = None"
    "start_host W ws br b d = Inr (h, d1)" "insert_session (started W ws br h) d1 = Some d2"
    "d4 = on_room ws br (\<lambda>b. b\<lparr>brState := ''STARTING''\<rparr>) d2" "se = wid W 4"
proof -
  from assms obtain b where b: "query_row W 1 (room_rows ws br d) = Row b"
    by (auto simp: start_tx_def split: if_splits fetched_row.splits)
  with assms have r: "start_refusal b (roster_count ws br d) (room_tfn b d) = None"
    by (auto simp: start_tx_def split: if_splits option.splits)
  with assms b obtain h1 d1 where h: "start_host W ws br b d = Inr (h1, d1)"
    by (auto simp: start_tx_def split: if_splits sum.splits)
  with assms b r obtain d2 where s: "insert_session (started W ws br h1) d1 = Some d2"
    by (auto simp: start_tx_def started_def sql_exec_Inr split: if_splits sum.splits)
  have "h1 = h \<and> d4 = on_room ws br (\<lambda>b. b\<lparr>brState := ''STARTING''\<rparr>) d2 \<and> se = wid W 4"
    using assms b r h s
    by (auto simp: start_tx_def started_def sql_exec_Inr sql_commit_Inr sql_exec_def split: if_splits sum.splits)
  with h s r query_row_Row [OF b] that show thesis by blast
qed

lemma start_host_changes:
  assumes "start_host W ws br b d = Inr (h, d1)" and "(br, ws) \<in> bkeys d"
  shows "changes {ws} d d1" and "(h, ws) \<in> pkeys d1"
proof -
  have "changes {ws} d d1 \<and> (h, ws) \<in> pkeys d1"
    using assms(1)
  proof (cases rule: start_host_cases)
    case (1 p)
    then show ?thesis by (auto simp: host_rows_def pkeys_def)
  next
    case (2 p)
    then show ?thesis using assms(2) by (auto simp: insert_participant_pkeys intro: add_participant_changes)
  qed
  then show "changes {ws} d d1" and "(h, ws) \<in> pkeys d1" by simp_all
qed

lemma start_tx_changes:
  assumes "start_tx W ws br d = Inr (h, se, d4)"
  shows "changes {ws} d d4" and "\<forall>s \<in> set (sessions d4). seID s = se \<longrightarrow> seWorkspace s = ws"
    and "se \<in> seID ` set (sessions d4)"
proof -
  from assms obtain b d1 d2 where b: "b \<in> set (room_rows ws br d)" and t: "start_host W ws br b d = Inr (h, d1)"
    "insert_session (started W ws br h) d1 = Some d2"
    "d4 = on_room ws br (\<lambda>b. b\<lparr>brState := ''STARTING''\<rparr>) d2" "se = wid W 4"
    by (cases rule: start_tx_cases)
  note host = start_host_changes [OF t(1) room_rows_bkeys [OF b]]
  have "(br, ws) \<in> bkeys d1" using room_rows_bkeys [OF b] changes_bkeys [OF host(1)] by simp
  then have "stmt {ws} d1 d2"
    by (intro stmt.add_session [OF t(2)]) (use host(2) in \<open>simp_all add: started_def\<close>)
  moreover have "stmt {ws} d2 d4"
    unfolding t(3) by (rule stmt_on_room) (simp_all add: bridge_kept_def)
  ultimately show "changes {ws} d d4"
    using host(1) by (blast intro: changes_step)
  have "seID s \<noteq> wid W 4" if "s \<in> set (sessions d1)" for s
    using insert_session_Some [OF t(2)] imageI [OF that, of seID] by (auto simp: started_def)
  then show "\<forall>s \<in> set (sessions d4). seID s = se \<longrightarrow> seWorkspace s = ws"
    using insert_session_Some [OF t(2)] by (auto simp: t(3,4) on_room_def started_def)
  show "se \<in> seID ` set (sessions d4)"
    using insert_session_Some [OF t(2)] by (auto simp: t(3,4) on_room_def started_def)
qed

lemma sql_try_sessions [simp]: "sessions (f d) = sessions d \<Longrightarrow> sessions (sql_try W k f d) = sessions d"
  by (simp add: sql_try_def)

lemma dispatch_noted_sessions [simp]: "sessions (dispatch_noted W k ws pid se c n ph ro d) = sessions d"
  by (simp add: dispatch_noted_def Let_def sql_try_def on_participant_def insert_attendance_def)

lemma dispatch_sessions:
  assumes "dispatchExistingParticipant W k F j ws br pid se d = (res, ps, d')"
  shows "sessions d' = sessions d \<and> bridges d' = bridges d"
  using assms
proof (cases rule: dispatch_cases)
  case (called p b n ns d1)
  have d1: "sessions d1 = sessions d" "bridges d1 = bridges d" using insert_leg_Some [OF called(14)] by simp_all
  then show ?thesis
    using called(16) by (auto simp: sql_try_def on_leg_def dispatch_noted_def on_participant_def
        insert_attendance_def Let_def)
qed simp

definition owns_session :: "activation \<Rightarrow> db \<Rightarrow> bool" where
  "owns_session a d \<longleftrightarrow> acSession a \<in> seID ` set (sessions d) \<and>
     (\<forall>s \<in> set (sessions d). seID s = acSession a \<longrightarrow> seWorkspace s = acWorkspace a)"

lemma startRoom_cases:
  assumes "startRoom W F ws br d = (r, act, ps, d')"
  obtains (refused) "act = None" "ps = []" "d' = d" "start_tx W ws br d = Inl r"
  | (undispatched) h d1 e d2 where "start_tx W ws br d = Inr (h, wid W 4, d1)"
      "dispatchExistingParticipant W 7 F 0 ws br h (wid W 4) d1 = (Inl e, ps, d2)" "act = None"
      "r = answer_error 502 (''host call could not be dispatched: '' @ e)"
      "d' = sql_try W 13 (on_room ws br (\<lambda>b. b\<lparr>brState := ''READY''\<rparr>))
              (sql_try W 12 (on_session (\<lambda>s. seID s = wid W 4)
                (\<lambda>s. s\<lparr>seStatus := ''FAILED'', seEnded := Some (wnow W 12), seDuration := Some 0\<rparr>)) d2)"
  | (started) h d1 c where "start_tx W ws br d = Inr (h, wid W 4, d1)"
      "dispatchExistingParticipant W 7 F 0 ws br h (wid W 4) d1 = (Inr c, ps, d')"
      "act = Some \<lparr>acSession = wid W 4, acWorkspace = ws, acBridge = br, acCall = dpCall c\<rparr>"
      "r = answer 202 [(''session_id'', JStr (wid W 4)), (''room_state'', JStr ''STARTING''),
              (''host'', JObj (dispatched_json c))]"
proof (cases "start_tx W ws br d")
  case (Inl r0)
  with assms refused show thesis by (simp add: startRoom_def)
next
  case (Inr x)
  obtain h se d1 where x: "x = (h, se, d1)" by (cases x)
  have se: "se = wid W 4" using Inr unfolding x by (cases rule: start_tx_cases)
  obtain res qs d2 where e: "dispatchExistingParticipant W 7 F 0 ws br h se d1 = (res, qs, d2)" by (metis prod_cases3)
  show thesis
  proof (cases res)
    case (Inl err)
    show thesis
      by (rule undispatched [of h d1 err d2]) (use assms Inr Inl x se e in \<open>simp_all add: startRoom_def Let_def\<close>)
  next
    case r: (Inr c)
    show thesis
      by (rule started [of h d1 c]) (use assms Inr r x se e in \<open>simp_all add: startRoom_def Let_def\<close>)
  qed
qed

lemma startRoom_changes:
  assumes "startRoom W F ws br d = (r, act, ps, d')"
  shows "changes {ws} d d'" and "\<And>a. act = Some a \<Longrightarrow> acWorkspace a = ws \<and> acBridge a = br \<and> owns_session a d'"
proof -
  have "changes {ws} d d' \<and> (\<forall>a. act = Some a \<longrightarrow> acWorkspace a = ws \<and> acBridge a = br \<and> owns_session a d')"
    using assms
  proof (cases rule: startRoom_cases)
    case refused
    then show ?thesis by simp
  next
    case (undispatched h d1 e d2)
    have own: "\<forall>s \<in> set (sessions d2). seID s = wid W 4 \<longrightarrow> seWorkspace s = ws"
      using start_tx_changes(2) [OF undispatched(1)] dispatch_sessions [OF undispatched(2)] by simp
    let ?f = "\<lambda>s. s\<lparr>seStatus := ''FAILED'', seEnded := Some (wnow W 12), seDuration := Some 0\<rparr>"
    have "stmt {ws} d2 (on_session (\<lambda>s. seID s = wid W 4) ?f d2)"
      by (rule stmt.session) (use own in \<open>auto simp: session_kept_def active_session_def\<close>)
    then have "changes {ws} d2 d'"
      unfolding undispatched(5)
      by (intro changes_trans [OF changes_try on_room_changes]) (simp_all add: bridge_kept_def)
    then show ?thesis
      using start_tx_changes(1) [OF undispatched(1)] dispatch_changes [OF undispatched(2)] undispatched(3)
      by (blast intro: changes_trans)
  next
    case (started h d1 c)
    have "owns_session \<lparr>acSession = wid W 4, acWorkspace = ws, acBridge = br, acCall = dpCall c\<rparr> d'"
      using start_tx_changes(2,3) [OF started(1)] dispatch_sessions [OF started(2)] by (simp add: owns_session_def)
    then show ?thesis
      using start_tx_changes(1) [OF started(1)] dispatch_changes [OF started(2)] started(3)
      by (auto intro: changes_trans)
  qed
  then show "changes {ws} d d'" and "\<And>a. act = Some a \<Longrightarrow> acWorkspace a = ws \<and> acBridge a = br \<and> owns_session a d'"
    by simp_all
qed

lemma dispatch_all_changes: "dispatch_all W F i a ids d = (ps, d') \<Longrightarrow> changes {acWorkspace a} d d'"
proof (induction ids arbitrary: i d ps)
  case (Cons pid ids)
  obtain r qs d1 where e: "dispatchExistingParticipant W (10 + 5 * i) F i (acWorkspace a) (acBridge a) pid (acSession a) d =
      (r, qs, d1)" by (metis prod_cases3)
  obtain rs d2 where "dispatch_all W F (Suc i) a ids d1 = (rs, d2)" by fastforce
  with Cons e show ?case by (auto intro: changes_trans [OF dispatch_changes [OF e]])
qed simp

lemma session_step:
  assumes "owns_session a d" and "session_kept f"
    and "\<And>s. seStatus s = ''STARTING'' \<Longrightarrow> active_session (seStatus (f s)) \<Longrightarrow> active_session (seStatus s)"
  shows "stmt {acWorkspace a} d (on_session (\<lambda>s. seID s = acSession a \<and> seStatus s = ''STARTING'') f d)"
  by (rule stmt.session) (use assms in \<open>auto simp: owns_session_def\<close>)

lemma activation_failed_changes: "owns_session a d \<Longrightarrow> changes {acWorkspace a} d (activation_failed W k a d)"
  unfolding activation_failed_def Let_def
  by (intro changes_trans [OF changes_try on_room_changes] session_step)
    (simp_all add: bridge_kept_def session_kept_def active_session_def)

lemma activate_tick_changes:
  assumes "activate_tick W F a d = (w, ps, d')" and "owns_session a d"
  shows "changes {acWorkspace a} d d'"
proof -
  let ?mine = "\<lambda>s. seID s = acSession a \<and> seStatus s = ''STARTING''"
  let ?d1 = "on_session ?mine (\<lambda>s. s\<lparr>seStatus := ''RUNNING''\<rparr>) d"
  let ?d2 = "sql_try W 2 (\<lambda>d. d\<lparr>bridges := update_where
               (\<lambda>b. brID b = acBridge a \<and> brWorkspace b = acWorkspace a \<and> brState b = ''STARTING'')
               (\<lambda>b. b\<lparr>brState := ''RUNNING''\<rparr>) (bridges d)\<rparr>) ?d1"
  have s1: "changes {acWorkspace a} d ?d1"
    by (intro changes_stmt session_step [OF assms(2)]) (simp_all add: session_kept_def active_session_def)
  have s2: "changes {acWorkspace a} ?d1 ?d2"
    by (intro changes_try stmt.room) (simp_all add: bridge_kept_def)
  consider "d' = d" | "d' = ?d1" | ids qs where "dispatch_all W F 0 a ids ?d2 = (qs, d')" | "d' = activation_failed W 1 a d"
    using assms(1) by (auto simp: activate_tick_def Let_def split: fetched_row.splits if_splits prod.splits)
  then show ?thesis
    by cases (use s1 s2 activation_failed_changes [OF assms(2)] in
        \<open>auto intro: changes_trans dispatch_all_changes\<close>)
qed

lemma drop_all_changes: "drop_all W F i ws ls d = (ps, d') \<Longrightarrow> changes {ws} d d'"
proof (induction ls arbitrary: i d ps)
  case (Cons l ls)
  obtain e qs d1 where e: "dropCall W (10 + i) F i ws l d = (e, qs, d1)" by (metis prod_cases3)
  obtain rs d2 where "drop_all W F (Suc i) ws ls d1 = (rs, d2)" by fastforce
  with Cons e show ?case by (auto intro: changes_trans [OF dropCall_changes [OF e]])
qed simp

lemma stopRoom_cases:
  assumes "stopRoom W F ws br d = (r, ps, d')"
  obtains (nothing) "active_sessions ws br d = [] \<or> wfail W 0" "ps = []" "d' = d"
  | (stopped) s d1 where "s \<in> set (active_sessions ws br d)"
      "\<exists>e. query_rows W 1 (live_legs ws br d) = Inl e \<and> ps = [] \<and> d1 = d \<or>
           query_rows W 1 (live_legs ws br d) = Inr (live_legs ws br d) \<and> drop_all W F 0 ws (live_legs ws br d) d = (ps, d1)"
      "d' = sql_try W 4 (on_room ws br (\<lambda>b. b\<lparr>brState := ''READY''\<rparr>)) (attend_until W 3 (seID s)
         (sql_try W 2 (on_session (\<lambda>t. seID t = seID s \<and> seWorkspace t = ws)
            (\<lambda>t. t\<lparr>seStatus := ''ENDED'', seEnded := Some (wnow W 2),
                  seDuration := Some (wseconds W (wnow W 2 - seStarted t))\<rparr>)) d1))"
proof (cases "query_row W 0 (rev (active_sessions ws br d))")
  case (Row s)
  have s: "s \<in> set (active_sessions ws br d)" using query_row_Row [OF Row] by simp
  show thesis
  proof (cases "query_rows W 1 (live_legs ws br d)")
    case (Inl e)
    show thesis
      by (rule stopped [OF s, of d]) (use assms Row Inl in \<open>auto simp: stopRoom_def Let_def\<close>)
  next
    case (Inr ls)
    then have ls: "ls = live_legs ws br d" by (simp add: query_rows_def split: if_splits)
    obtain qs d1 where e: "drop_all W F 0 ws (live_legs ws br d) d = (qs, d1)" by fastforce
    show thesis
      by (rule stopped [OF s, of d1]) (use assms Row Inr ls e in \<open>auto simp: stopRoom_def Let_def\<close>)
  qed
next
  case NoRows
  show thesis
    by (rule nothing) (use assms NoRows query_row_NoRows [OF NoRows] in \<open>auto simp: stopRoom_def\<close>)
next
  case (RowErr e)
  then have "wfail W 0" by (simp add: query_row_def split: if_splits list.splits)
  show thesis by (rule nothing) (use \<open>wfail W 0\<close> assms RowErr in \<open>auto simp: stopRoom_def\<close>)
qed

lemma stopRoom_changes:
  assumes "stopRoom W F ws br d = (r, ps, d')"
  shows "changes {ws} d d'"
  using assms
proof (cases rule: stopRoom_cases)
  case (stopped s d1)
  have "changes {ws} d d1" using stopped(2) drop_all_changes by auto
  also have "changes {ws} d1 d'"
    unfolding stopped(3)
    by (intro changes_trans [OF changes_try changes_trans [OF attend_until_changes on_room_changes]] stmt.session)
      (auto simp: bridge_kept_def session_kept_def active_session_def)
  finally show ?thesis .
qed simp

section \<open>Reports and digits\<close>

lemma finishHostSession_changes: "changes UNIV d (finishHostSession W k c st d)"
proof -
  have 1: "changes UNIV d (sql_try W (k + 1) (on_session (\<lambda>t. seID t = i \<and> active_session (seStatus t))
      (\<lambda>t. t\<lparr>seStatus := x, seEnded := y t, seDuration := z t\<rparr>)) d)" for i x y z d
    by (intro changes_try stmt.session) (auto simp: session_kept_def)
  have 2: "changes UNIV d (sql_try W (k + 3) (\<lambda>d. d\<lparr>bridges := update_where P
       (\<lambda>b. b\<lparr>brState := ''READY''\<rparr>) (bridges d)\<rparr>) d)" for P d
    by (intro changes_try stmt.room) (simp_all add: bridge_kept_def)
  show ?thesis
  proof (cases "query_row W k (host_sessions c d)")
    case (Row s)
    then show ?thesis
      using changes_trans [OF 1 changes_trans [OF attend_until_changes 2]]
      by (simp add: finishHostSession_def Let_def)
  qed (simp_all add: finishHostSession_def)
qed

lemma report_call_changes: "changes UNIV d (report_call W c st m d)"
proof -
  have 1: "changes UNIV d (sql_try W 0 (on_leg (\<lambda>l. lgID l = c) (leg_reported st m (wnow W 0))) d)" for d
    by (rule on_leg_changes) (simp_all add: leg_kept_def leg_reported_def)
  have 2: "changes UNIV d (sql_try W 1 (\<lambda>d. case List.find (\<lambda>l. lgID l = c) (legs d) of
                 None \<Rightarrow> d
               | Some l \<Rightarrow> d\<lparr>items := update_where (\<lambda>i. itParticipant i = Some (lgParticipant l))
                              (\<lambda>i. i\<lparr>itStatus := st\<rparr>) (items d)\<rparr>) d)" for d
    by (rule changes_try_opt) (auto split: option.splits intro: changes_stmt stmt.item)
  have 3: "changes UNIV d (sql_try W 2 (\<lambda>d. d\<lparr>attendance := update_where (\<lambda>a. atLeg a = Some c)
                 (attendance_reported st (wnow W 2)) (attendance d)\<rparr>) d)" for d
    by (intro changes_try stmt.attend)
  show ?thesis
    unfolding report_call_def Let_def
    by (rule changes_trans [OF 1 changes_trans [OF 2 changes_trans [OF 3 finishHostSession_changes]]])
qed

lemma events_changes: "events W ok i d = (r, d') \<Longrightarrow> changes UNIV d d'"
  by (auto simp: events_def Let_def split: if_splits option.splits intro: report_call_changes)

lemma lower_hand_changes: "changes {lgWorkspace l} d (lower_hand W l g d)"
proof -
  have "changes {lgWorkspace l} d (sql_try W 1 (on_request
      (\<lambda>r. rqWorkspace r = lgWorkspace l \<and> open_for (lgBridge l) (lgParticipant l) r) (withdrawn (wnow W 1))) d)" for d
    by (intro changes_try stmt.request) (auto simp: request_kept_def withdrawn_def open_for_def)
  moreover have "changes {lgWorkspace l} d (sql_try W 2 (\<lambda>d. d\<lparr>participants := update_where
      (\<lambda>p. paID p = lgParticipant l \<and> paWorkspace p = lgWorkspace l \<and> paDesired p = ''HAND_RAISED'')
      (\<lambda>p. p\<lparr>paDesired := ''MUTED''\<rparr>) (participants d)\<rparr>) d)" for d
    by (intro changes_try stmt.participant) (simp_all add: participant_kept_def)
  ultimately show ?thesis
    unfolding lower_hand_def Let_def by (meson changes_trans roomEvent_changes)
qed

lemma raise_hand_changes:
  assumes "raise_hand W l g d = Inr d'" and "consistent d" and "l \<in> set (legs d)"
  shows "changes {lgWorkspace l} d d'"
proof -
  let ?r = "\<lparr>rqID = wid W 1, rqWorkspace = lgWorkspace l, rqBridge = lgBridge l, rqParticipant = lgParticipant l,
          rqLeg = Some (lgID l), rqDigit = g, rqStatus = ''QUEUED'', rqGranted = None, rqWithdrawn = None,
          rqGrantedBy = None\<rparr>"
  obtain d1 where e: "enqueue ?r d = Some d1"
    and d': "d' = roomEvent W 3 (lgWorkspace l) (lgBridge l) (lgParticipant l) ''SPEAKER_REQUESTED'' [(''digit'', JStr g)]
       (sql_try W 2 (\<lambda>d. d\<lparr>participants := update_where
                 (\<lambda>p. paID p = lgParticipant l \<and> paWorkspace p = lgWorkspace l \<and>
                      paDesired p \<notin> {''DROPPED'', ''FAILED''})
                 (\<lambda>p. p\<lparr>paDesired := ''HAND_RAISED''\<rparr>) (participants d)\<rparr>) d1)"
    using assms(1) by (auto simp: raise_hand_def sql_exec_Inr Let_def split: sum.splits)
  have "(lgParticipant l, lgWorkspace l) \<in> pkeys d" "(lgID l, lgWorkspace l) \<in> lkeys d"
    using assms(2,3) by (auto simp: consistent_def lkeys_def)
  then have "changes {lgWorkspace l} d d1"
    using assms(3) by (intro changes_stmt stmt.add_request [OF e]) auto
  also have "changes {lgWorkspace l} d1 d'"
    unfolding d'
    by (intro changes_trans [OF changes_try roomEvent_changes] stmt.participant) (simp_all add: participant_kept_def)
  finally show ?thesis .
qed

lemma dtmf_cases:
  assumes "dtmf W ok i d = (r, d')"
  obtains (nothing) "d' = d"
  | (lowered) l g where "l \<in> set (legs d)" "\<not> terminal_leg (lgState l)" "d' = lower_hand W l g d"
  | (raised) l g where "l \<in> set (legs d)" "\<not> terminal_leg (lgState l)" "raise_hand W l g d = Inr d'"
proof (cases "d' = d")
  case False
  with assms obtain j where j: "i = Some j" by (auto simp: dtmf_def split: if_splits option.splits)
  with assms False obtain l where l: "query_row W 0 (dtmf_legs j d) = Row l"
    by (auto simp: dtmf_def split: if_splits fetched_row.splits)
  from query_row_Row [OF l] have m: "l \<in> set (legs d)" "\<not> terminal_leg (lgState l)" by (auto simp: dtmf_legs_def)
  show thesis
  proof (cases "dtDigit j = ''#''")
    case True
    show thesis
      by (rule lowered [OF m, of "''#''"]) (use assms False j l True in \<open>auto simp: dtmf_def split: if_splits\<close>)
  next
    case h: False
    show thesis
      by (rule raised [OF m, of "dtDigit j"]) (use assms False j l h in \<open>auto simp: dtmf_def split: if_splits sum.splits\<close>)
  qed
qed (rule nothing)

lemma dtmf_changes:
  assumes "dtmf W ok i d = (r, d')" and "consistent d"
  shows "changes UNIV d d'"
  using assms(1)
proof (cases rule: dtmf_cases)
  case (lowered l g)
  then show ?thesis using lower_hand_changes changes_mono [of _ UNIV] by blast
next
  case (raised l g)
  then show ?thesis using raise_hand_changes [OF raised(3) assms(2) raised(1)] changes_mono [of _ UNIV] by blast
qed simp

section \<open>The operator's actions\<close>

lemma withdraw_request_changes: "changes {ws} d (withdraw_request W ws q d)"
proof -
  have 1: "changes {ws} d (sql_try W 1 (on_request (\<lambda>r. rqID r = rqID q \<and> rqWorkspace r = ws \<and> open_request (rqStatus r))
      (withdrawn (wnow W 1))) d)"
    by (intro changes_try stmt.request) (auto simp: request_kept_def withdrawn_def)
  have 2: "changes {ws} d (sql_try W 2 (on_participant ws (rqParticipant q) (\<lambda>p. p\<lparr>paDesired := ''MUTED''\<rparr>)) d)" for d
    by (rule on_participant_changes) (simp_all add: participant_kept_def)
  show ?thesis
    unfolding withdraw_request_def Let_def by (rule changes_trans [OF 1 changes_trans [OF 2 roomEvent_changes]])
qed

lemma grant_noted_changes: "changes {ws} d (grant_noted W ws q c k d)"
proof -
  have 1: "changes {ws} d (sql_try W 4 (activate_request ws (rqID q) (wnow W 4)) d)"
    by (intro changes_try stmt.activate) simp
  have 2: "changes {ws} d (sql_try W 5 (on_participant ws (rqParticipant q) (\<lambda>p. p\<lparr>paDesired := ''ACTIVE''\<rparr>)) d)" for d
    by (rule on_participant_changes) (simp_all add: participant_kept_def)
  have 3: "changes {ws} d (sql_try W 6 (on_leg (\<lambda>l. lgID l = c \<and> lgWorkspace l = ws) (\<lambda>l. l\<lparr>lgMute := False\<rparr>)) d)" for d
    by (rule on_leg_changes) (simp_all add: leg_kept_def)
  show ?thesis
    unfolding grant_noted_def Let_def
    by (rule changes_trans [OF 1 changes_trans [OF 2 changes_trans [OF 3 roomEvent_changes]]])
qed

lemma grant_request_db:
  "grant_request W F m ws q d = (r, ps, d') \<Longrightarrow> d' = d \<or> (\<exists>c k. d' = grant_noted W ws q c k d)"
  by (auto simp: grant_request_def Let_def split: if_splits fetched_row.splits sum.splits option.splits)

lemma speakerRequestAction_changes:
  "speakerRequestAction W F m ws path d = (r, ps, d') \<Longrightarrow> changes {ws} d d'"
  by (auto simp: speakerRequestAction_def split: option.splits prod.splits fetched_row.splits if_splits
      intro: withdraw_request_changes grant_noted_changes dest!: grant_request_db)

lemma action_noted_changes: "changes {ws} d (action_noted W ws act c pid d)"
proof -
  have 1: "changes {ws} d (sql_try W 1 (on_leg (\<lambda>l. lgID l = c \<and> lgWorkspace l = ws) f) d)" if "leg_kept f" for f
    using that by (rule on_leg_changes) simp
  have 2: "changes {ws} d (sql_try W 2 (on_participant ws pid (\<lambda>p. p\<lparr>paDesired := st\<rparr>)) d)" for st d
    by (rule on_participant_changes) (simp_all add: participant_kept_def)
  show ?thesis
    unfolding action_noted_def Let_def
    by (intro changes_if changes_trans [OF 1 2]) (simp_all add: leg_kept_def)
qed

lemma live_action_changes: "live_action W F ws pid act d = (r, ps, d') \<Longrightarrow> changes {ws} d d'"
  by (auto simp: live_action_def Let_def split: fetched_row.splits option.splits intro: action_noted_changes)

lemma action_changes:
  assumes "action W F reading req ws meth path i d = (r, ps, d')"
  shows "changes {ws} d d'"
proof -
  consider "d' = d" | pid where "editRosterParticipant W ws pid i d = (r, d')"
    | pid where "addParticipant W F ws pid d = (r, ps, d')"
    | pid where "remove_participant W ws pid d = (r, d')"
    | pid act where "live_action W F ws pid act d = (r, ps, d')"
    using assms by (auto simp: action_def split: list.splits if_splits option.splits prod.splits)
  then show ?thesis
    by cases (auto intro: editRosterParticipant_changes addParticipant_changes remove_participant_changes
        live_action_changes)
qed

section \<open>A session stays with its workspace\<close>

lemma stmt_owns_session:
  assumes "owns_session a d" and "stmt A d d'"
  shows "owns_session a d'"
  using assms(2)
proof cases
  case (add_session s)
  from insert_session_Some [OF add_session(1)] assms(1) show ?thesis by (auto simp: owns_session_def)
next
  case (session f P)
  then have "seID ` set (sessions d') = seID ` set (sessions d)"
    by (simp add: on_session_def session_kept_def image_update_where)
  with session assms(1) show ?thesis
    by (auto simp: owns_session_def on_session_def session_kept_def set_update_where)
next
  case (delete P)
  then show ?thesis
    using assms(1) by (auto simp: owns_session_def delete_participants_def Let_def image_iff)
qed (use assms(1) in \<open>auto simp: owns_session_def insert_participant_def insert_leg_def on_leg_def enqueue_def
      on_request_def activate_request_def Let_def split: if_splits\<close>)

lemma changes_owns_session: "changes A d d' \<Longrightarrow> owns_session a d \<Longrightarrow> owns_session a d'"
  by (rule changes_preserve) (auto intro: stmt_owns_session)

end
