(* ===== verification/RoomSystem.thy ===== *)
theory RoomSystem
  imports RoomFacts
begin

text \<open>
  The rooms as a running system: the tables and the goroutines that wait for a host's answer. A step
  is a request of a workspace (\<open>tenant_step\<close>), an iteration or the end of a waiting goroutine, or a
  report from outside (an event of a sidecar, a digit of a caller), each with any world and any
  answer of the fleet. The reachable states are those after any sequence of steps.
\<close>

section \<open>Steps\<close>

record system =
  tables :: db
  waiting :: "activation list"

inductive tenant_step :: "string \<Rightarrow> system \<Rightarrow> system \<Rightarrow> bool" for ws where
  host: "host W del ws br i (tables S) = (r, d) \<Longrightarrow> tenant_step ws S (S\<lparr>tables := d\<rparr>)"
| settings: "bridgeSettings W ws br i' (tables S) = (r, d) \<Longrightarrow> tenant_step ws S (S\<lparr>tables := d\<rparr>)"
| add: "addRosterParticipant W ws br i (tables S) = (r, d) \<Longrightarrow> tenant_step ws S (S\<lparr>tables := d\<rparr>)"
| start: "startRoom W F ws br (tables S) = (r, act, ps, d) \<Longrightarrow>
     tenant_step ws S (S\<lparr>tables := d, waiting := waiting S @ (case act of None \<Rightarrow> [] | Some a \<Rightarrow> [a])\<rparr>)"
| stop: "stopRoom W F ws br (tables S) = (r, ps, d) \<Longrightarrow> tenant_step ws S (S\<lparr>tables := d\<rparr>)"
| dial: "dial W F ws br j (tables S) = (r, ps, d) \<Longrightarrow> tenant_step ws S (S\<lparr>tables := d\<rparr>)"
| action: "action W F reading require ws meth path i (tables S) = (r, ps, d) \<Longrightarrow> tenant_step ws S (S\<lparr>tables := d\<rparr>)"
| speaker: "speakerRequestAction W F setting ws path (tables S) = (r, ps, d) \<Longrightarrow> tenant_step ws S (S\<lparr>tables := d\<rparr>)"

inductive system_step :: "system \<Rightarrow> system \<Rightarrow> bool" where
  tenant: "tenant_step ws S S' \<Longrightarrow> system_step S S'"
| tick: "a \<in> set (waiting S) \<Longrightarrow> activate_tick W F a (tables S) = (Waiting, ps, d) \<Longrightarrow>
     system_step S (S\<lparr>tables := d\<rparr>)"
| settled: "a \<in> set (waiting S) \<Longrightarrow> activate_tick W F a (tables S) = (Finished, ps, d) \<Longrightarrow>
     system_step S (S\<lparr>tables := d, waiting := remove1 a (waiting S)\<rparr>)"
| timeout: "a \<in> set (waiting S) \<Longrightarrow>
     system_step S (S\<lparr>tables := activate_timeout W a (tables S), waiting := remove1 a (waiting S)\<rparr>)"
| report: "events W ok e (tables S) = (r, d) \<Longrightarrow> system_step S (S\<lparr>tables := d\<rparr>)"
| digit: "dtmf W ok i (tables S) = (r, d) \<Longrightarrow> system_step S (S\<lparr>tables := d\<rparr>)"

inductive_cases tenant_stepE: "tenant_step ws S S'"
inductive_cases system_stepE: "system_step S S'"

definition reachable_from :: "system \<Rightarrow> system \<Rightarrow> bool" where
  "reachable_from = system_step\<^sup>*\<^sup>*"

section \<open>Invariant\<close>

definition system_ok :: "system \<Rightarrow> bool" where
  "system_ok S \<longleftrightarrow> exclusive (tables S) \<and> consistent (tables S) \<and>
     (\<forall>a \<in> set (waiting S). owns_session a (tables S))"

lemma tenant_step_changes:
  "tenant_step ws S S' \<Longrightarrow> changes {ws} (tables S) (tables S') \<and>
     (\<forall>a \<in> set (waiting S'). a \<in> set (waiting S) \<or> owns_session a (tables S'))"
proof (erule tenant_stepE)
  fix W F br r act ps d
  assume "startRoom W F ws br (tables S) = (r, act, ps, d)"
    "S' = S\<lparr>tables := d, waiting := waiting S @ (case act of None \<Rightarrow> [] | Some a \<Rightarrow> [a])\<rparr>"
  then show ?thesis
    using startRoom_changes [of W F ws br "tables S" r act ps d] by (auto split: option.splits)
qed (auto dest: host_changes bridgeSettings_changes addRosterParticipant_changes stopRoom_changes dial_changes
      action_changes speakerRequestAction_changes)

lemma ok_changes:
  assumes "system_ok S" and "changes A (tables S) (tables S')"
    and "\<And>a. a \<in> set (waiting S') \<Longrightarrow> a \<in> set (waiting S) \<or> owns_session a (tables S')"
  shows "system_ok S'"
  unfolding system_ok_def
proof (intro conjI ballI)
  show "exclusive (tables S')" "consistent (tables S')"
    using assms(1,2) changes_exclusive changes_consistent by (auto simp: system_ok_def)
  fix a
  assume "a \<in> set (waiting S')"
  with assms show "owns_session a (tables S')"
    using changes_owns_session [OF assms(2)] by (auto simp: system_ok_def)
qed

lemma system_step_changes:
  assumes "system_ok S" and "system_step S S'"
  shows "changes UNIV (tables S) (tables S') \<and>
    (\<forall>a \<in> set (waiting S'). a \<in> set (waiting S) \<or> owns_session a (tables S'))"
  using assms(2)
proof cases
  case (tenant ws)
  then show ?thesis using tenant_step_changes changes_mono [of "{ws}" UNIV] by blast
next
  case (tick a W F ps d)
  then show ?thesis
    using activate_tick_changes [OF tick(3)] assms(1) changes_mono [of "{acWorkspace a}" UNIV]
    by (auto simp: system_ok_def)
next
  case (settled a W F ps d)
  then show ?thesis
    using activate_tick_changes [OF settled(3)] assms(1) changes_mono [of "{acWorkspace a}" UNIV]
    by (auto simp: system_ok_def dest: set_remove1_subset [THEN subsetD])
next
  case (timeout a W)
  then show ?thesis
    using activation_failed_changes assms(1) changes_mono [of "{acWorkspace a}" UNIV]
    by (auto simp: system_ok_def activate_timeout_def dest: set_remove1_subset [THEN subsetD])
next
  case (report W ok e r d)
  then show ?thesis by (auto dest: events_changes)
next
  case (digit W ok i r d)
  then show ?thesis using dtmf_changes assms(1) by (auto simp: system_ok_def)
qed

lemma system_step_ok: "system_ok S \<Longrightarrow> system_step S S' \<Longrightarrow> system_ok S'"
  using system_step_changes ok_changes by metis

lemma reachable_ok: "reachable_from S S' \<Longrightarrow> system_ok S \<Longrightarrow> system_ok S'"
  unfolding reachable_from_def by (induction rule: rtranclp_induct) (auto intro: system_step_ok)

end
