(* ===== verification/AccountProps.thy ===== *)
theory AccountProps
  imports Members
begin

text \<open>
  What the checks of the control API guarantee: a role is granted only to a live session with an
  active membership; the two logins never mix customers and product administrators; every route
  but the logins needs a session; the members of a workspace cannot reach its owners. Also what they
  do not guarantee: a member who was removed keeps the workspace until the session expires.
\<close>

section \<open>Lemmas\<close>

lemma live_login_Some:
  "live_login now m c = Some s \<longleftrightarrow> (\<exists>i. c = Some i \<and> m i = Some s \<and> now < liExpires s)"
  by (auto simp: live_login_def split: option.splits if_splits)

lemma query_row_Row_iff: "query_row W k rows = Row x \<longleftrightarrow> \<not> wfail W k \<and> rows \<noteq> [] \<and> hd rows = x"
  by (auto simp: query_row_def split: list.splits)

lemma query_row_in: "query_row W k rows = Row x \<Longrightarrow> x \<in> set rows"
  by (auto simp: query_row_Row_iff)

lemma workspace_param_active: "workspace_param W k r d = Some ws \<Longrightarrow> active_workspace ws d"
  by (auto simp: workspace_param_def active_workspace_def Let_def dest!: query_row_in
      split: if_splits fetched_row.splits)

lemma workspaceID_cases:
  assumes "workspaceID W k now r st d = Some ws"
  obtains (customer) s where "currentSession (now 0) r st = Some s" "ws = liWorkspace s" "ws \<noteq> ''''"
  | (admin) s where "currentAdminSession (now 1) r st = Some s" "active_workspace ws d"
  using assms
  by (auto simp: workspaceID_def Let_def split: option.splits if_splits dest: workspace_param_active)

lemma membership_Row:
  assumes "x \<in> set (membership ws opr acc d)"
  obtains m where "m \<in> set (members acc)" "member_of ws opr m" "wmRole m = x" "active_workspace ws d"
  using assms by (auto simp: membership_def active_workspace_def member_of_def split: if_splits)

definition caller_of :: "int \<Rightarrow> (string \<rightharpoonup> login_session) \<Rightarrow> string option \<Rightarrow> login_session \<Rightarrow> bool" where
  "caller_of now m c s \<longleftrightarrow> (\<exists>i. c = Some i \<and> m i = Some s \<and> now < liExpires s)"

definition member_with :: "string \<Rightarrow> string \<Rightarrow> string \<Rightarrow> accounts \<Rightarrow> bool" where
  "member_with ws opr role acc \<longleftrightarrow> \<lparr>wmWorkspace = ws, wmOperator = opr, wmRole = role\<rparr> \<in> set (members acc)"

lemma member_withI: "m \<in> set (members acc) \<Longrightarrow> member_of ws opr m \<Longrightarrow> member_with ws opr (wmRole m) acc"
  by (cases m) (auto simp: member_with_def member_of_def)

lemma member_with_iff:
  "member_with ws opr role acc \<longleftrightarrow> (\<exists>m \<in> set (members acc). wmWorkspace m = ws \<and> wmOperator m = opr \<and> wmRole m = role)"
proof
  assume "\<exists>m \<in> set (members acc). wmWorkspace m = ws \<and> wmOperator m = opr \<and> wmRole m = role"
  then obtain m where "m \<in> set (members acc)" "wmWorkspace m = ws" "wmOperator m = opr" "wmRole m = role" by blast
  moreover from this have "m = \<lparr>wmWorkspace = ws, wmOperator = opr, wmRole = role\<rparr>" by simp
  ultimately show "member_with ws opr role acc" by (simp add: member_with_def)
qed (force simp: member_with_def)

section \<open>Sample accounts\<close>

definition fine_world :: world where
  "fine_world = \<lparr>wfail = (\<lambda>_. False), wtext = (\<lambda>_. ''''), wnow = (\<lambda>_. 1000), wid = (\<lambda>_. ''n''), wseconds = (\<lambda>t. t)\<rparr>"

definition sample_tenants :: db where
  "sample_tenants =
     \<lparr>workspaces = [\<lparr>wsID = ''w'', wsSlug = ''operations'', wsName = ''Operations'', wsStatus = ''ACTIVE'', wsMax = 500\<rparr>,
        \<lparr>wsID = ''v'', wsSlug = ''closed'', wsName = ''Closed'', wsStatus = ''SUSPENDED'', wsMax = 500\<rparr>],
      tfns = [], bridges = [], participants = [], legs = [], sessions = [], attendance = [], requests = [],
      batches = [], items = [], eventlog = []\<rparr>"

definition sample_operator :: "string \<Rightarrow> string \<Rightarrow> operator_row" where
  "sample_operator u role = \<lparr>opID = u, opUsername = u, opHash = ''h'' @ u, opDisplay = '''', opPlatform = role, opStatus = ''ACTIVE''\<rparr>"

definition sample_accounts :: accounts where
  "sample_accounts =
     \<lparr>operators = [sample_operator ''root'' ''PLATFORM_OWNER'', sample_operator ''ann'' ''WORKSPACE_OPERATOR'',
        sample_operator ''bob'' ''WORKSPACE_OPERATOR''],
      members = [\<lparr>wmWorkspace = ''v'', wmOperator = ''ann'', wmRole = ''OWNER''\<rparr>,
        \<lparr>wmWorkspace = ''w'', wmOperator = ''ann'', wmRole = ''OWNER''\<rparr>,
        \<lparr>wmWorkspace = ''w'', wmOperator = ''bob'', wmRole = ''OPERATOR''\<rparr>]\<rparr>"

definition sample_login :: "string \<Rightarrow> string \<Rightarrow> login_session" where
  "sample_login u role = \<lparr>liExpires = 44200, liWorkspace = ''w'', liOperator = u, liUsername = u, liDisplay = u,
     liRole = role, liPlatform = False\<rparr>"

definition sample_web :: web where
  "sample_web = \<lparr>customers = [''a'' \<mapsto> sample_login ''ann'' ''OWNER'', ''b'' \<mapsto> sample_login ''bob'' ''OPERATOR''],
     admins = Map.empty\<rparr>"

definition sample_request :: "string \<Rightarrow> string \<Rightarrow> string \<Rightarrow> web_request" where
  "sample_request c meth path = \<lparr>wrCustomer = Some c, wrAdmin = None, wrWorkspace = '''', wrMethod = meth, wrPath = path\<rparr>"

lemmas account_samples = fine_world_def sample_tenants_def sample_operator_def sample_accounts_def
  sample_login_def sample_web_def sample_request_def

section \<open>Roles\<close>

text \<open>C31: \<open>requireWorkspaceRole\<close> grants a workspace and a role only to a live session: to a customer
  whose session is for that workspace, who at this moment is a member of it with that role, one of
  the roles asked for, while the workspace is active; or, as OWNER, to a product administrator, for
  an active workspace or for the workspace of a live customer session the request also carries.\<close>

theorem role_gate:
  assumes "requireWorkspaceRole W k now r st acc d allowed = Inr (ws, role)"
  shows "(\<exists>s. caller_of (now 1) (customers st) (wrCustomer r) s \<and> ws = liWorkspace s \<and> role \<in> set allowed \<and>
            member_with ws (liOperator s) role acc \<and> active_workspace ws d) \<or>
         (\<exists>s. caller_of (now 0) (admins st) (wrAdmin r) s \<and> role = ''OWNER'' \<and>
            (active_workspace ws d \<or>
             (\<exists>c. caller_of (now 1) (customers st) (wrCustomer r) c \<and> ws = liWorkspace c)))"
proof (cases "currentAdminSession (now 0) r st")
  case (Some a)
  then have a: "caller_of (now 0) (admins st) (wrAdmin r) a"
    by (simp add: caller_of_def currentAdminSession_def live_login_Some)
  have ws: "workspaceID W k (\<lambda>i. now (Suc i)) r st d = Some ws" and role: "role = ''OWNER''"
    using assms Some by (auto simp: requireWorkspaceRole_def split: option.splits)
  from ws have "active_workspace ws d \<or>
      (\<exists>c. caller_of (now 1) (customers st) (wrCustomer r) c \<and> ws = liWorkspace c)"
    by (cases rule: workspaceID_cases) (auto simp: caller_of_def currentSession_def live_login_Some)
  with a role show ?thesis by blast
next
  case None
  from assms obtain s where s: "currentSession (now 1) r st = Some s" "ws = liWorkspace s" "role \<in> set allowed"
    and row: "role \<in> set (membership (liWorkspace s) (liOperator s) acc d)"
    using None by (auto simp: requireWorkspaceRole_def dest!: query_row_in
        split: option.splits if_splits fetched_row.splits)
  have c: "caller_of (now 1) (customers st) (wrCustomer r) s"
    using s(1) by (simp add: caller_of_def currentSession_def live_login_Some)
  from row obtain m where "m \<in> set (members acc)" "member_of ws (liOperator s) m" "wmRole m = role" "active_workspace ws d"
    using s(2) by (auto elim: membership_Row)
  with c s show ?thesis using member_withI by blast
qed

lemma sample_role: "requireWorkspaceRole fine_world 1 (\<lambda>_. 2000) (sample_request ''a'' ''POST'' ''/'') sample_web
    sample_accounts sample_tenants [''OWNER'', ''ADMIN''] = Inr (''w'', ''OWNER'')"
  by (simp add: requireWorkspaceRole_def account_samples currentAdminSession_def currentSession_def live_login_def
      query_row_def membership_def member_of_def member_roles_def)

theorem role_gate_witness: "member_with ''w'' ''ann'' ''OWNER'' sample_accounts \<and> active_workspace ''w'' sample_tenants"
  using role_gate [OF sample_role]
  by (auto simp: caller_of_def account_samples)
section \<open>Logging in\<close>

lemma sorted_hd_le: "sorted (map f xs) \<Longrightarrow> y \<in> set xs \<Longrightarrow> f (hd xs) \<le> f y"
  by (cases xs) auto

lemma login_rows_Row:
  assumes "query_row W k (login_rows plan opr acc d) = Row (ws, role)" and "\<And>xs. set (plan xs) = set xs"
  shows "member_with ws opr role acc \<and> active_workspace ws d \<and>
    (\<forall>ws' role'. member_with ws' opr role' acc \<and> active_workspace ws' d \<longrightarrow> role_rank role \<le> role_rank role')"
proof -
  let ?rows = "login_rows plan opr acc d"
  have set: "(v, x) \<in> set ?rows \<longleftrightarrow> member_with v opr x acc \<and> active_workspace v d" for v x
    unfolding login_rows_def
    by (auto simp: assms(2) member_with_iff active_workspace_def)
  have hd: "hd ?rows = (ws, role)" and ne: "?rows \<noteq> []"
    using assms(1) by (simp_all add: query_row_Row_iff)
  have "sorted (map (\<lambda>(ws, role). role_rank role) ?rows)"
    by (simp add: login_rows_def)
  then have "role_rank role \<le> role_rank x" if "(v, x) \<in> set ?rows" for v x
    using sorted_hd_le [of "\<lambda>(ws, role). role_rank role" ?rows "(v, x)"] that hd by simp
  moreover have "(ws, role) \<in> set ?rows" using hd ne by (metis hd_in_set)
  ultimately show ?thesis by (auto simp: set)
qed

text \<open>A session as a login may store it.\<close>

definition customer_session ::
  "(string \<Rightarrow> string \<Rightarrow> bool) \<Rightarrow> credentials \<Rightarrow> int \<Rightarrow> accounts \<Rightarrow> db \<Rightarrow> login_session \<Rightarrow> bool" where
  "customer_session check i now acc d s \<longleftrightarrow>
     (\<exists>u \<in> set (operators acc). opUsername u = TrimSpace (crUsername i) \<and> opStatus u = ''ACTIVE'' \<and>
        check (opHash u) (crPassword i) \<and> \<not> product_role (opPlatform u) \<and> liOperator s = opID u) \<and>
     liExpires s = now + login_seconds \<and> \<not> liPlatform s \<and>
     member_with (liWorkspace s) (liOperator s) (liRole s) acc \<and> active_workspace (liWorkspace s) d \<and>
     (\<forall>ws role. member_with ws (liOperator s) role acc \<and> active_workspace ws d \<longrightarrow>
        role_rank (liRole s) \<le> role_rank role)"

definition product_session ::
  "(string \<Rightarrow> string \<Rightarrow> bool) \<Rightarrow> credentials \<Rightarrow> int \<Rightarrow> accounts \<Rightarrow> login_session \<Rightarrow> bool" where
  "product_session check i now acc s \<longleftrightarrow>
     (\<exists>u \<in> set (operators acc). opUsername u = TrimSpace (crUsername i) \<and> opStatus u = ''ACTIVE'' \<and>
        check (opHash u) (crPassword i) \<and> product_role (opPlatform u) \<and> liOperator s = opID u) \<and>
     liExpires s = now + login_seconds \<and> liPlatform s \<and> liWorkspace s = ''''"

lemma adminLogin_session:
  assumes "adminLogin W check (Some i) acc st = (r, Some ck, st')"
  shows "\<exists>s. product_session check i (wnow W 1) acc s \<and> st' = st\<lparr>admins := (admins st)(ckValue ck \<mapsto> s)\<rparr>"
proof -
  from assms obtain u where u: "query_row W 0 (operator_rows (TrimSpace (crUsername i)) acc) = Row u"
      "opStatus u = ''ACTIVE''" "check (opHash u) (crPassword i)" "product_role (opPlatform u)"
    by (auto simp: adminLogin_def Let_def split: if_splits fetched_row.splits)
  have mem: "u \<in> set (operators acc)" "opUsername u = TrimSpace (crUsername i)"
    using u(1) by (auto simp: operator_rows_def dest!: query_row_in)
  let ?s = "\<lparr>liExpires = wnow W 1 + login_seconds, liWorkspace = '''', liOperator = opID u,
    liUsername = TrimSpace (crUsername i), liDisplay = coalesce (opDisplay u) (crUsername i),
    liRole = '''', liPlatform = True\<rparr>"
  have "st' = st\<lparr>admins := (admins st)(ckValue ck \<mapsto> ?s)\<rparr>"
    using assms u by (auto simp: adminLogin_def Let_def split: if_splits)
  moreover have "product_session check i (wnow W 1) acc ?s"
    using mem u by (auto simp: product_session_def)
  ultimately show ?thesis by blast
qed

lemma login_session:
  assumes "login W check plan (Some i) acc d st = (r, Some ck, st')" and "\<And>xs. set (plan xs) = set xs"
  shows "\<exists>s. customer_session check i (wnow W 2) acc d s \<and> st' = st\<lparr>customers := (customers st)(ckValue ck \<mapsto> s)\<rparr>"
proof -
  from assms obtain u where u: "query_row W 0 (operator_rows (TrimSpace (crUsername i)) acc) = Row u"
      "opStatus u = ''ACTIVE''" "check (opHash u) (crPassword i)" "\<not> product_role (opPlatform u)"
    by (auto simp: login_def Let_def split: if_splits fetched_row.splits)
  with assms(1) obtain ws role where row: "query_row W 1 (login_rows plan (opID u) acc d) = Row (ws, role)"
    by (auto simp: login_def Let_def split: if_splits fetched_row.splits)
  have best: "member_with ws (opID u) role acc \<and> active_workspace ws d \<and>
    (\<forall>ws' role'. member_with ws' (opID u) role' acc \<and> active_workspace ws' d \<longrightarrow> role_rank role \<le> role_rank role')"
    by (rule login_rows_Row [OF row assms(2)])
  have mem: "u \<in> set (operators acc)" "opUsername u = TrimSpace (crUsername i)"
    using u(1) by (auto simp: operator_rows_def dest!: query_row_in)
  let ?s = "\<lparr>liExpires = wnow W 2 + login_seconds, liWorkspace = ws, liOperator = opID u,
    liUsername = TrimSpace (crUsername i), liDisplay = coalesce (opDisplay u) (TrimSpace (crUsername i)),
    liRole = role, liPlatform = False\<rparr>"
  have "st' = st\<lparr>customers := (customers st)(ckValue ck \<mapsto> ?s)\<rparr>"
    using assms(1) u row by (auto simp: login_def Let_def split: if_splits)
  moreover have "customer_session check i (wnow W 2) acc d ?s"
    using mem u best unfolding customer_session_def by (simp, blast)
  ultimately show ?thesis by blast
qed

text \<open>C34: a login that answers with a cookie has checked the password of an active account that is not
  a product administrator's, and the session it stores, for twelve hours, is for an active
  workspace in which the account has, at this moment, the role stored, the highest of its roles in
  active workspaces. A product administrator's session is stored only in the other map, for an
  active account with a product role, and has no workspace.\<close>

theorem login_sound:
  assumes "\<And>xs. set (plan xs) = set xs"
  shows "(login W check plan (Some i) acc d st = (r, Some ck, st') \<longrightarrow>
      (\<exists>s. customer_session check i (wnow W 2) acc d s \<and> st' = st\<lparr>customers := (customers st)(ckValue ck \<mapsto> s)\<rparr>)) \<and>
    (adminLogin W check (Some i) acc st = (r, Some ck, st') \<longrightarrow>
      (\<exists>s. product_session check i (wnow W 1) acc s \<and> st' = st\<lparr>admins := (admins st)(ckValue ck \<mapsto> s)\<rparr>))"
  using login_session [OF _ assms] adminLogin_session by blast

definition sample_credentials :: "string \<Rightarrow> credentials" where
  "sample_credentials u = \<lparr>crUsername = u, crPassword = ''secret-'' @ u\<rparr>"

definition sample_check :: "string \<Rightarrow> string \<Rightarrow> bool" where
  "sample_check h p \<longleftrightarrow> p = ''secret-'' @ drop 1 h"

theorem login_sound_witness:
  "\<exists>r st' s. login fine_world sample_check rev (Some (sample_credentials ''ann'')) sample_accounts sample_tenants sample_web
      = (r, Some \<lparr>ckName = ''phonarch_session'', ckValue = ''n'', ckMaxAge = 43200\<rparr>, st') \<and>
     customers st' ''n'' = Some s \<and> liWorkspace s = ''w'' \<and> liRole s = ''OWNER'' \<and> liExpires s = 44200"
proof -
  let ?l = "login fine_world sample_check rev (Some (sample_credentials ''ann'')) sample_accounts sample_tenants sample_web"
  let ?ck = "\<lparr>ckName = ''phonarch_session'', ckValue = ''n'', ckMaxAge = 43200\<rparr>"
  have t: "TrimSpace ''ann'' = ''ann''" by (rule TrimSpace_id) (simp add: space_byte_def go_spaces_def)
  have e: "?l = (answer 200 [(''status'', JStr ''ok'')], Some ?ck, snd (snd ?l))"
    by (simp add: login_def account_samples sample_credentials_def sample_check_def operator_rows_def
        query_row_def login_rows_def product_role_def t Let_def)
  obtain s where "customer_session sample_check (sample_credentials ''ann'') 1000 sample_accounts sample_tenants s"
      "snd (snd ?l) = sample_web\<lparr>customers := (customers sample_web)(''n'' \<mapsto> s)\<rparr>"
    using login_sound [of rev, THEN conjunct1, THEN mp, OF _ e] by (auto simp: fine_world_def)
  moreover from this(1) have "liWorkspace s = ''w''" "liRole s = ''OWNER''" "liExpires s = 44200"
    by (auto simp: customer_session_def member_with_def active_workspace_def account_samples
        sample_credentials_def t login_seconds_def)
  ultimately show ?thesis by (subst e) simp
qed
section \<open>Routes\<close>

lemma ends_slash: "HasSuffix s ''/'' \<longleftrightarrow> s \<noteq> [] \<and> last s = CHR ''/''"
  by (cases s rule: rev_cases) (auto simp: HasSuffix_def)

lemma mux_Some: "mux path = Some (pat, g) \<Longrightarrow> (pat, g) \<in> set routes \<and> route_matches path pat"
proof -
  assume m: "mux path = Some (pat, g)"
  let ?ms = "sort_key (\<lambda>(pat, g). - int (length pat)) (filter (\<lambda>(pat, g). route_matches path pat) routes)"
  from m obtain rest where "?ms = (pat, g) # rest" by (auto simp: mux_def split: list.splits)
  then have "(pat, g) \<in> set ?ms" by (metis list.set_intros(1))
  then show ?thesis by simp
qed

lemma mux_longest:
  assumes "mux path = Some (pat, g)" and "(pat', g') \<in> set routes" and "route_matches path pat'"
  shows "length pat' \<le> length pat"
proof -
  let ?ms = "sort_key (\<lambda>(pat, g). - int (length pat)) (filter (\<lambda>(pat, g). route_matches path pat) routes)"
  have hd: "hd ?ms = (pat, g)" using assms(1) by (auto simp: mux_def split: list.splits)
  have "sorted (map (\<lambda>(pat, g). - int (length pat)) ?ms)" by simp
  moreover have "(pat', g') \<in> set ?ms" using assms by simp
  ultimately show ?thesis
    using sorted_hd_le [of "\<lambda>(pat, g). - int (length pat)" ?ms "(pat', g')"] hd by simp
qed

text \<open>C32: without a live session no handler runs on a path under /api/v1/ except the two logins, and without a
  live product administrator's session none runs on a path under /api/v1/admin/.\<close>

theorem routes_guarded:
  assumes "guarded now internal r st = None"
  shows "(HasPrefix (wrPath r) ''/api/v1/'' \<and> wrPath r \<noteq> ''/api/v1/auth/login'' \<and> wrPath r \<noteq> ''/api/v1/auth/admin/login''
            \<longrightarrow> (\<exists>i s. caller_of (now i) (customers st) (wrCustomer r) s \<or> caller_of (now i) (admins st) (wrAdmin r) s)) \<and>
         (HasPrefix (wrPath r) ''/api/v1/admin/'' \<longrightarrow> (\<exists>s. caller_of (now 0) (admins st) (wrAdmin r) s))"
proof -
  obtain pat g where m: "mux (wrPath r) = Some (pat, g)"
    using assms by (auto simp: guarded_def split: option.splits)
  note route = mux_Some [OF m]
  have admin: "g = AdminGuard \<Longrightarrow> \<exists>s. caller_of (now 0) (admins st) (wrAdmin r) s"
    using assms m by (auto simp: guarded_def requirePlatformAdmin_def currentAdminSession_def live_login_Some
        caller_of_def split: if_splits)
  have session: "g = SessionGuard \<Longrightarrow>
      \<exists>i s. caller_of (now i) (customers st) (wrCustomer r) s \<or> caller_of (now i) (admins st) (wrAdmin r) s"
    using assms m by (auto simp: guarded_def require_def auth_def currentSession_def currentAdminSession_def
        live_login_Some caller_of_def split: if_splits)
  have login: "wrPath r = ''/api/v1/auth/login'' \<or> wrPath r = ''/api/v1/auth/admin/login''"
    if "HasPrefix (wrPath r) ''/api/v1/''" and "g = Unguarded \<or> g = InternalGuard"
    using route that by (auto simp: routes_def route_matches_def HasPrefix_iff ends_slash)
  have "g = AdminGuard" if a: "HasPrefix (wrPath r) ''/api/v1/admin/''"
  proof -
    have "route_matches (wrPath r) ''/api/v1/admin/''"
      using a by (simp add: route_matches_def ends_slash)
    then have "length ''/api/v1/admin/'' \<le> length pat"
      using mux_longest [OF m, of "''/api/v1/admin/''" AdminGuard] by (simp add: routes_def)
    then show ?thesis
      using route a by (auto simp: routes_def route_matches_def HasPrefix_iff ends_slash)
  qed
  then show ?thesis
    using admin session login by (cases g) blast+
qed

lemma sample_guarded: "guarded (\<lambda>_. 2000) False (sample_request ''a'' ''GET'' ''/api/v1/bridges/r1'') sample_web = None"
  by (simp add: guarded_def mux_def routes_def route_matches_def HasSuffix_def HasPrefix_def require_def auth_def
      account_samples currentSession_def live_login_def)

theorem routes_guarded_witness:
  "guarded (\<lambda>_. 2000) False (sample_request ''x'' ''GET'' ''/api/v1/bridges/r1'') sample_web =
     Some (answer_error 401 ''authentication required'') \<and>
   (\<exists>s. caller_of 2000 (customers sample_web) (Some ''a'') s)"
  using routes_guarded [OF sample_guarded]
  by (auto simp: HasPrefix_def sample_request_def caller_of_def sample_web_def guarded_def mux_def routes_def
      route_matches_def HasSuffix_def require_def auth_def currentSession_def currentAdminSession_def live_login_def)
section \<open>Owners and product administrators\<close>

text \<open>The keys of the two tables.\<close>

definition accounts_ok :: "accounts \<Rightarrow> bool" where
  "accounts_ok acc \<longleftrightarrow> distinct (map opID (operators acc)) \<and> distinct (map opUsername (operators acc)) \<and>
     distinct (map (\<lambda>m. (wmWorkspace m, wmOperator m)) (members acc)) \<and>
     (\<forall>m \<in> set (members acc). wmOperator m \<in> opID ` set (operators acc) \<and> wmRole m \<in> set member_roles)"

text \<open>The memberships that only product administrators may change.\<close>

definition protected_member :: "accounts \<Rightarrow> member_row \<Rightarrow> bool" where
  "protected_member acc m \<longleftrightarrow> wmRole m = ''OWNER'' \<or>
     (\<exists>u \<in> set (operators acc). opID u = wmOperator m \<and> product_role (opPlatform u))"

definition product_operators :: "accounts \<Rightarrow> operator_row list" where
  "product_operators acc = filter (\<lambda>u. product_role (opPlatform u)) (operators acc)"

text \<open>What a handler for workspace administrators may do to the accounts: \<open>opr\<close> is not protected in \<open>ws\<close>.\<close>

inductive member_change :: "string \<Rightarrow> accounts \<Rightarrow> accounts \<Rightarrow> bool" for ws acc where
  same: "member_change ws acc acc"
| created: "insert_operator u acc = Some acc1 \<Longrightarrow> insert_member d m acc1 = Some acc' \<Longrightarrow>
     opPlatform u = ''WORKSPACE_OPERATOR'' \<Longrightarrow> wmOperator m = opID u \<Longrightarrow> wmWorkspace m = ws \<Longrightarrow> wmRole m \<noteq> ''OWNER'' \<Longrightarrow>
     member_change ws acc acc'"
| removed: "\<forall>m \<in> set (members acc). member_of ws opr m \<longrightarrow> \<not> protected_member acc m \<Longrightarrow>
     member_change ws acc (acc\<lparr>members := filter (\<lambda>m. \<not> member_of ws opr m) (members acc)\<rparr>)"
| role: "\<forall>m \<in> set (members acc). member_of ws opr m \<longrightarrow> \<not> protected_member acc m \<Longrightarrow> role \<in> set member_roles \<Longrightarrow>
     role \<noteq> ''OWNER'' \<Longrightarrow>
     member_change ws acc (acc\<lparr>members := update_where (member_of ws opr) (\<lambda>m. m\<lparr>wmRole := role\<rparr>) (members acc)\<rparr>)"

lemma sql_exec_cases:
  assumes "sql_exec W k f x = Inr y"
  shows "f x = Some y"
  using assms by (auto simp: sql_exec_def split: if_splits option.splits)

lemma create_member_change: "member_change ws acc (snd (create_member W hashpw ws i d acc))"
proof -
  let ?u = "\<lambda>h. \<lparr>opID = wid W 3, opUsername = TrimSpace (uiUsername i), opHash = h,
                   opDisplay = TrimSpace (uiDisplay i), opPlatform = ''WORKSPACE_OPERATOR'', opStatus = ''ACTIVE''\<rparr>"
  let ?m = "\<lparr>wmWorkspace = ws, wmOperator = wid W 3, wmRole = granted_role (uiRole i)\<rparr>"
  have "member_change ws acc acc'"
    if "insert_operator (?u h) acc = Some acc1" "insert_member d ?m acc1 = Some acc'" for h acc1 acc'
    using that by (rule member_change.created) (simp_all add: granted_role_def)
  then show ?thesis
    by (auto simp: create_member_def Let_def sql_commit_def intro: member_change.same dest!: sql_exec_cases split: sum.splits if_splits)
qed

lemma workspaceMembers_change:
  assumes "workspaceMembers W now hashpw collate r st input d acc = (resp, acc')"
  obtains (same) "acc' = acc"
  | (changed) ws role where "requireWorkspace W 0 now r st d = Inr ws"
      "requireWorkspaceRole W 1 (\<lambda>i. now (i + 2)) r st acc d [''OWNER'', ''ADMIN''] = Inr role" "member_change ws acc acc'"
  using assms create_member_change [of _ acc W hashpw _ d]
  by (auto simp: workspaceMembers_def Let_def split: sum.splits if_splits option.splits) (metis snd_conv)+

lemma remove_member_change:
  assumes "\<forall>m \<in> set (members acc). member_of ws opr m \<longrightarrow> \<not> protected_member acc m"
  shows "member_change ws acc (snd (remove_member W ws opr acc))"
  using member_change.removed [OF assms]
  by (auto simp: remove_member_def sql_exec_def intro: member_change.same)

lemma change_member_change:
  assumes "\<forall>m \<in> set (members acc). member_of ws opr m \<longrightarrow> \<not> protected_member acc m"
  shows "member_change ws acc (snd (change_member W ws opr input acc))"
  using member_change.role [OF assms]
  by (auto simp: change_member_def sql_exec_def member_roles_def Let_def intro: member_change.same split: option.splits)

lemma unprotected:
  assumes ok: "accounts_ok acc" and row: "(u, m) \<in> set (member_operators ws acc)" "wmOperator m = opr" "\<not> member_protected (u, m)"
  shows "\<forall>m \<in> set (members acc). member_of ws opr m \<longrightarrow> \<not> protected_member acc m"
proof (intro ballI impI)
  fix m' assume m': "m' \<in> set (members acc)" "member_of ws opr m'"
  have m: "m \<in> set (members acc)" "wmWorkspace m = ws" "u \<in> set (operators acc)" "opID u = opr"
    using row by (auto simp: member_operators_def)
  have "m' = m"
    using ok m m' row(2) by (auto simp: accounts_ok_def distinct_map member_of_def dest: inj_onD)
  moreover have "u' = u" if "u' \<in> set (operators acc)" "opID u' = opr" for u'
    using ok m that by (auto simp: accounts_ok_def distinct_map dest: inj_onD)
  ultimately show "\<not> protected_member acc m'"
    using row by (auto simp: protected_member_def member_protected_def)
qed

lemma workspaceMember_change:
  assumes "workspaceMember W now r st inp d acc = (resp, acc')" and "accounts_ok acc"
  obtains (same) "acc' = acc"
  | (changed) ws role where "requireWorkspace W 0 now r st d = Inr ws"
      "requireWorkspaceRole W 1 (\<lambda>i. now (i + 2)) r st acc d [''OWNER'', ''ADMIN''] = Inr role" "member_change ws acc acc'"
proof (cases "requireWorkspace W 0 now r st d")
  case (Inl e)
  with assms same show thesis by (simp add: workspaceMember_def)
next
  case (Inr ws)
  let ?opr = "member_path (wrPath r)"
  let ?q = "query_row W 2 (filter (\<lambda>(u, m). wmOperator m = ?opr) (member_operators ws acc))"
  show thesis
  proof (cases "requireWorkspaceRole W 1 (\<lambda>i. now (i + 2)) r st acc d [''OWNER'', ''ADMIN'']")
    case (Inl e)
    with Inr assms same show thesis by (auto simp: workspaceMember_def Let_def split: if_splits)
  next
    case role: (Inr role)
    show thesis
    proof (cases "\<exists>u m. ?q = Row (u, m) \<and> \<not> member_protected (u, m)")
      case False
      with Inr role assms same show thesis
        by (auto simp: workspaceMember_def Let_def split: if_splits fetched_row.splits)
    next
      case True
      then obtain u m where um: "?q = Row (u, m)" "\<not> member_protected (u, m)" by blast
      then have "(u, m) \<in> set (member_operators ws acc)" "wmOperator m = ?opr"
        by (auto dest!: query_row_in)
      with um(2) assms(2) have free: "\<forall>m \<in> set (members acc). member_of ws ?opr m \<longrightarrow> \<not> protected_member acc m"
        by (intro unprotected)
      have "acc' = acc \<or> acc' = snd (remove_member W ws ?opr acc) \<or> acc' = snd (change_member W ws ?opr inp acc)"
        using Inr role um assms(1) by (auto simp: workspaceMember_def Let_def split: if_splits)
      with remove_member_change [OF free] change_member_change [OF free] changed [OF Inr role] same
      show thesis by blast
    qed
  qed
qed

lemma member_change_ok: "member_change ws acc acc' \<Longrightarrow> accounts_ok acc \<Longrightarrow> accounts_ok acc'"
proof (induction rule: member_change.induct)
  case (created u acc1 d m acc')
  then show ?case
    by (auto simp: accounts_ok_def insert_operator_def insert_member_def split: if_splits)
next
  case (removed opr)
  then show ?case by (auto simp: accounts_ok_def distinct_map_filter)
next
  case (role opr x)
  have keys: "map (\<lambda>m. (wmWorkspace m, wmOperator m)) (update_where (member_of ws opr) (\<lambda>m. m\<lparr>wmRole := x\<rparr>) (members acc)) =
    map (\<lambda>m. (wmWorkspace m, wmOperator m)) (members acc)"
    by (simp add: update_where_def)
  have "wmOperator m \<in> opID ` set (operators acc) \<and> wmRole m \<in> set member_roles"
    if "m \<in> set (update_where (member_of ws opr) (\<lambda>m. m\<lparr>wmRole := x\<rparr>) (members acc))" for m
    using role that by (auto simp: accounts_ok_def update_where_def)
  with role(4) keys show ?case unfolding accounts_ok_def by simp
qed

lemma filter_update_none: "(\<And>x. x \<in> set xs \<Longrightarrow> P x \<Longrightarrow> \<not> Q x \<and> \<not> Q (f x)) \<Longrightarrow>
    filter Q (update_where P f xs) = filter Q xs"
  by (induction xs) (auto simp: update_where_def)

lemma filter_filter_none: "(\<And>x. x \<in> set xs \<Longrightarrow> Q x \<Longrightarrow> P x) \<Longrightarrow> filter Q (filter P xs) = filter Q xs"
  by (induction xs) auto

lemma member_change_protected:
  assumes "member_change ws acc acc'" and "accounts_ok acc"
  shows "filter (protected_member acc') (members acc') = filter (protected_member acc) (members acc) \<and>
    product_operators acc' = product_operators acc \<and>
    (\<forall>m. wmWorkspace m \<noteq> ws \<longrightarrow> (m \<in> set (members acc') \<longleftrightarrow> m \<in> set (members acc)))"
  using assms
proof (induction rule: member_change.induct)
  case same
  then show ?case by simp
next
  case (created u acc1 d m acc')
  have new: "operators acc' = operators acc @ [u]" "members acc' = members acc @ [m]" "opID u \<notin> opID ` set (operators acc)"
    using created by (auto simp: insert_operator_def insert_member_def split: if_splits)
  have other: "opID v \<noteq> opID u" if "v \<in> set (operators acc)" for v
    using new(3) imageI [OF that, of opID] by metis
  have "\<not> protected_member acc' m"
    using created(3,4,6) new(1) other by (auto simp: protected_member_def product_role_def)
  moreover have "protected_member acc' x \<longleftrightarrow> protected_member acc x" if "x \<in> set (members acc)" for x
    using created new that by (auto simp: protected_member_def product_role_def)
  ultimately show ?case
    using created new by (auto simp: product_operators_def product_role_def intro: filter_cong)
next
  case (removed opr)
  have "protected_member (acc\<lparr>members := ms\<rparr>) = protected_member acc" for ms
    by (auto simp: protected_member_def fun_eq_iff)
  moreover have "filter (protected_member acc) (filter (\<lambda>m. \<not> member_of ws opr m) (members acc)) =
      filter (protected_member acc) (members acc)"
    using removed(1) by (intro filter_filter_none) blast
  ultimately show ?case
    by (simp add: product_operators_def) (auto simp: member_of_def)
next
  case (role opr x)
  have same: "protected_member (acc\<lparr>members := ms\<rparr>) = protected_member acc" for ms
    by (auto simp: protected_member_def fun_eq_iff)
  have "\<not> protected_member acc (m\<lparr>wmRole := x\<rparr>)" if "m \<in> set (members acc)" "member_of ws opr m" for m
    using role that by (auto simp: protected_member_def)
  then have "filter (protected_member acc) (update_where (member_of ws opr) (\<lambda>m. m\<lparr>wmRole := x\<rparr>) (members acc)) =
      filter (protected_member acc) (members acc)"
    using role by (intro filter_update_none) blast
  then show ?case
    by (simp add: same product_operators_def) (auto simp: update_where_def member_of_def image_iff)
qed

text \<open>C33: no request to the two endpoints that manage a workspace's users changes, adds or removes an
  ownership or a membership of a product administrator, touches a product administrator's account
  or a membership of another workspace, or breaks a key; and one that changes anything was
  authorised as OWNER or ADMIN.\<close>

theorem owners_protected:
  assumes "accounts_ok acc"
    and "acc' = snd (workspaceMembers W now hashpw collate r st i d acc) \<or> acc' = snd (workspaceMember W now r st role d acc)"
  shows "accounts_ok acc' \<and> filter (protected_member acc') (members acc') = filter (protected_member acc) (members acc) \<and>
    product_operators acc' = product_operators acc \<and>
    (acc' \<noteq> acc \<longrightarrow> (\<exists>ws x. requireWorkspace W 0 now r st d = Inr ws \<and>
       requireWorkspaceRole W 1 (\<lambda>i. now (i + 2)) r st acc d [''OWNER'', ''ADMIN''] = Inr x \<and>
       (\<forall>m. wmWorkspace m \<noteq> ws \<longrightarrow> (m \<in> set (members acc') \<longleftrightarrow> m \<in> set (members acc)))))"
proof -
  consider "acc' = acc"
    | (changed) ws x where "requireWorkspace W 0 now r st d = Inr ws"
      "requireWorkspaceRole W 1 (\<lambda>i. now (i + 2)) r st acc d [''OWNER'', ''ADMIN''] = Inr x" "member_change ws acc acc'"
    using assms(2)
  proof (elim disjE)
    assume "acc' = snd (workspaceMembers W now hashpw collate r st i d acc)"
    then have "workspaceMembers W now hashpw collate r st i d acc =
        (fst (workspaceMembers W now hashpw collate r st i d acc), acc')" by simp
    then show thesis by (rule workspaceMembers_change) (use that in blast)+
  next
    assume "acc' = snd (workspaceMember W now r st role d acc)"
    then have "workspaceMember W now r st role d acc = (fst (workspaceMember W now r st role d acc), acc')" by simp
    then show thesis by (rule workspaceMember_change [OF _ assms(1)]) (use that in blast)+
  qed
  then show ?thesis
  proof cases
    case 1
    with assms(1) show ?thesis by simp
  next
    case changed
    with member_change_ok [OF changed(3) assms(1)] member_change_protected [OF changed(3) assms(1)]
    show ?thesis by blast
  qed
qed
lemma sample_accounts_ok: "accounts_ok sample_accounts"
  by (simp add: accounts_ok_def account_samples member_roles_def)

lemma sample_path: "member_path ''/api/v1/workspace/members/bob'' = ''bob''"
  by (simp add: member_path_def Trim_def TrimRight_def TrimLeft_def TrimPrefix_def HasPrefix_def)

definition sample_removed :: accounts where
  "sample_removed = sample_accounts\<lparr>members := take 2 (members sample_accounts)\<rparr>"

lemma sample_removal:
  "workspaceMember fine_world (\<lambda>_. 2000) (sample_request ''a'' ''DELETE'' ''/api/v1/workspace/members/bob'') sample_web
     None sample_tenants sample_accounts =
   (answer 200 [(''status'', JStr ''removed''), (''operator_id'', JStr ''bob'')], sample_removed)"
  by (simp add: workspaceMember_def requireWorkspace_def workspaceID_def requireWorkspaceRole_def account_samples
      sample_removed_def currentAdminSession_def currentSession_def live_login_def query_row_def membership_def
      member_of_def member_roles_def sample_path member_operators_def member_protected_def product_role_def
      remove_member_def sql_exec_def Let_def)

theorem owners_protected_witness:
  "members sample_removed \<noteq> members sample_accounts \<and>
   filter (protected_member sample_removed) (members sample_removed) = take 2 (members sample_accounts) \<and>
   filter (protected_member sample_accounts) (members sample_accounts) = take 2 (members sample_accounts)"
proof -
  have "sample_removed = snd (workspaceMember fine_world (\<lambda>_. 2000)
      (sample_request ''a'' ''DELETE'' ''/api/v1/workspace/members/bob'') sample_web None sample_tenants sample_accounts)"
    by (simp only: sample_removal snd_conv)
  then have "filter (protected_member sample_removed) (members sample_removed) =
      filter (protected_member sample_accounts) (members sample_accounts)"
    using owners_protected [OF sample_accounts_ok disjI2] by blast
  then show ?thesis
    by (auto simp: sample_removed_def sample_accounts_def protected_member_def product_role_def sample_operator_def)
qed

section \<open>What removal does not do\<close>

text \<open>C38: a member who was removed, or whose workspace was suspended, keeps the workspace: the
  session's workspace is still accepted by every handler that asks for no role, until the session
  expires or is logged out, while \<open>requireWorkspaceRole\<close> refuses.\<close>

theorem removed_member_keeps_workspace:
  assumes "caller_of (now 0) (customers st) (wrCustomer r) s" and "liWorkspace s \<noteq> ''''"
  shows "requireWorkspace W k now r st d = Inr (liWorkspace s) \<and> require now r st = None \<and>
    (caller_of (now 1) (customers st) (wrCustomer r) s \<and> wrAdmin r = None \<and> \<not> wfail W k \<and>
       (\<not> active_workspace (liWorkspace s) d \<or> \<not> (\<exists>role. member_with (liWorkspace s) (liOperator s) role acc)) \<longrightarrow>
     requireWorkspaceRole W k now r st acc d allowed = Inl (answer_error 403 ''workspace access is no longer active''))"
proof (intro conjI impI)
  have s: "currentSession (now 0) r st = Some s"
    using assms(1) by (simp add: currentSession_def live_login_Some caller_of_def)
  with assms(2) show "requireWorkspace W k now r st d = Inr (liWorkspace s)"
    by (simp add: requireWorkspace_def workspaceID_def)
  show "require now r st = None"
    using s by (simp add: require_def auth_def)
next
  assume h: "caller_of (now 1) (customers st) (wrCustomer r) s \<and> wrAdmin r = None \<and> \<not> wfail W k \<and>
     (\<not> active_workspace (liWorkspace s) d \<or> \<not> (\<exists>role. member_with (liWorkspace s) (liOperator s) role acc))"
  have "membership (liWorkspace s) (liOperator s) acc d = []"
    using h by (auto simp: membership_def member_of_def member_with_iff active_workspace_def)
  moreover have "currentSession (now 1) r st = Some s"
    using h by (simp add: currentSession_def live_login_Some caller_of_def)
  moreover have "currentAdminSession (now 0) r st = None"
    using h by (simp add: currentAdminSession_def live_login_def)
  ultimately show "requireWorkspaceRole W k now r st acc d allowed = Inl (answer_error 403 ''workspace access is no longer active'')"
    using assms(2) h by (simp add: requireWorkspaceRole_def query_row_def)
qed

theorem removed_member_keeps_workspace_witness:
  "requireWorkspace fine_world 0 (\<lambda>_. 2000) (sample_request ''b'' ''POST'' ''/'') sample_web sample_tenants = Inr ''w'' \<and>
   requireWorkspaceRole fine_world 1 (\<lambda>_. 2000) (sample_request ''b'' ''POST'' ''/'') sample_web sample_removed
     sample_tenants [''OPERATOR''] = Inl (answer_error 403 ''workspace access is no longer active'')"
proof -
  have s: "caller_of 2000 (customers sample_web) (wrCustomer (sample_request ''b'' ''POST'' ''/'')) (sample_login ''bob'' ''OPERATOR'')"
    by (simp add: caller_of_def account_samples)
  have gone: "\<not> (\<exists>role. member_with (liWorkspace (sample_login ''bob'' ''OPERATOR'')) (liOperator (sample_login ''bob'' ''OPERATOR''))
      role sample_removed)"
    by (simp add: member_with_iff sample_removed_def account_samples)
  show ?thesis
    using removed_member_keeps_workspace [where now = "\<lambda>_. 2000" and st = sample_web and r = "sample_request ''b'' ''POST'' ''/''"
        and s = "sample_login ''bob'' ''OPERATOR''" and W = fine_world and d = sample_tenants and acc = sample_removed and k = 1
        and allowed = "[''OPERATOR'']"]
      removed_member_keeps_workspace [where now = "\<lambda>_. 2000" and st = sample_web and r = "sample_request ''b'' ''POST'' ''/''"
        and s = "sample_login ''bob'' ''OPERATOR''" and W = fine_world and d = sample_tenants and k = 0]
      s gone by (simp add: sample_login_def sample_request_def fine_world_def)
qed

end
