(* ===== verification/PlatformSteps.thy ===== *)
theory PlatformSteps
  imports RoomList RoomSystem AccountProps
begin

text \<open>
  The whole control API as a running system: the rooms (theory RoomSystem) and the handlers that
  create, configure, import into and delete rooms, workspaces and telephone numbers. The statements
  of those handlers are the step relation \<open>config\<close>, beside \<open>stmt\<close> of the room handlers. The theory
  shows that every handler is a sequence of such steps, and that the steps keep the inventory: the
  keys of the tables, the limits, and every room's telephone number an active number of the room's
  own workspace that no other room has.
\<close>

section \<open>The inventory\<close>

definition tfn_ok :: "tfn_row \<Rightarrow> bool" where
  "tfn_ok t \<longleftrightarrow> dialable (tfNumber t) \<and> canonicalE164 (tfNumber t) = tfNumber t"

definition has_tfn :: "tfn_row list \<Rightarrow> string \<Rightarrow> string \<Rightarrow> bool" where
  "has_tfn ts ws t \<longleftrightarrow> (\<exists>r \<in> set ts. tfID r = t \<and> tfWorkspace r = ws \<and> tfStatus r = ''ACTIVE'')"

definition room_ok :: "tfn_row list \<Rightarrow> bridge_row list \<Rightarrow> bridge_row \<Rightarrow> bool" where
  "room_ok ts bs b \<longleftrightarrow> limit_ok (brLimit b) \<and>
     (\<forall>t. brTfn b = Some t \<longrightarrow> has_tfn ts (brWorkspace b) t \<and> (\<forall>c \<in> set bs. brTfn c = Some t \<longrightarrow> brID c = brID b))"

definition inventory :: "db \<Rightarrow> bool" where
  "inventory d \<longleftrightarrow>
     distinct (map wsID (workspaces d)) \<and> distinct (map wsSlug (workspaces d)) \<and>
     distinct (map brID (bridges d)) \<and> distinct (map tfID (tfns d)) \<and>
     distinct (map (\<lambda>t. (tfWorkspace t, tfNumber t)) (tfns d)) \<and>
     (\<forall>w \<in> set (workspaces d). limit_ok (wsMax w)) \<and> (\<forall>t \<in> set (tfns d). tfn_ok t) \<and>
     (\<forall>b \<in> set (bridges d). room_ok (tfns d) (bridges d) b)"

lemma room_okI:
  "limit_ok (brLimit b) \<Longrightarrow> (\<And>t. brTfn b = Some t \<Longrightarrow> has_tfn ts (brWorkspace b) t) \<Longrightarrow>
   (\<And>t c. brTfn b = Some t \<Longrightarrow> c \<in> set bs \<Longrightarrow> brTfn c = Some t \<Longrightarrow> brID c = brID b) \<Longrightarrow> room_ok ts bs b"
  by (simp add: room_ok_def)

lemma room_okD:
  assumes "room_ok ts bs b"
  shows "limit_ok (brLimit b)" "brTfn b = Some t \<Longrightarrow> has_tfn ts (brWorkspace b) t"
    "brTfn b = Some t \<Longrightarrow> c \<in> set bs \<Longrightarrow> brTfn c = Some t \<Longrightarrow> brID c = brID b"
  using assms by (simp_all add: room_ok_def)

section \<open>Statements\<close>

inductive config :: "db \<Rightarrow> db \<Rightarrow> bool" where
  workspace: "insert_workspace w d = Some d' \<Longrightarrow> config d d'"
| workspace_update: "(\<And>w. wsID (f w) = wsID w \<and> wsSlug (f w) = wsSlug w) \<Longrightarrow> (\<And>w. limit_ok (wsMax w) \<Longrightarrow> limit_ok (wsMax (f w))) \<Longrightarrow>
     config d (d\<lparr>workspaces := update_where P f (workspaces d)\<rparr>)"
| room: "insert_bridge lo (new_room i ws name limit) d = Some d' \<Longrightarrow> config d d'"
| room_update: "update_room lo rid name limit tfn d = Some d' \<Longrightarrow>
     (\<And>t. tfn = Some t \<Longrightarrow> \<exists>b \<in> set (bridges d). brID b = rid \<and> has_tfn (tfns d) (brWorkspace b) t) \<Longrightarrow> config d d'"
| tfn: "insert_tfn t d = Some d' \<Longrightarrow> tfn_ok t \<Longrightarrow> config d d'"
| tfn_delete: "config d (d\<lparr>tfns := filter (\<lambda>t. \<not> free_tfn tid ws d t) (tfns d)\<rparr>)"
| room_delete: "config d (delete_room br d)"
| imported: "config d (d\<lparr>batches := bs\<rparr>)"

definition platform_change :: "db \<Rightarrow> db \<Rightarrow> bool" where
  "platform_change = (\<lambda>d d'. stmt UNIV d d' \<or> config d d')\<^sup>*\<^sup>*"

lemma platform_refl [simp, intro]: "platform_change d d"
  by (simp add: platform_change_def)

lemma platform_trans: "platform_change d e \<Longrightarrow> platform_change e f \<Longrightarrow> platform_change d f"
  unfolding platform_change_def by (rule rtranclp_trans)

lemma platform_config: "config d d' \<Longrightarrow> platform_change d d'"
  unfolding platform_change_def by (rule r_into_rtranclp) blast

lemma platform_changes: "changes A d d' \<Longrightarrow> platform_change d d'"
proof -
  assume "changes A d d'"
  then have "changes UNIV d d'" by (rule changes_mono [rotated]) simp
  then show ?thesis
    unfolding changes_def platform_change_def by (rule rtranclp_mono [THEN predicate2D, rotated]) blast
qed

lemma platform_preserve:
  assumes "platform_change d d'" and "I d"
    and "\<And>e f. I e \<Longrightarrow> stmt UNIV e f \<Longrightarrow> I f" and "\<And>e f. I e \<Longrightarrow> config e f \<Longrightarrow> I f"
  shows "I d'"
  using assms(1,2) unfolding platform_change_def
  by (induction rule: rtranclp_induct) (use assms(3,4) in blast)+

section \<open>Preservation\<close>

text \<open>Room handlers leave workspaces, numbers and the assignment of numbers alone.\<close>

definition room_key :: "bridge_row \<Rightarrow> string \<times> string \<times> string option \<times> int" where
  "room_key b = (brID b, brWorkspace b, brTfn b, brLimit b)"

lemma stmt_inventory:
  assumes "stmt A d d'"
  shows "workspaces d' = workspaces d \<and> tfns d' = tfns d \<and> map room_key (bridges d') = map room_key (bridges d)"
  using assms
proof cases
  case (room f P)
  then show ?thesis by (simp add: room_key_def bridge_kept_def map_update_where)
qed (auto simp: insert_participant_def insert_leg_def on_leg_def insert_session_def
      on_session_def enqueue_def on_request_def activate_request_def Let_def split: if_splits)

lemma inventory_cong:
  assumes "inventory d" "workspaces d' = workspaces d" "tfns d' = tfns d"
    "map room_key (bridges d') = map room_key (bridges d)"
  shows "inventory d'"
proof -
  have "map fst (map room_key (bridges d')) = map fst (map room_key (bridges d))"
    unfolding assms(4) ..
  then have ids: "map brID (bridges d') = map brID (bridges d)"
    by (simp add: room_key_def comp_def)
  have same: "room_key ` set (bridges d') = room_key ` set (bridges d)"
    using arg_cong [OF assms(4), of set] by simp
  have old: "\<exists>c \<in> set (bridges d). room_key c = room_key b" if "b \<in> set (bridges d')" for b
    using same that by (metis imageE imageI)
  have "room_ok (tfns d) (bridges d') b" if b: "b \<in> set (bridges d')" for b
  proof -
    obtain b0 where b0: "b0 \<in> set (bridges d)" "room_key b0 = room_key b" using old [OF b] by blast
    then have ok: "room_ok (tfns d) (bridges d) b0" using assms(1) by (simp add: inventory_def)
    have key: "brID b0 = brID b" "brWorkspace b0 = brWorkspace b" "brTfn b0 = brTfn b" "brLimit b0 = brLimit b"
      using b0(2) by (simp_all add: room_key_def)
    show ?thesis
    proof (rule room_okI)
      fix t c assume c: "brTfn b = Some t" "c \<in> set (bridges d')" "brTfn c = Some t"
      obtain c0 where "c0 \<in> set (bridges d)" "room_key c0 = room_key c" using old [OF c(2)] by blast
      with room_okD(3) [OF ok, of t c0] c key show "brID c = brID b" by (simp add: room_key_def)
    qed (use room_okD [OF ok] key in auto)
  qed
  with assms(1-3) ids show ?thesis by (simp add: inventory_def)
qed

lemma delete_room_simps [simp]:
  "workspaces (delete_room br d) = workspaces d"
  "tfns (delete_room br d) = tfns d"
  "bridges (delete_room br d) = filter (\<lambda>b. brID b \<noteq> br) (bridges d)"
  "participants (delete_room br d) = filter (\<lambda>p. paBridge p \<noteq> br) (participants d)"
  by (simp_all add: delete_room_def Let_def)

lemma config_inventory:
  assumes "inventory d" and "config d d'"
  shows "inventory d'"
  using assms(2)
proof cases
  case (workspace w)
  then have "d' = d\<lparr>workspaces := workspaces d @ [w]\<rparr>" "wsID w \<notin> wsID ` set (workspaces d)"
      "wsSlug w \<notin> wsSlug ` set (workspaces d)" "limit_ok (wsMax w)"
    by (auto simp: insert_workspace_def split: if_splits)
  with assms(1) show ?thesis unfolding inventory_def by simp
next
  case (workspace_update f P)
  have "limit_ok (wsMax w)" if "w \<in> set (update_where P f (workspaces d))" for w
    using assms(1) that workspace_update(3) by (auto simp: inventory_def set_update_where)
  with assms(1) workspace_update(2) show ?thesis
    unfolding inventory_def workspace_update(1) by (simp add: map_update_where)
next
  case (room lo i ws name limit)
  then have d': "d' = d\<lparr>bridges := bridges d @ [new_room i ws name limit]\<rparr>" "i \<notin> brID ` set (bridges d)" "limit_ok limit"
    by (auto simp: insert_bridge_def new_room_def split: if_splits)
  have "room_ok (tfns d) (bridges d') b" if "b \<in> set (bridges d')" for b
  proof (cases "b = new_room i ws name limit")
    case True
    then show ?thesis using d'(3) by (simp add: room_ok_def new_room_def)
  next
    case False
    then have "room_ok (tfns d) (bridges d) b" using that assms(1) d'(1) by (simp add: inventory_def)
    then show ?thesis using d'(1) by (auto simp: room_ok_def new_room_def)
  qed
  with assms(1) d'(2) show ?thesis unfolding inventory_def by (simp add: d'(1) new_room_def)
next
  case (room_update lo rid name limit tfn)
  let ?f = "\<lambda>b. b\<lparr>brName := name, brLimit := limit, brTfn := tfn\<rparr>"
  let ?bs = "update_where (\<lambda>b. brID b = rid) ?f (bridges d)"
  have d': "d' = d\<lparr>bridges := ?bs\<rparr>" using room_update(1) by (simp add: update_room_def split: if_splits)
  have ids: "map brID ?bs = map brID (bridges d)" by (simp add: map_update_where)
  have old: "room_ok (tfns d) (bridges d) b" if "b \<in> set (bridges d)" for b
    using assms(1) that by (simp add: inventory_def)
  have same: "b' = b" if "b \<in> set (bridges d)" "b' \<in> set (bridges d)" "brID b' = brID b" for b b'
    using assms(1) that by (auto simp: inventory_def distinct_map dest: inj_onD)
  have lim: "limit_ok limit" and free: "tfn = Some t \<Longrightarrow> c \<in> set (bridges d) \<Longrightarrow> brID c \<noteq> rid \<Longrightarrow> brTfn c \<noteq> Some t"
    if "b \<in> set (bridges d)" "brID b = rid" for b t c
    using room_update(1) that by (auto simp: update_room_def split: if_splits)
  have mine: "has_tfn (tfns d) (brWorkspace b) t" if "tfn = Some t" "b \<in> set (bridges d)" "brID b = rid" for b t
    using room_update(2) [OF that(1)] same that by metis
  have "room_ok (tfns d) ?bs b" if b: "b \<in> set ?bs" for b
  proof -
    obtain b0 where b0: "b0 \<in> set (bridges d)" "b = (if brID b0 = rid then ?f b0 else b0)"
      using b by (auto simp: set_update_where)
    show ?thesis
    proof (rule room_okI)
      show "limit_ok (brLimit b)"
        using b0 lim room_okD(1) [OF old [OF b0(1)]] by (cases "brID b0 = rid") auto
      show "has_tfn (tfns d) (brWorkspace b) t" if "brTfn b = Some t" for t
        using b0 mine room_okD(2) [OF old [OF b0(1)]] that by (cases "brID b0 = rid") auto
      fix t c assume t: "brTfn b = Some t" and c: "c \<in> set ?bs" "brTfn c = Some t"
      obtain c0 where c0: "c0 \<in> set (bridges d)" "c = (if brID c0 = rid then ?f c0 else c0)"
        using c(1) by (auto simp: set_update_where)
      show "brID c = brID b"
      proof (cases "brID b0 = rid"; cases "brID c0 = rid")
        assume "brID b0 = rid" "brID c0 = rid"
        then show ?thesis using b0(2) c0(2) by simp
      next
        assume h: "brID b0 = rid" "brID c0 \<noteq> rid"
        then have "tfn = Some t" "brTfn c0 = Some t" using b0(2) c0(2) t c(2) by simp_all
        then show ?thesis using free [OF b0(1) h(1) _ c0(1) h(2)] by simp
      next
        assume h: "brID b0 \<noteq> rid" "brID c0 = rid"
        then have "tfn = Some t" "brTfn b0 = Some t" using b0(2) c0(2) t c(2) by simp_all
        then show ?thesis using free [OF c0(1) h(2) _ b0(1) h(1)] by simp
      next
        assume "brID b0 \<noteq> rid" "brID c0 \<noteq> rid"
        then show ?thesis using room_okD(3) [OF old [OF b0(1)], of t c0] b0(2) c0 t c(2) by simp
      qed
    qed
  qed
  with assms(1) ids show ?thesis unfolding d' inventory_def by simp
next
  case (tfn t)
  then have d': "d' = d\<lparr>tfns := tfns d @ [t]\<rparr>" "tfID t \<notin> tfID ` set (tfns d)"
      "(tfWorkspace t, tfNumber t) \<notin> (\<lambda>t. (tfWorkspace t, tfNumber t)) ` set (tfns d)"
    by (auto simp: insert_tfn_def split: if_splits)
  have "room_ok (tfns d @ [t]) (bridges d) b" if "room_ok (tfns d) (bridges d) b" for b
    using that by (auto simp: room_ok_def has_tfn_def)
  with assms(1) tfn(2) d' show ?thesis unfolding inventory_def by simp
next
  case (tfn_delete tid ws)
  let ?ts = "filter (\<lambda>t. \<not> free_tfn tid ws d t) (tfns d)"
  have "room_ok ?ts (bridges d) b" if b: "b \<in> set (bridges d)" for b
  proof -
    have old: "room_ok (tfns d) (bridges d) b" using assms(1) b by (simp add: inventory_def)
    have "has_tfn ?ts ws' t" if "brTfn b = Some t" "has_tfn (tfns d) ws' t" for t ws'
      using that b by (auto simp: has_tfn_def free_tfn_def)
    with room_okD [OF old] show ?thesis by (intro room_okI) blast+
  qed
  with assms(1) show ?thesis unfolding inventory_def tfn_delete by (simp add: distinct_map_filter)
next
  case (room_delete br)
  have "room_ok (tfns d) (filter P (bridges d)) b" if "room_ok (tfns d) (bridges d) b" for b P
    using that by (auto simp: room_ok_def)
  with assms(1) show ?thesis by (simp add: inventory_def distinct_map_filter room_delete)
next
  case (imported bs)
  with assms(1) show ?thesis by (simp add: inventory_def)
qed

lemma platform_inventory: "platform_change d d' \<Longrightarrow> inventory d \<Longrightarrow> inventory d'"
  by (erule platform_preserve) (auto intro: config_inventory inventory_cong dest: stmt_inventory)
section \<open>Exclusive rows and references\<close>

lemma delete_room_parts:
  defines "d0 \<equiv> \<lambda>br d. delete_participants (\<lambda>p. paBridge p = br) d"
  shows "sessions (delete_room br d) = filter (\<lambda>s. seBridge s \<noteq> br) (sessions (d0 br d))"
    "legs (delete_room br d) = filter (\<lambda>l. lgBridge l \<noteq> br) (legs (d0 br d))"
    "\<exists>g. (\<forall>i. g i \<longleftrightarrow> (\<exists>l \<in> set (legs (d0 br d)). lgID l = i \<and> lgBridge l = br)) \<and>
       requests (delete_room br d) =
         map (\<lambda>r. r\<lparr>rqLeg := forget g (rqLeg r)\<rparr>) (filter (\<lambda>r. rqBridge r \<noteq> br) (requests (d0 br d)))"
  by (auto simp: delete_room_def d0_def Let_def)

lemma distinct_map_filter_swap: "distinct (map g (filter Q rs)) \<Longrightarrow> distinct (map g (filter Q (filter R rs)))"
  by (simp add: distinct_map_filter_mono)

lemma delete_room_exclusive:
  assumes "exclusive d"
  shows "exclusive (delete_room br d)"
proof -
  let ?d = "delete_participants (\<lambda>p. paBridge p = br) d"
  have deleted: "stmt UNIV d ?d" by (rule stmt.delete) simp
  have ex: "one_host ?d" "one_session ?d" "one_request ?d"
    using assms stmt_one_host [OF _ deleted] stmt_one_session [OF _ deleted] one_request_delete
    by (simp_all add: exclusive_def)
  have "one_host (delete_room br d)"
    using ex(1) by (simp add: one_host_def)
  moreover have "one_session (delete_room br d)"
    using ex(2) by (simp add: one_session_def delete_room_parts distinct_map_filter_swap del: filter_filter)
  moreover obtain g where r: "requests (delete_room br d) =
      map (\<lambda>r. r\<lparr>rqLeg := forget g (rqLeg r)\<rparr>) (filter (\<lambda>r. rqBridge r \<noteq> br) (requests ?d))"
    using delete_room_parts(3) by blast
  have "one_request (delete_room br d)"
    using ex(3) unfolding one_request_def r
    by (simp add: distinct_requests_map distinct_map_filter distinct_map_filter_swap comp_def del: filter_filter)
  ultimately show ?thesis by (simp add: exclusive_def)
qed

lemma delete_room_consistent:
  assumes "consistent d"
  shows "consistent (delete_room br d)"
proof -
  let ?d = "delete_participants (\<lambda>p. paBridge p = br) d"
  let ?e = "delete_room br d"
  have c: "consistent ?d" using assms by (rule consistent_delete)
  have p: "pkeys ?e = pkeys ?d" by (simp add: pkeys_def)
  obtain g where g: "\<And>i. g i \<longleftrightarrow> (\<exists>l \<in> set (legs ?d). lgID l = i \<and> lgBridge l = br)"
    and r: "requests ?e = map (\<lambda>r. r\<lparr>rqLeg := forget g (rqLeg r)\<rparr>) (filter (\<lambda>r. rqBridge r \<noteq> br) (requests ?d))"
    using delete_room_parts(3) [where br = br and d = d] by blast
  have keep: "(i, w) \<in> lkeys ?e" if "(i, w) \<in> lkeys ?d" "\<not> g i" for i w
    using that g by (force simp: lkeys_def delete_room_parts)
  have "distinct (map paID (participants ?e))" "distinct (map lgID (legs ?e))" "distinct (map seID (sessions ?e))"
    using c by (simp_all add: consistent_def delete_room_parts distinct_map_filter)
  moreover have "\<forall>l \<in> set (legs ?e). (lgParticipant l, lgWorkspace l) \<in> pkeys ?e"
    using c by (auto simp: consistent_def delete_room_parts p)
  moreover have "\<forall>s \<in> set (sessions ?e). \<forall>h. seHost s = Some h \<longrightarrow> (h, seWorkspace s) \<in> pkeys ?e"
    using c by (auto simp: consistent_def delete_room_parts p)
  moreover have "\<forall>q \<in> set (requests ?e). (rqParticipant q, rqWorkspace q) \<in> pkeys ?e \<and>
      (\<forall>i. rqLeg q = Some i \<longrightarrow> (i, rqWorkspace q) \<in> lkeys ?e)"
    using c keep unfolding r by (auto simp: consistent_def p forget_Some)
  ultimately show ?thesis unfolding consistent_def by blast
qed

lemma same_rows:
  assumes "participants d' = participants d" "legs d' = legs d" "sessions d' = sessions d" "requests d' = requests d"
  shows "exclusive d' = exclusive d" "consistent d' = consistent d"
  using assms by (simp_all add: exclusive_def one_host_def one_session_def one_request_def consistent_def pkeys_def lkeys_def)

lemma config_rows:
  assumes "config d d'"
  obtains br where "d' = delete_room br d"
  | "participants d' = participants d" "legs d' = legs d" "sessions d' = sessions d" "requests d' = requests d"
  using assms
  by cases (auto simp: insert_workspace_def insert_bridge_def update_room_def insert_tfn_def split: if_splits)

lemma config_exclusive: "config d d' \<Longrightarrow> exclusive d \<Longrightarrow> exclusive d'"
  using delete_room_exclusive same_rows(1) by (elim config_rows) blast+

lemma config_consistent: "config d d' \<Longrightarrow> consistent d \<Longrightarrow> consistent d'"
  using delete_room_consistent same_rows(2) by (elim config_rows) blast+

definition platform_ok :: "db \<Rightarrow> bool" where
  "platform_ok d \<longleftrightarrow> inventory d \<and> exclusive d \<and> consistent d"

lemma platform_change_ok:
  assumes "platform_change d d'" and "platform_ok d"
  shows "platform_ok d'"
  using assms
proof (rule platform_preserve)
  fix e f
  show "platform_ok e \<Longrightarrow> stmt UNIV e f \<Longrightarrow> platform_ok f"
    using inventory_cong [of e f] stmt_inventory [of UNIV e f] changes_exclusive [OF changes_stmt] stmt_consistent
    by (auto simp: platform_ok_def)
  show "platform_ok e \<Longrightarrow> config e f \<Longrightarrow> platform_ok f"
    using config_inventory config_exclusive config_consistent by (auto simp: platform_ok_def)
qed

section \<open>The handlers\<close>

lemma platform_exec:
  assumes "sql_exec W k f d = Inr d'" and "\<And>e. f d = Some e \<Longrightarrow> config d e"
  shows "platform_change d d'"
  using assms by (auto simp: sql_exec_Inr intro: platform_config)

lemma workspace_loop_change:
  "workspace_loop W base name limit suffix n d = Created i slug d' \<Longrightarrow> platform_change d d'"
  by (induction n arbitrary: suffix)
    (auto simp: Let_def intro: platform_config config.workspace split: if_splits option.splits)

lemma adminCreateWorkspace_change: "adminCreateWorkspace W i d = (r, d') \<Longrightarrow> platform_change d d'"
  by (auto simp: adminCreateWorkspace_def Let_def intro: workspace_loop_change
      split: option.splits if_splits attempt.splits)

lemma adminUpdateWorkspace_change:
  assumes "adminUpdateWorkspace W ws i d = (r, d')" and "inventory d"
  shows "platform_change d d'"
proof -
  have step: "platform_change d (d\<lparr>workspaces := update_where (\<lambda>w. wsID w = ws)
      (\<lambda>w. w\<lparr>wsName := n, wsStatus := st, wsMax := m\<rparr>) (workspaces d)\<rparr>)" if "limit_ok m" for n st m
    using that by (intro platform_config config.workspace_update) auto
  have "limit_ok (wsMax w)" if "query_row W 0 (filter (\<lambda>w. wsID w = ws) (workspaces d)) = Row w" for w
    using query_row_Row [OF that] assms(2) by (auto simp: inventory_def)
  moreover have "\<not> (m \<le> 0 \<or> m > 100000) \<Longrightarrow> limit_ok m" for m by (simp add: limit_ok_def)
  ultimately show ?thesis
    using assms(1) step
    by (auto simp: adminUpdateWorkspace_def Let_def sql_exec_Inr split: option.splits if_splits sum.splits fetched_row.splits)
qed

lemma adminCreateRoom_change: "adminCreateRoom W lo i d = (r, d') \<Longrightarrow> platform_change d d'"
  by (auto simp: adminCreateRoom_def Let_def split: option.splits if_splits sum.splits
      elim!: platform_exec intro: config.room)

lemma wanted_tfn_has: "wanted_tfn W ws i d = Some (Some t) \<Longrightarrow> has_tfn (tfns d) ws t"
  by (auto simp: wanted_tfn_def Let_def has_tfn_def dest!: query_row_Row split: if_splits fetched_row.splits)

lemma adminUpdateRoom_change:
  assumes "adminUpdateRoom W lo param rid i d = (r, d')"
  shows "platform_change d d'"
proof (cases "d' = d")
  case False
  with assms obtain ws b n m tfn where room: "query_row W 0 (room_rows ws rid d) = Row b"
    and t: "wanted_tfn W ws (ruTfn (the i)) d = Some tfn" and up: "update_room lo rid n m tfn d = Some d'"
    by (auto simp: adminUpdateRoom_def Let_def sql_exec_Inr split: option.splits if_splits sum.splits fetched_row.splits)
  have b: "b \<in> set (bridges d)" "brID b = rid" "brWorkspace b = ws"
    using query_row_Row [OF room] by (auto simp: room_rows_def)
  have "config d d'"
    using up by (rule config.room_update) (use t b wanted_tfn_has in blast)
  then show ?thesis by (rule platform_config)
qed simp

lemma canonical_ok: "canonicalE164 v \<noteq> '''' \<Longrightarrow> tfNumber t = canonicalE164 v \<Longrightarrow> tfn_ok t"
  using canonicalE164_cases [of v] canonicalE164_dialable [of "canonicalE164 v"] by (simp add: tfn_ok_def)

lemma adminCreateTFN_change: "adminCreateTFN W i d = (r, d') \<Longrightarrow> platform_change d d'"
  by (auto simp: adminCreateTFN_def Let_def split: option.splits if_splits sum.splits
      elim!: platform_exec intro!: config.tfn canonical_ok)

lemma adminDeleteTFN_change: "adminDeleteTFN W param tid d = (r, d') \<Longrightarrow> platform_change d d'"
  by (auto simp: adminDeleteTFN_def Let_def sql_exec_Inr intro!: platform_config config.tfn_delete
      split: option.splits if_splits sum.splits)

lemma run_admin_change:
  assumes "run_admin W pg now hashpw r st body op d acc = (a, d', acc')" and "inventory d"
  shows "platform_change d d'"
  using assms
  by (cases op) (auto dest: adminCreateWorkspace_change adminUpdateWorkspace_change adminCreateRoom_change
      adminUpdateRoom_change adminCreateTFN_change adminDeleteTFN_change split: prod.splits)

lemma admin_change:
  assumes "admin W pg now hashpw r st body d acc = (a, d', acc')" and "inventory d"
  shows "platform_change d d'"
  using assms run_admin_change by (auto simp: admin_def split: option.splits)

lemma bridges_change: "bridges_handler W lo created role ws meth i d = (r, d') \<Longrightarrow> platform_change d d'"
  by (auto simp: bridges_handler_def create_room_def intro: platform_config config.room
      split: if_splits option.splits list.splits)

lemma deleteBridge_cases:
  assumes "deleteBridge W ws br d = (r, d')"
  obtains "d' = d" "code r \<noteq> 200"
  | b where "b \<in> set (room_rows ws br d)" "room_live_legs br d = []" "code r = 200"
      "d' = delete_room br (d\<lparr>items := filter (\<lambda>i. \<not> room_item br d i) (items d)\<rparr>)"
proof (cases "\<not> wfail W 0 \<and> \<not> wfail W 2 \<and> \<not> wfail W 3 \<and> \<not> wfail W 4 \<and> \<not> wfail W 5 \<and> \<not> wfail W 6 \<and>
    room_live_legs br d = [] \<and> (\<exists>b. query_row W 1 (room_rows ws br d) = Row b)")
  case True
  then obtain b where b: "query_row W 1 (room_rows ws br d) = Row b" by blast
  have "b \<in> set (room_rows ws br d)" using b by (rule query_row_Row)
  moreover have "code r = 200" "d' = delete_room br (d\<lparr>items := filter (\<lambda>i. \<not> room_item br d i) (items d)\<rparr>)"
    using assms True b by (auto simp: deleteBridge_def sql_exec_def sql_commit_def)
  ultimately show thesis using that(2) True by blast
next
  case False
  then have "d' = d \<and> code r \<noteq> 200"
    using assms
    by (cases "query_row W 1 (room_rows ws br d)") (auto simp: deleteBridge_def sql_failure_def sql_exec_def sql_commit_def split: if_splits)
  then show thesis using that(1) by blast
qed

lemma deleteBridge_change: "deleteBridge W ws br d = (r, d') \<Longrightarrow> platform_change d d'"
proof (erule deleteBridge_cases)
  assume "d' = delete_room br (d\<lparr>items := filter (\<lambda>i. \<not> room_item br d i) (items d)\<rparr>)"
  moreover have "platform_change d (d\<lparr>items := filter (\<lambda>i. \<not> room_item br d i) (items d)\<rparr>)"
    by (rule platform_changes [OF changes_stmt, where A = UNIV]) (rule stmt.item)
  ultimately show ?thesis
    using platform_trans platform_config [OF config.room_delete] by blast
qed simp

lemma import_contact_changes:
  assumes "import_contact W k ws br bid c d = Inr d'" and "(br, ws) \<in> bkeys d"
  shows "changes {ws} d d'"
proof -
  let ?p = "\<lambda>role st. \<lparr>paID = wid W (k + 1), paWorkspace = ws, paBridge = br, paName = TrimSpace (ciName c),
    paPhone = TrimSpace (ciPhone c), paDesired = st, paRole = role\<rparr>"
  have named: "changes {ws} d e" if "name_host W k ws br n ph d = Inr e" for n ph e
    using that by (auto simp: name_host_def bridge_kept_def intro!: changes_stmt stmt_on_room split: if_splits)
  have added: "changes {ws} e f" if "sql_exec W (k + 1) (insert_participant (?p role st)) e = Inr f" and "changes {ws} d e"
    for role st e f
    using that assms(2) changes_bkeys [OF that(2)] by (auto simp: sql_exec_Inr intro: add_participant_changes)
  have "\<exists>e. changes {ws} d e \<and> sql_exec W (k + 2) (insert_item
      \<lparr>itID = wid W (k + 2), itWorkspace = ws, itBatch = bid, itName = TrimSpace (ciName c),
       itPhone = TrimSpace (ciPhone c), itStatus = ''ROSTERED'', itParticipant = Some (wid W (k + 1)), itError = None\<rparr>) e = Inr d'"
    using assms(1) named added
    by (auto simp: import_contact_def Let_def split: if_splits sum.splits dest: changes_trans)
      (meson changes_trans changes_refl)+
  then obtain e i where "changes {ws} d e" "insert_item i e = Some d'" by (auto simp: sql_exec_Inr)
  then show ?thesis
    by (auto simp: insert_item_def intro: changes_step stmt.item split: if_splits)
qed

lemma import_contacts_changes:
  "import_contacts W k ws br bid cs d = Inr d' \<Longrightarrow> (br, ws) \<in> bkeys d \<Longrightarrow> changes {ws} d d'"
proof (induction cs arbitrary: k d)
  case Nil
  then show ?case by (simp add: sql_commit_Inr)
next
  case (Cons c cs)
  then obtain e where e: "import_contact W k ws br bid c d = Inr e" "import_contacts W (k + 3) ws br bid cs e = Inr d'"
    by (auto split: sum.splits)
  note first = import_contact_changes [OF e(1) Cons.prems(2)]
  have "(br, ws) \<in> bkeys e" using Cons.prems(2) changes_bkeys [OF first] by simp
  with Cons.IH [OF e(2)] first show ?case by (blast intro: changes_trans)
qed

text \<open>An import adds its batch and then changes rows of the workspace only.\<close>

lemma batch_parts:
  assumes "batch W ws br i d = (r, d')"
  obtains bs where "changes {ws} (d\<lparr>batches := bs\<rparr>) d'"
proof (cases "d' = d")
  case True
  then show thesis using that [of "batches d"] by simp
next
  case False
  with assms obtain c b d1 cs where c: "query_row W 0 (room_rows ws br d) = Row c" and "insert_batch b d = Some d1"
    and import: "import_contacts W 3 ws br (wid W 2) cs d1 = Inr d'"
    by (auto simp: batch_def Let_def sql_failure_def sql_exec_Inr
        split: option.splits if_splits sum.splits fetched_row.splits)
  then have d1: "d1 = d\<lparr>batches := batches d @ [b]\<rparr>" by (simp add: insert_batch_def split: if_splits)
  have "(br, ws) \<in> bkeys d1" using query_room_bkeys [OF c] by (simp add: d1 bkeys_def)
  with import have "changes {ws} d1 d'" by (rule import_contacts_changes)
  then show thesis unfolding d1 by (rule that)
qed

lemma batch_change:
  assumes "batch W ws br i d = (r, d')"
  shows "platform_change d d'"
proof -
  from assms obtain bs where "changes {ws} (d\<lparr>batches := bs\<rparr>) d'" by (rule batch_parts)
  then show ?thesis using platform_trans [OF platform_config [OF config.imported] platform_changes] by blast
qed

lemma batchState_change: "batchState W ws path d = (r, d') \<Longrightarrow> platform_change d d'"
  by (auto simp: batchState_def Let_def sql_try_def set_batch_def intro!: platform_config config.imported
      split: fetched_row.splits if_splits)

lemma end_stale_changes: "changes {ws} d (end_stale W k ws l d)"
  unfolding end_stale_def by (rule changes_try) (rule stmt.leg, auto simp: leg_kept_def)

lemma state_loop_changes: "state_loop W k ws ep rows d = (js, d') \<Longrightarrow> changes {ws} d d'"
proof (induction rows arbitrary: k d js)
  case Nil
  then show ?case by simp
next
  case (Cons pl rows)
  obtain p l where pl: "pl = (p, l)" by (cases pl)
  let ?d = "if (case l of None \<Rightarrow> False | Some l \<Rightarrow> stale_leg ep l) then end_stale W k ws (the l) d else d"
  have "changes {ws} d ?d" by (simp add: end_stale_changes)
  moreover obtain js' where "state_loop W (Suc k) ws ep rows ?d = (js', d')"
    using Cons.prems unfolding pl by (auto simp: Let_def split: prod.splits)
  ultimately show ?case using Cons.IH changes_trans by blast
qed

lemma bridgeState_changes: "bridgeState W F stamp created ws br d = (r, d') \<Longrightarrow> changes {ws} d d'"
  by (auto simp: bridgeState_def Let_def sql_failure_def split: fetched_row.splits sum.splits prod.splits
      dest: state_loop_changes)

section \<open>Rows of a room lie in its workspace\<close>

lemma housed_cong:
  assumes "housed d" and "distinct (map brID (bridges d'))" and "bkeys d \<subseteq> bkeys d'"
    and "participants d' = participants d" "legs d' = legs d" "sessions d' = sessions d" "requests d' = requests d"
  shows "housed d'"
  using assms unfolding housed_def by auto

lemma delete_room_housed:
  assumes "housed d"
  shows "housed (delete_room br d)"
proof -
  let ?d = "delete_participants (\<lambda>p. paBridge p = br) d"
  let ?e = "delete_room br d"
  have h: "housed ?d" by (rule stmt_housed [OF assms]) (rule stmt.delete [where A = UNIV], simp)
  obtain g where r: "requests ?e = map (\<lambda>r. r\<lparr>rqLeg := forget g (rqLeg r)\<rparr>) (filter (\<lambda>r. rqBridge r \<noteq> br) (requests ?d))"
    using delete_room_parts(3) by blast
  have keep: "(b, w) \<in> bkeys ?e" if "(b, w) \<in> bkeys ?d" "b \<noteq> br" for b w
    using that by (auto simp: bkeys_def)
  have "distinct (map brID (bridges ?e))" using assms by (simp add: housed_def distinct_map_filter)
  with h keep show ?thesis by (auto simp: housed_def r delete_room_parts)
qed

lemma config_housed:
  assumes "config d d'" and "housed d"
  shows "housed d'"
  using assms(1)
proof cases
  case (room lo i ws name limit)
  then show ?thesis
    by (intro housed_cong [OF assms(2)])
      (use assms(2) in \<open>auto simp: insert_bridge_def new_room_def bkeys_def housed_def split: if_splits\<close>)
next
  case (room_update lo rid name limit tfn)
  let ?f = "\<lambda>b. b\<lparr>brName := name, brLimit := limit, brTfn := tfn\<rparr>"
  have d': "d' = d\<lparr>bridges := update_where (\<lambda>b. brID b = rid) ?f (bridges d)\<rparr>"
    using room_update(1) by (simp add: update_room_def split: if_splits)
  have "bkeys d' = bkeys d" unfolding bkeys_def d' by (simp add: image_update_where)
  then show ?thesis
    by (intro housed_cong [OF assms(2)]) (use assms(2) in \<open>simp_all add: d' housed_def map_update_where\<close>)
next
  case (room_delete br)
  with assms(2) show ?thesis by (simp add: delete_room_housed)
qed (use assms(2) in \<open>auto simp: housed_def bkeys_def insert_workspace_def insert_tfn_def split: if_splits\<close>)

lemma platform_change_housed: "platform_change d d' \<Longrightarrow> housed d \<Longrightarrow> housed d'"
  by (erule platform_preserve) (auto intro: config_housed stmt_housed)

text \<open>Deleting a room of a workspace touches no row of another one.\<close>

lemma delete_room_foreign:
  assumes "consistent d" and "housed d" and "(br, ws) \<in> bkeys d"
  shows "foreign {ws} (delete_room br d) = foreign {ws} d"
proof -
  let ?d = "delete_participants (\<lambda>p. paBridge p = br) d"
  let ?e = "delete_room br d"
  have one: "w = ws" if "(br, w) \<in> bkeys d" for w
    using that assms(2,3) by (auto simp: housed_def bkeys_def distinct_map dest: inj_onD)
  have "foreign {ws} ?d = foreign {ws} d"
    by (rule delete_foreign [OF assms(1)]) (use assms(2) one in \<open>auto simp: housed_def\<close>)
  moreover have "foreign {ws} ?e = foreign {ws} ?d"
  proof -
    have h: "housed ?d" by (rule stmt_housed [OF assms(2)]) (rule stmt.delete [where A = UNIV], simp)
    have c: "consistent ?d" by (rule consistent_delete [OF assms(1)])
    have keys: "bkeys ?d = bkeys d" by (simp add: bkeys_def)
    obtain g where g: "\<And>i. g i \<longleftrightarrow> (\<exists>l \<in> set (legs ?d). lgID l = i \<and> lgBridge l = br)"
      and r: "requests ?e = map (\<lambda>r. r\<lparr>rqLeg := forget g (rqLeg r)\<rparr>) (filter (\<lambda>r. rqBridge r \<noteq> br) (requests ?d))"
      using delete_room_parts(3) [where br = br and d = d] by blast
    have mine: "w = ws" if "(br, w) \<in> bkeys ?d" for w using that one by (simp add: keys)
    have "filter (\<lambda>b. brWorkspace b \<noteq> ws) (filter (\<lambda>b. brID b \<noteq> br) (bridges ?d)) = filter (\<lambda>b. brWorkspace b \<noteq> ws) (bridges ?d)"
      by (rule filter_filter_id) (use mine in \<open>auto simp: bkeys_def\<close>)
    moreover have "filter (\<lambda>l. lgWorkspace l \<noteq> ws) (filter (\<lambda>l. lgBridge l \<noteq> br) (legs ?d)) = filter (\<lambda>l. lgWorkspace l \<noteq> ws) (legs ?d)"
      by (rule filter_filter_id) (use mine h in \<open>auto simp: housed_def\<close>)
    moreover have "filter (\<lambda>s. seWorkspace s \<noteq> ws) (filter (\<lambda>s. seBridge s \<noteq> br) (sessions ?d)) = filter (\<lambda>s. seWorkspace s \<noteq> ws) (sessions ?d)"
      by (rule filter_filter_id) (use mine h in \<open>auto simp: housed_def\<close>)
    moreover have "filter (\<lambda>r. rqWorkspace r \<noteq> ws) (requests ?e) = filter (\<lambda>r. rqWorkspace r \<noteq> ws) (requests ?d)"
    proof -
      have "forget g (rqLeg q) = rqLeg q" if q: "q \<in> set (requests ?d)" "rqWorkspace q \<noteq> ws" for q
      proof (rule forget_id)
        fix i assume "rqLeg q = Some i"
        with q(1) c have "(i, rqWorkspace q) \<in> lkeys ?d" by (auto simp: consistent_def)
        then have same: "lgWorkspace l = rqWorkspace q" if "l \<in> set (legs ?d)" "lgID l = i" for l
          using that by (rule lkeys_unique [OF c])
        have "lgWorkspace l = ws" if "l \<in> set (legs ?d)" "lgBridge l = br" for l
          using that h mine [of "lgWorkspace l"] by (auto simp: housed_def)
        with same q(2) show "\<not> g i" unfolding g by metis
      qed
      then have "filter (\<lambda>r. rqWorkspace r \<noteq> ws) (requests ?e) =
          filter (\<lambda>r. rqWorkspace r \<noteq> ws) (filter (\<lambda>r. rqBridge r \<noteq> br) (requests ?d))"
        unfolding r by (intro filter_map_id) auto
      also have "\<dots> = filter (\<lambda>r. rqWorkspace r \<noteq> ws) (requests ?d)"
        by (rule filter_filter_id) (use mine h in \<open>auto simp: housed_def\<close>)
      finally show ?thesis .
    qed
    ultimately show ?thesis
      unfolding foreign_def by (simp add: delete_room_parts del: filter_filter)
  qed
  ultimately show ?thesis by simp
qed

end
