(* ===== verification/Samples.thy ===== *)
theory Samples
  imports RoomSystem
begin

text \<open>
  A small deployment on which the general theorems are instantiated: a workspace with one room, its
  host and a listener and an active telephone number, a second workspace with a room of its own, one live PBX node, and a world in which no
  statement fails.
\<close>

definition fine :: world where
  "fine = \<lparr>wfail = \<lambda>_. False, wtext = \<lambda>_. '''', wnow = \<lambda>k. 1000 + int k, wid = \<lambda>k. ''id'' @ Itoa (int k),
     wseconds = \<lambda>d. d div 1000000000\<rparr>"
definition sample_leaf :: node where
  "sample_leaf = \<lparr>NodeID = ''core-1'', ControlURL = ''http://10.0.0.5:9443'', PrivateIP = ''10.0.0.5'', MediaPublicIP = '''',
     Role = ''listener'', DrainState = ''READY'', Capacity = 500, ActiveCalls = 0, ActiveRTP = 0,
     RTPPacketsPerSecond = 0, ActiveSpeakers = 0, LoadScore = 0, NodeEpoch = 7\<rparr>"
definition sample_fleet :: fleet where
  "sample_fleet = \<lparr>flNodes = \<lambda>_. Inr [sample_leaf], flCommand = \<lambda>k. ''cmd'' @ Itoa (int k), flPost = \<lambda>_. None\<rparr>"
definition sample_db :: db where
  "sample_db = \<lparr>workspaces = [\<lparr>wsID = ''w1'', wsSlug = ''acme'', wsName = ''Acme'', wsStatus = ''ACTIVE'', wsMax = 500\<rparr>,
       \<lparr>wsID = ''w2'', wsSlug = ''globex'', wsName = ''Globex'', wsStatus = ''ACTIVE'', wsMax = 5\<rparr>],
     tfns = [\<lparr>tfID = ''t1'', tfWorkspace = ''w1'', tfNumber = ''+911800123456'', tfLabel = '''', tfProvider = '''', tfStatus = ''ACTIVE''\<rparr>],
     bridges = [\<lparr>brID = ''r1'', brWorkspace = ''w1'', brName = ''Room'', brState = ''READY'', brHostName = Some ''Asha'',
       brHostPhone = Some ''98200 12345'', brRegion = ''+91'', brLimit = 10, brTfn = Some ''t1''\<rparr>,
       \<lparr>brID = ''r2'', brWorkspace = ''w2'', brName = ''Other'', brState = ''READY'', brHostName = Some ''Mei'',
       brHostPhone = Some ''+6581234567'', brRegion = ''+65'', brLimit = 5, brTfn = None\<rparr>],
     participants = [\<lparr>paID = ''p1'', paWorkspace = ''w1'', paBridge = ''r1'', paName = ''Asha'', paPhone = ''98200 12345'',
        paDesired = ''ACTIVE'', paRole = ''HOST''\<rparr>,
       \<lparr>paID = ''p2'', paWorkspace = ''w1'', paBridge = ''r1'', paName = ''Ravi'', paPhone = ''+911234567'',
        paDesired = ''MUTED'', paRole = ''LISTENER''\<rparr>,
       \<lparr>paID = ''p3'', paWorkspace = ''w2'', paBridge = ''r2'', paName = ''Mei'', paPhone = ''+6581234567'',
        paDesired = ''ACTIVE'', paRole = ''HOST''\<rparr>],
     legs = [], sessions = [], attendance = [], requests = [], batches = [], items = [], eventlog = []\<rparr>"

definition sample_start :: "response \<times> activation option \<times> sidecar_post list \<times> db" where
  "sample_start = startRoom fine sample_fleet ''w1'' ''r1'' sample_db"

definition sample_started :: db where
  "sample_started = snd (snd (snd sample_start))"

definition sample_activation :: activation where
  "sample_activation = \<lparr>acSession = ''id4'', acWorkspace = ''w1'', acBridge = ''r1'', acCall = ''id8''\<rparr>"

lemma sample_start_eq:
  "startRoom fine sample_fleet ''w1'' ''r1'' sample_db =
     (fst sample_start, Some sample_activation, fst (snd (snd sample_start)), sample_started)"
proof -
  have "fst (snd sample_start) = Some sample_activation"
    unfolding sample_activation_def by code_simp
  then show ?thesis by (simp add: sample_started_def sample_start_def [symmetric] prod_eq_iff)
qed

lemma sample_ok: "exclusive sample_db" "consistent sample_db"
proof -
  show "exclusive sample_db"
    by (simp add: exclusive_def one_host_def one_session_def one_request_def sample_db_def)
  show "consistent sample_db"
    by (simp add: consistent_def sample_db_def)
qed

definition sample_system :: system where
  "sample_system = \<lparr>tables = sample_db, waiting = []\<rparr>"

definition sample_running :: system where
  "sample_running = \<lparr>tables = sample_started, waiting = [sample_activation]\<rparr>"

lemma sample_step: "tenant_step ''w1'' sample_system sample_running"
proof -
  have "sample_running = sample_system\<lparr>tables := sample_started,
      waiting := waiting sample_system @ (case Some sample_activation of None \<Rightarrow> [] | Some a \<Rightarrow> [a])\<rparr>"
    by (simp add: sample_running_def sample_system_def)
  moreover have "tables sample_system = sample_db" by (simp add: sample_system_def)
  ultimately show ?thesis using tenant_step.start [of fine sample_fleet "''w1''" "''r1''" sample_system] sample_start_eq
    by metis
qed

lemma sample_reachable: "reachable_from sample_system sample_running"
  unfolding reachable_from_def using system_step.tenant [OF sample_step] by (rule r_into_rtranclp)

end
