(* ===== verification/PlatformProps.thy ===== *)
theory PlatformProps
  imports PlatformSteps Samples
begin

text \<open>
  The control API as a whole: what holds in every state that any requests, reports and waiting
  goroutines can reach, and what deleting a room, importing a roster and showing a room do.
\<close>

section \<open>The platform\<close>

text \<open>A step of the platform on its tables. A waiting goroutine \<open>a\<close> may run at any time, also when its
  session is gone.\<close>

inductive platform_step :: "db \<Rightarrow> db \<Rightarrow> bool" where
  tenant: "tenant_step ws S S' \<Longrightarrow> platform_step (tables S) (tables S')"
| tick: "activate_tick W F a d = (w, ps, d') \<Longrightarrow> platform_step d d'"
| timeout: "platform_step d (activate_timeout W a d)"
| report: "events W ok e d = (r, d') \<Longrightarrow> platform_step d d'"
| digit: "dtmf W ok i d = (r, d') \<Longrightarrow> platform_step d d'"
| admin: "admin W pg now hashpw q st body d acc = (r, d', acc') \<Longrightarrow> platform_step d d'"
| rooms: "bridges_handler W lo created role ws meth name d = (r, d') \<Longrightarrow> platform_step d d'"
| delete: "deleteBridge W ws br d = (r, d') \<Longrightarrow> platform_step d d'"
| roster: "batch W ws br b d = (r, d') \<Longrightarrow> platform_step d d'"
| roster_state: "batchState W ws path d = (r, d') \<Longrightarrow> platform_step d d'"
| show_room: "bridgeState W F stamp created ws br d = (r, d') \<Longrightarrow> platform_step d d'"

lemma session_any: "session_kept f \<Longrightarrow>
    (\<And>s. P s \<Longrightarrow> active_session (seStatus (f s)) \<Longrightarrow> active_session (seStatus s)) \<Longrightarrow> changes UNIV d (on_session P f d)"
  by (rule changes_stmt [OF stmt.session]) auto

lemma activation_failed_any: "changes UNIV d (activation_failed W k a d)"
  unfolding activation_failed_def Let_def
  by (intro changes_trans [OF changes_try_opt [OF session_any] on_room_changes])
    (simp_all add: bridge_kept_def session_kept_def active_session_def)

lemma activate_tick_any:
  assumes "activate_tick W F a d = (w, ps, d')"
  shows "changes UNIV d d'"
proof -
  let ?mine = "\<lambda>s. seID s = acSession a \<and> seStatus s = ''STARTING''"
  let ?d1 = "on_session ?mine (\<lambda>s. s\<lparr>seStatus := ''RUNNING''\<rparr>) d"
  let ?d2 = "sql_try W 2 (\<lambda>d. d\<lparr>bridges := update_where
               (\<lambda>b. brID b = acBridge a \<and> brWorkspace b = acWorkspace a \<and> brState b = ''STARTING'')
               (\<lambda>b. b\<lparr>brState := ''RUNNING''\<rparr>) (bridges d)\<rparr>) ?d1"
  have s1: "changes UNIV d ?d1"
    by (rule session_any) (simp_all add: session_kept_def active_session_def)
  have s2: "changes UNIV ?d1 ?d2"
    by (intro changes_try stmt.room) (simp_all add: bridge_kept_def)
  consider "d' = d" | "d' = ?d1" | ids qs where "dispatch_all W F 0 a ids ?d2 = (qs, d')" | "d' = activation_failed W 1 a d"
    using assms(1) by (auto simp: activate_tick_def Let_def split: fetched_row.splits if_splits prod.splits)
  then show ?thesis
  proof cases
    case 3
    then have "changes UNIV ?d2 d'"
      using changes_mono [OF _ dispatch_all_changes] by blast
    with s1 s2 show ?thesis by (blast intro: changes_trans)
  qed (use s1 activation_failed_any in auto)
qed

lemma platform_step_change:
  assumes "platform_step d d'" and "platform_ok d"
  shows "platform_change d d'"
  using assms(1)
proof cases
  case (tenant ws S S')
  then show ?thesis using tenant_step_changes platform_changes by blast
next
  case (tick W F a w ps)
  then show ?thesis by (rule platform_changes [OF activate_tick_any])
next
  case (timeout W a)
  then show ?thesis by (simp add: activate_timeout_def platform_changes [OF activation_failed_any])
next
  case (report W ok e r)
  then show ?thesis by (rule platform_changes [OF events_changes])
next
  case (digit W ok i r)
  then show ?thesis
    using assms(2) by (intro platform_changes [OF dtmf_changes [OF digit]]) (simp add: platform_ok_def)
next
  case (admin W pg now hashpw q st body acc r acc')
  then show ?thesis using assms(2) by (intro admin_change) (auto simp: platform_ok_def)
qed (auto dest: bridges_change deleteBridge_change batch_change batchState_change bridgeState_changes
      intro: platform_changes)

lemma platform_steps_ok: "platform_step\<^sup>*\<^sup>* d d' \<Longrightarrow> platform_ok d \<Longrightarrow> platform_ok d'"
  by (induction rule: rtranclp_induct) (auto intro: platform_change_ok platform_step_change)

lemma distinct_singleton: "distinct l \<Longrightarrow> set l = {b} \<Longrightarrow> l = [b]"
  by (cases l; cases "tl l") auto

lemma sample_platform_ok: "platform_ok sample_db"
  using sample_ok
  by (simp add: platform_ok_def inventory_def sample_db_def room_ok_def has_tfn_def limit_ok_def tfn_ok_def
      dialable_def is_digit_def char_code_def canonicalE164_dialable)

text \<open>C30: whatever product administrators, workspaces, sidecars and callers do and whatever statements
  fail, the number of a room is a dialable, active number of the room's own workspace, no other
  room has it, the limits of rooms and workspaces stay between 1 and 100000, and slugs, and the
  numbers of one workspace, stay different.\<close>

theorem number_inventory:
  assumes "platform_step\<^sup>*\<^sup>* d0 d" and "platform_ok d0" and "b \<in> set (bridges d)"
  shows "(brTfn b = Some t \<longrightarrow>
      (\<exists>r \<in> set (tfns d). tfID r = t \<and> tfWorkspace r = brWorkspace b \<and> tfStatus r = ''ACTIVE'' \<and> dialable (tfNumber r)) \<and>
      filter (\<lambda>c. brTfn c = Some t) (bridges d) = [b]) \<and>
    1 \<le> brLimit b \<and> brLimit b \<le> 100000 \<and>
    distinct (map wsSlug (workspaces d)) \<and> distinct (map (\<lambda>t. (tfWorkspace t, tfNumber t)) (tfns d))"
proof -
  have inv: "inventory d" using platform_steps_ok [OF assms(1,2)] by (simp add: platform_ok_def)
  then have ok: "room_ok (tfns d) (bridges d) b" using assms(3) by (simp add: inventory_def)
  have "filter (\<lambda>c. brTfn c = Some t) (bridges d) = [b]" if t: "brTfn b = Some t"
  proof -
    let ?l = "filter (\<lambda>c. brTfn c = Some t) (bridges d)"
    have ids: "distinct (map brID (bridges d))" using inv by (simp add: inventory_def)
    have only: "c = b" if "c \<in> set ?l" for c
    proof -
      have "brID c = brID b" using that room_okD(3) [OF ok t] by simp
      then show ?thesis using ids that assms(3) by (auto simp: distinct_map dest: inj_onD)
    qed
    have "b \<in> set ?l" "distinct ?l" using assms(3) t ids by (simp_all add: distinct_map)
    with only have "set ?l = {b}" by blast
    with \<open>distinct ?l\<close> show ?thesis by (rule distinct_singleton)
  qed
  moreover have "\<exists>r \<in> set (tfns d). tfID r = t \<and> tfWorkspace r = brWorkspace b \<and> tfStatus r = ''ACTIVE'' \<and> dialable (tfNumber r)"
    if "brTfn b = Some t"
    using room_okD(2) [OF ok that] inv by (auto simp: has_tfn_def inventory_def tfn_ok_def)
  ultimately show ?thesis
    using inv room_okD(1) [OF ok] by (simp add: inventory_def limit_ok_def)
qed
definition sample_created :: db where
  "sample_created = sample_db\<lparr>bridges := bridges sample_db @ [new_room ''id2'' ''w2'' ''Hall'' 5]\<rparr>"

lemma sample_create:
  "bridges_handler fine (\<lambda>s. s) (\<lambda>_. JNull) (\<lambda>_. None) ''w2'' ''POST'' (Some ''Hall'') sample_db =
     (answer 201 [(''id'', JStr ''id2''), (''name'', JStr ''Hall'')], sample_created)"
proof -
  have "TrimSpace ''Hall'' = ''Hall''" by (rule TrimSpace_id) (simp add: space_byte_def go_spaces_def)
  moreover have "Itoa 2 = ''2''" by code_simp
  ultimately show ?thesis
    by (simp add: bridges_handler_def create_room_def blank_def fine_def sample_db_def sample_created_def
        insert_bridge_def new_room_def limit_ok_def same_name_def)
qed

theorem number_inventory_witness:
  "filter (\<lambda>c. brTfn c = Some ''t1'') (bridges sample_created) = [hd (bridges sample_db)] \<and> length (bridges sample_created) = 3"
proof -
  have "platform_step\<^sup>*\<^sup>* sample_db sample_created"
    by (rule r_into_rtranclp) (rule platform_step.rooms [OF sample_create])
  moreover have "hd (bridges sample_db) \<in> set (bridges sample_created)"
    by (simp add: sample_created_def sample_db_def)
  ultimately show ?thesis
    using number_inventory [OF _ sample_platform_ok, of sample_created "hd (bridges sample_db)" "''t1''"]
    by (auto simp: sample_db_def sample_created_def)
qed

section \<open>Deleting a room\<close>

text \<open>What belongs to a room before it is deleted.\<close>

definition of_room :: "string \<Rightarrow> db \<Rightarrow> string set" where
  "of_room br d = paID ` {p \<in> set (participants d). paBridge p = br}"

definition calls_of_room :: "string \<Rightarrow> db \<Rightarrow> string set" where
  "calls_of_room br d = lgID ` {l \<in> set (legs d). lgBridge l = br \<or> lgParticipant l \<in> of_room br d}"

lemma of_room_iff: "i \<in> of_room br d \<longleftrightarrow> (\<exists>p \<in> set (participants d). paID p = i \<and> paBridge p = br)"
  by (auto simp: of_room_def)

lemma delete_room_gone:
  "brID ` set (bridges (delete_room br d)) = brID ` set (bridges d) - {br}"
  "p \<in> set (participants (delete_room br d)) \<longleftrightarrow> p \<in> set (participants d) \<and> paBridge p \<noteq> br"
  "l \<in> set (legs (delete_room br d)) \<longleftrightarrow> l \<in> set (legs d) \<and> lgBridge l \<noteq> br \<and> lgParticipant l \<notin> of_room br d"
  by (auto simp: delete_room_def delete_participants_def Let_def of_room_iff)

lemma delete_room_sessions:
  assumes "s \<in> set (sessions (delete_room br d))"
  shows "seBridge s \<noteq> br \<and> (\<forall>h. seHost s = Some h \<longrightarrow> h \<notin> of_room br d)"
  using assms by (auto simp: delete_room_def delete_participants_def Let_def of_room_iff forget_Some)

lemma delete_room_requests:
  assumes "r \<in> set (requests (delete_room br d))"
  shows "rqBridge r \<noteq> br \<and> rqParticipant r \<notin> of_room br d \<and> (\<forall>l. rqLeg r = Some l \<longrightarrow> l \<notin> calls_of_room br d)"
proof -
  let ?d = "delete_participants (\<lambda>p. paBridge p = br) d"
  obtain g where g: "\<And>i. g i \<longleftrightarrow> (\<exists>l \<in> set (legs ?d). lgID l = i \<and> lgBridge l = br)"
    and r: "requests (delete_room br d) = map (\<lambda>r. r\<lparr>rqLeg := forget g (rqLeg r)\<rparr>)
      (filter (\<lambda>r. rqBridge r \<noteq> br) (requests ?d))"
    using delete_room_parts(3) [where br = br and d = d] by blast
  obtain q where q: "q \<in> set (requests ?d)" "rqBridge q \<noteq> br" "r = q\<lparr>rqLeg := forget g (rqLeg q)\<rparr>"
    using assms unfolding r by auto
  from q(1) obtain q0 where q0: "q0 \<in> set (requests d)" "rqParticipant q0 \<notin> of_room br d" "rqParticipant q = rqParticipant q0"
    "rqLeg q = forget (\<lambda>i. \<exists>l \<in> set (legs d). lgID l = i \<and> lgParticipant l \<in> of_room br d) (rqLeg q0)"
    by (auto simp: delete_participants_def Let_def of_room_iff)
  have "l \<notin> calls_of_room br d" if "rqLeg r = Some l" for l
  proof
    assume "l \<in> calls_of_room br d"
    then obtain x where x: "x \<in> set (legs d)" "lgID x = l" "lgBridge x = br \<or> lgParticipant x \<in> of_room br d"
      by (auto simp: calls_of_room_def)
    have n: "\<not> g l" "rqLeg q = Some l" using that q(3) by (simp_all add: forget_Some)
    then have "lgParticipant x \<notin> of_room br d" using q0(4) x by (simp add: forget_Some)
    then have "x \<in> set (legs ?d)" using x(1) by (auto simp: delete_participants_def Let_def of_room_iff)
    with n(1) g x show False using \<open>lgParticipant x \<notin> of_room br d\<close> by blast
  qed
  with q q0 show ?thesis by simp
qed

text \<open>The items of imports that go: those of the room's participants, which the handler deletes first, and
  those of its imports. The others are not touched, since their participants stay.\<close>

lemma deleted_items:
  "items (delete_room br (d\<lparr>items := filter (\<lambda>i. \<not> room_item br d i) (items d)\<rparr>)) =
     filter (\<lambda>i. \<not> room_item br d i \<and> \<not> (\<exists>b \<in> set (batches d). baID b = itBatch i \<and> baBridge b = br)) (items d)"
proof -
  let ?gone = "\<lambda>i. \<exists>p \<in> set (participants d). paID p = i \<and> paBridge p = br"
  let ?rest = "filter (\<lambda>i. \<not> room_item br d i) (items d)"
  have "map (\<lambda>i. i\<lparr>itParticipant := forget ?gone (itParticipant i)\<rparr>) ?rest = ?rest"
  proof (rule map_idI)
    fix i assume "i \<in> set ?rest"
    then have "forget ?gone (itParticipant i) = itParticipant i" by (intro forget_id) (auto simp: room_item_def)
    then show "i\<lparr>itParticipant := forget ?gone (itParticipant i)\<rparr> = i" by simp
  qed
  then show ?thesis by (simp add: delete_room_def delete_participants_def Let_def conj_commute)
qed

lemma delete_room_history:
  "batches (delete_room br d) = filter (\<lambda>b. baBridge b \<noteq> br) (batches d)"
  "e \<in> set (eventlog (delete_room br d)) \<Longrightarrow> evBridge e \<noteq> br \<and> (\<forall>p. evParticipant e = Some p \<longrightarrow> p \<notin> of_room br d)"
  by (auto simp: delete_room_def delete_participants_def Let_def of_room_iff forget_Some)

lemma delete_room_attendance:
  assumes "a \<in> set (attendance (delete_room br d))"
  shows "(\<forall>s \<in> set (sessions d). seBridge s = br \<longrightarrow> atSession a \<noteq> seID s) \<and>
    (\<forall>p. atParticipant a = Some p \<longrightarrow> p \<notin> of_room br d) \<and> (\<forall>l. atLeg a = Some l \<longrightarrow> l \<notin> calls_of_room br d)"
proof -
  let ?d = "delete_participants (\<lambda>p. paBridge p = br) d"
  have legs: "l \<in> set (legs ?d) \<longleftrightarrow> l \<in> set (legs d) \<and> lgParticipant l \<notin> of_room br d" for l
    by (auto simp: delete_participants_def Let_def of_room_iff)
  have sess: "\<exists>t \<in> set (sessions ?d). seID t = seID s \<and> seBridge t = seBridge s" if "s \<in> set (sessions d)" for s
    using that by (force simp: delete_participants_def Let_def)
  obtain b where b: "b \<in> set (attendance ?d)" "\<not> (\<exists>s \<in> set (sessions ?d). seID s = atSession b \<and> seBridge s = br)"
    "a = b\<lparr>atLeg := forget (\<lambda>i. \<exists>l \<in> set (legs ?d). lgID l = i \<and> lgBridge l = br) (atLeg b)\<rparr>"
    using assms by (auto simp: delete_room_def Let_def)
  obtain c where c: "c \<in> set (attendance d)"
    "b = c\<lparr>atParticipant := forget (\<lambda>i. i \<in> of_room br d) (atParticipant c),
      atLeg := forget (\<lambda>i. \<exists>l \<in> set (legs d). lgID l = i \<and> lgParticipant l \<in> of_room br d) (atLeg c)\<rparr>"
    using b(1) by (auto simp: delete_participants_def Let_def of_room_iff)
  have "l \<notin> calls_of_room br d" if al: "atLeg a = Some l" for l
  proof
    assume "l \<in> calls_of_room br d"
    then obtain x where x: "x \<in> set (legs d)" "lgID x = l" "lgBridge x = br \<or> lgParticipant x \<in> of_room br d"
      by (auto simp: calls_of_room_def)
    define g where "g = (\<lambda>i. \<exists>y \<in> set (legs ?d). lgID y = i \<and> lgBridge y = br)"
    have "atLeg b = Some l" and n: "\<not> g l" using al b(3) [folded g_def] by (simp_all add: forget_Some)
    from this(1) have "lgParticipant x \<notin> of_room br d" using x(1,2) unfolding c(2) by (simp add: forget_Some)
    with x legs n show False unfolding g_def by blast
  qed
  moreover have "p \<notin> of_room br d" if "atParticipant a = Some p" for p
    using that by (simp add: b(3) c(2) forget_Some)
  moreover have "atSession a \<noteq> seID s" if "s \<in> set (sessions d)" "seBridge s = br" for s
    using sess [OF that(1)] that(2) b(2) by (auto simp: b(3))
  ultimately show ?thesis by blast
qed

text \<open>C37: deleting a room either changes nothing, or answers 200 after it found no live call in the room; then
  no row is left that is of the room or of its participants and calls: no participant, call, session, speaker
  request, import, import item, event or attendance, and no reference to one. Of the other rooms no row of
  bridges, participants, calls, imports or import items is touched.\<close>

theorem delete_room_clean:
  assumes "deleteBridge W ws br d = (r, d')"
  shows "(code r \<noteq> 200 \<longrightarrow> d' = d) \<and>
    (code r = 200 \<longrightarrow>
      (\<exists>b \<in> set (bridges d). brID b = br \<and> brWorkspace b = ws) \<and>
      filter (\<lambda>l. lgBridge l = br \<and> \<not> terminal_leg (lgState l)) (legs d) = [] \<and>
      bridges d' = filter (\<lambda>b. brID b \<noteq> br) (bridges d) \<and>
      participants d' = filter (\<lambda>p. paBridge p \<noteq> br) (participants d) \<and>
      (\<forall>l. l \<in> set (legs d') \<longleftrightarrow> l \<in> set (legs d) \<and> lgBridge l \<noteq> br \<and> lgParticipant l \<notin> of_room br d) \<and>
      (\<forall>s \<in> set (sessions d'). seBridge s \<noteq> br \<and> (\<forall>h. seHost s = Some h \<longrightarrow> h \<notin> of_room br d)) \<and>
      (\<forall>q \<in> set (requests d'). rqBridge q \<noteq> br \<and> rqParticipant q \<notin> of_room br d \<and>
         (\<forall>l. rqLeg q = Some l \<longrightarrow> l \<notin> calls_of_room br d)) \<and>
      batches d' = filter (\<lambda>b. baBridge b \<noteq> br) (batches d) \<and>
      items d' = filter (\<lambda>i. \<not> (\<exists>p \<in> of_room br d. itParticipant i = Some p) \<and>
         \<not> (\<exists>b \<in> set (batches d). baID b = itBatch i \<and> baBridge b = br)) (items d) \<and>
      (\<forall>a \<in> set (attendance d'). (\<forall>s \<in> set (sessions d). seBridge s = br \<longrightarrow> atSession a \<noteq> seID s) \<and>
         (\<forall>p. atParticipant a = Some p \<longrightarrow> p \<notin> of_room br d) \<and> (\<forall>l. atLeg a = Some l \<longrightarrow> l \<notin> calls_of_room br d)) \<and>
      (\<forall>e \<in> set (eventlog d'). evBridge e \<noteq> br \<and> (\<forall>p. evParticipant e = Some p \<longrightarrow> p \<notin> of_room br d)))"
  using assms
proof (cases rule: deleteBridge_cases)
  case 1
  then show ?thesis by simp
next
  case (2 b)
  let ?d = "d\<lparr>items := filter (\<lambda>i. \<not> room_item br d i) (items d)\<rparr>"
  have same: "of_room br ?d = of_room br d" "calls_of_room br ?d = calls_of_room br d"
    by (simp_all add: of_room_def calls_of_room_def)
  have item: "room_item br d i \<longleftrightarrow> (\<exists>p \<in> of_room br d. itParticipant i = Some p)" for i
    by (auto simp: room_item_def of_room_def)
  have d': "d' = delete_room br ?d" by (rule 2(4))
  have "\<exists>b \<in> set (bridges d). brID b = br \<and> brWorkspace b = ws" and "filter (\<lambda>l. lgBridge l = br \<and> \<not> terminal_leg (lgState l)) (legs d) = []"
    using 2(1,2) by (auto simp: room_rows_def room_live_legs_def)
  moreover have "bridges d' = filter (\<lambda>b. brID b \<noteq> br) (bridges d)" "participants d' = filter (\<lambda>p. paBridge p \<noteq> br) (participants d)"
    unfolding d' by (simp_all add: delete_room_def delete_participants_def Let_def)
  moreover have "\<forall>l. l \<in> set (legs d') \<longleftrightarrow> l \<in> set (legs d) \<and> lgBridge l \<noteq> br \<and> lgParticipant l \<notin> of_room br d"
    using delete_room_gone(3) [of _ br ?d] by (simp add: d' same)
  moreover have "\<forall>s \<in> set (sessions d'). seBridge s \<noteq> br \<and> (\<forall>h. seHost s = Some h \<longrightarrow> h \<notin> of_room br d)"
    using delete_room_sessions [of _ br ?d] unfolding d' same by blast
  moreover have "\<forall>q \<in> set (requests d'). rqBridge q \<noteq> br \<and> rqParticipant q \<notin> of_room br d \<and>
      (\<forall>l. rqLeg q = Some l \<longrightarrow> l \<notin> calls_of_room br d)"
    using delete_room_requests [of _ br ?d] unfolding d' same by blast
  moreover have "batches d' = filter (\<lambda>b. baBridge b \<noteq> br) (batches d)"
    unfolding d' delete_room_history(1) by simp
  moreover have "items d' = filter (\<lambda>i. \<not> (\<exists>p \<in> of_room br d. itParticipant i = Some p) \<and>
      \<not> (\<exists>b \<in> set (batches d). baID b = itBatch i \<and> baBridge b = br)) (items d)"
    using deleted_items [of br d] unfolding d' item .
  moreover have "\<forall>a \<in> set (attendance d'). (\<forall>s \<in> set (sessions d). seBridge s = br \<longrightarrow> atSession a \<noteq> seID s) \<and>
      (\<forall>p. atParticipant a = Some p \<longrightarrow> p \<notin> of_room br d) \<and> (\<forall>l. atLeg a = Some l \<longrightarrow> l \<notin> calls_of_room br d)"
    using delete_room_attendance [of _ br ?d] unfolding d' same by simp
  moreover have "\<forall>e \<in> set (eventlog d'). evBridge e \<noteq> br \<and> (\<forall>p. evParticipant e = Some p \<longrightarrow> p \<notin> of_room br d)"
    using delete_room_history(2) [of _ br ?d] unfolding d' same by blast
  ultimately show ?thesis using 2(3) by simp
qed

theorem delete_room_clean_witness:
  "map brID (bridges (snd (deleteBridge fine ''w1'' ''r1'' sample_db))) = [''r2''] \<and>
   map paID (participants (snd (deleteBridge fine ''w1'' ''r1'' sample_db))) = [''p3''] \<and>
   items (snd (deleteBridge fine ''w1'' ''r1'' sample_db)) = []"
proof -
  obtain r d' where e: "deleteBridge fine ''w1'' ''r1'' sample_db = (r, d')" by fastforce
  have "code r = 200"
    using e by (auto simp: deleteBridge_def fine_def sample_db_def query_row_def room_rows_def room_live_legs_def
        sql_exec_def sql_commit_def)
  with delete_room_clean [OF e] e show ?thesis by (simp add: sample_db_def)
qed

section \<open>Importing a roster\<close>

lemma at_most_one: "\<not> 1 < n \<Longrightarrow> (\<not> Q \<Longrightarrow> n \<noteq> 1) \<Longrightarrow> n \<le> (if Q then 1 else 0)" for n :: nat
  by (cases n) auto

lemma batch_cases:
  assumes "batch W ws br (Some i) d = (r, d')"
  obtains "d' = d" "code r \<noteq> 201"
  | b x d1 where "query_row W 0 (room_rows ws br d) = Row b" "batch_refusal b (roster_count ws br d) (biContacts i) = None"
      "insert_batch x d = Some d1" "import_contacts W 3 ws br (wid W 2) (biContacts i) d1 = Inr d'" "code r = 201"
proof (cases "biContacts i = []")
  case True
  with assms that(1) show ?thesis by (auto simp: batch_def)
next
  case ne: False
  show ?thesis
  proof (cases "query_row W 0 (room_rows ws br d)")
    case (Row b)
    show ?thesis
    proof (cases "batch_refusal b (roster_count ws br d) (biContacts i)")
      case (Some e)
      moreover from this have "code e \<noteq> 201" by (auto simp: batch_refusal_def Let_def split: if_splits)
      ultimately show ?thesis using assms ne Row that(1) by (simp add: batch_def)
    next
      case None
      let ?b = "\<lparr>baID = wid W 2, baWorkspace = ws, baBridge = br, baStatus = ''IMPORTED'',
        baConcurrency = maxInt (biConcurrency i) 16, baRate = maxInt (biRate i) 8\<rparr>"
      show ?thesis
      proof (cases "\<exists>d1. \<not> wfail W 1 \<and> sql_exec W 2 (insert_batch ?b) d = Inr d1 \<and>
          import_contacts W 3 ws br (wid W 2) (biContacts i) d1 = Inr d' \<and> code r = 201")
        case True
        then show ?thesis using Row None that(2) by (auto simp: sql_exec_Inr)
      next
        case False
        then have "d' = d \<and> code r \<noteq> 201"
          using assms ne Row None
          by (cases "wfail W 1"; cases "sql_exec W 2 (insert_batch ?b) d")
            (auto simp: batch_def sql_failure_def split: sum.splits)
        then show ?thesis using that(1) by blast
      qed
    qed
  qed (use assms ne that(1) in \<open>auto simp: batch_def\<close>)
qed

text \<open>What one imported contact adds.\<close>

lemma import_contact_adds:
  assumes "import_contact W k ws br bid c d = Inr d'"
  obtains p i where "participants d' = participants d @ [p]" "items d' = items d @ [i]"
    "paWorkspace p = ws" "paBridge p = br" "paName p = TrimSpace (ciName c)" "paPhone p = TrimSpace (ciPhone c)"
    "paRole p = normalizeParticipantRole (ciRole c)" "paDesired p = (if host_contact c then ''ACTIVE'' else ''MUTED'')"
    "itBatch i = bid" "itParticipant i = Some (paID p)" "itStatus i = ''ROSTERED''"
proof -
  let ?p = "\<lambda>role st. \<lparr>paID = wid W (k + 1), paWorkspace = ws, paBridge = br, paName = TrimSpace (ciName c),
    paPhone = TrimSpace (ciPhone c), paDesired = st, paRole = role\<rparr>"
  let ?i = "\<lparr>itID = wid W (k + 2), itWorkspace = ws, itBatch = bid, itName = TrimSpace (ciName c),
       itPhone = TrimSpace (ciPhone c), itStatus = ''ROSTERED'', itParticipant = Some (wid W (k + 1)), itError = None\<rparr>"
  have same: "participants e = participants d \<and> items e = items d" if "name_host W k ws br n ph d = Inr e" for n ph e
    using that by (auto simp: name_host_def on_room_def split: if_splits)
  have ins: "participants f = participants e @ [p] \<and> items f = items e" if "insert_participant p e = Some f" for p e f
    using insert_participant_Some [OF that] by simp
  have role: "normalizeParticipantRole (ciRole c) = (if host_contact c then ''HOST'' else ''LISTENER'')"
    by (simp add: host_contact_def normalizeParticipantRole_def)
  obtain e where e: "participants e = participants d @ [?p (if host_contact c then ''HOST'' else ''LISTENER'')
        (if host_contact c then ''ACTIVE'' else ''MUTED'')]" "items e = items d" "insert_item ?i e = Some d'"
  proof (cases "host_contact c")
    case True
    with assms obtain d1 e where "name_host W k ws br (TrimSpace (ciName c)) (TrimSpace (ciPhone c)) d = Inr d1"
        "insert_participant (?p ''HOST'' ''ACTIVE'') d1 = Some e" "insert_item ?i e = Some d'"
      by (auto simp: import_contact_def Let_def sql_exec_Inr split: sum.splits)
    with True same ins that [of e] show ?thesis by fastforce
  next
    case False
    with assms obtain e where "insert_participant (?p ''LISTENER'' ''MUTED'') d = Some e" "insert_item ?i e = Some d'"
      by (auto simp: import_contact_def Let_def sql_exec_Inr split: sum.splits)
    with False ins that [of e] show ?thesis by fastforce
  qed
  have "d' = e\<lparr>items := items e @ [?i]\<rparr>" using e(3) by (simp add: insert_item_def split: if_splits)
  with e(1,2) role show ?thesis
    by (intro that [of "?p (if host_contact c then ''HOST'' else ''LISTENER'') (if host_contact c then ''ACTIVE'' else ''MUTED'')" ?i])
      simp_all
qed

lemma import_contacts_adds:
  "import_contacts W k ws br bid cs d = Inr d' \<Longrightarrow>
   \<exists>ps its. participants d' = participants d @ ps \<and> items d' = items d @ its \<and>
     map (\<lambda>p. (paName p, paPhone p, paRole p)) ps =
       map (\<lambda>c. (TrimSpace (ciName c), TrimSpace (ciPhone c), normalizeParticipantRole (ciRole c))) cs \<and>
     (\<forall>p \<in> set ps. paWorkspace p = ws \<and> paBridge p = br) \<and>
     map itParticipant its = map (\<lambda>p. Some (paID p)) ps \<and> (\<forall>i \<in> set its. itBatch i = bid \<and> itStatus i = ''ROSTERED'')"
proof (induction cs arbitrary: k d)
  case Nil
  then show ?case by (simp add: sql_commit_Inr)
next
  case (Cons c cs)
  then obtain d1 where d1: "import_contact W k ws br bid c d = Inr d1" "import_contacts W (k + 3) ws br bid cs d1 = Inr d'"
    by (auto split: sum.splits)
  from d1(1) obtain p i where pi: "participants d1 = participants d @ [p]" "items d1 = items d @ [i]"
    "paWorkspace p = ws" "paBridge p = br" "paName p = TrimSpace (ciName c)" "paPhone p = TrimSpace (ciPhone c)"
    "paRole p = normalizeParticipantRole (ciRole c)" "itBatch i = bid" "itParticipant i = Some (paID p)" "itStatus i = ''ROSTERED''"
    by (rule import_contact_adds)
  from Cons.IH [OF d1(2)] obtain ps its where "participants d' = participants d1 @ ps" "items d' = items d1 @ its"
    "map (\<lambda>p. (paName p, paPhone p, paRole p)) ps =
       map (\<lambda>c. (TrimSpace (ciName c), TrimSpace (ciPhone c), normalizeParticipantRole (ciRole c))) cs"
    "\<forall>p \<in> set ps. paWorkspace p = ws \<and> paBridge p = br"
    "map itParticipant its = map (\<lambda>p. Some (paID p)) ps" "\<forall>i \<in> set its. itBatch i = bid \<and> itStatus i = ''ROSTERED''"
    by blast
  with pi show ?case by (intro exI [of _ "p # ps"] exI [of _ "i # its"]) simp
qed

text \<open>C36: an import is all or nothing. Either nothing changes, or the answer is 201, the room was stopped, every
  contact is a new participant with its trimmed name and number and its role, in order, with a
  batch item each, and the roster is then within the room's limit.\<close>

theorem import_all_or_nothing:
  assumes "batch W ws br (Some i) d = (r, d')"
  shows "(code r \<noteq> 201 \<longrightarrow> d' = d) \<and>
    (code r = 201 \<longrightarrow>
      (\<exists>b \<in> set (room_rows ws br d). \<not> busy (brState b) \<and> roster_count ws br d' \<le> brLimit b \<and>
         length (filter host_contact (biContacts i)) \<le> (if coalesce_text (brHostPhone b) = '''' then 1 else 0)) \<and>
      (\<exists>ps its. participants d' = participants d @ ps \<and> items d' = items d @ its \<and>
        map (\<lambda>p. (paName p, paPhone p, paRole p)) ps =
          map (\<lambda>c. (TrimSpace (ciName c), TrimSpace (ciPhone c), normalizeParticipantRole (ciRole c))) (biContacts i) \<and>
        map itParticipant its = map (\<lambda>p. Some (paID p)) ps \<and>
        roster_count ws br d' = roster_count ws br d + int (length (biContacts i))))"
  using assms
proof (cases rule: batch_cases)
  case 1
  then show ?thesis by simp
next
  case (2 b x d1)
  note row = 2(1) and none = 2(2) and d1 = 2(3,4) and code = 2(5)
  have same: "participants d1 = participants d" "items d1 = items d"
    using d1(1) by (auto simp: insert_batch_def split: if_splits)
  obtain ps its where ps: "participants d' = participants d @ ps" "items d' = items d @ its"
    "map (\<lambda>p. (paName p, paPhone p, paRole p)) ps =
       map (\<lambda>c. (TrimSpace (ciName c), TrimSpace (ciPhone c), normalizeParticipantRole (ciRole c))) (biContacts i)"
    "\<forall>p \<in> set ps. paWorkspace p = ws \<and> paBridge p = br" "map itParticipant its = map (\<lambda>p. Some (paID p)) ps"
    using import_contacts_adds [OF d1(2)] unfolding same by (elim exE conjE) (rule that)
  have "length ps = length (biContacts i)" using arg_cong [OF ps(3), of length] by simp
  moreover have "filter (\<lambda>p. paBridge p = br \<and> paWorkspace p = ws) ps = ps" using ps(4) by (simp add: filter_id_conv)
  ultimately have count: "roster_count ws br d' = roster_count ws br d + int (length (biContacts i))"
    using ps(1) by (simp add: roster_count_def)
  have "b \<in> set (room_rows ws br d)" using row by (rule query_row_Row)
  moreover have "\<not> busy (brState b)" "roster_count ws br d' \<le> brLimit b"
      "\<not> 1 < length (filter host_contact (biContacts i))"
      "coalesce_text (brHostPhone b) \<noteq> '''' \<Longrightarrow> length (filter host_contact (biContacts i)) \<noteq> 1"
    using none count by (auto simp: batch_refusal_def Let_def split: if_splits)
  moreover from this(3,4) have
      "length (filter host_contact (biContacts i)) \<le> (if coalesce_text (brHostPhone b) = '''' then 1 else 0)"
    by (rule at_most_one)
  ultimately have "\<exists>b \<in> set (room_rows ws br d). \<not> busy (brState b) \<and> roster_count ws br d' \<le> brLimit b \<and>
      length (filter host_contact (biContacts i)) \<le> (if coalesce_text (brHostPhone b) = '''' then 1 else 0)"
    by blast
  with code show ?thesis
    by (intro conjI impI exI [of _ ps] exI [of _ its] ps(1,2,3,5) count) simp_all
qed

definition sample_contacts :: batch_in where
  "sample_contacts = \<lparr>biContacts = [\<lparr>ciName = ''Ivo'', ciPhone = ''9000000001'', ciRole = ''''\<rparr>,
     \<lparr>ciName = ''Uma'', ciPhone = ''9000000002'', ciRole = ''listener''\<rparr>], biConcurrency = 0, biRate = 0\<rparr>"

theorem import_all_or_nothing_witness:
  "roster_count ''w1'' ''r1'' (snd (batch fine ''w1'' ''r1'' (Some sample_contacts) sample_db)) = 4"
proof -
  obtain r d' where e: "batch fine ''w1'' ''r1'' (Some sample_contacts) sample_db = (r, d')" by fastforce
  have "code (fst (batch fine ''w1'' ''r1'' (Some sample_contacts) sample_db)) = 201" by code_simp
  then have "code r = 201" by (simp only: e fst_conv)
  moreover have "roster_count ''w1'' ''r1'' sample_db = 2" by code_simp
  moreover have "roster_count ''w1'' ''r1'' d' = roster_count ''w1'' ''r1'' sample_db + int (length (biContacts sample_contacts))"
    using import_all_or_nothing [OF e] \<open>code r = 201\<close> by blast
  ultimately have "roster_count ''w1'' ''r1'' d' = 4" by (simp add: sample_contacts_def)
  then show ?thesis by (simp only: e snd_conv)
qed

end
