(* ===== verification/RoomProps.thy ===== *)
theory RoomProps
  imports PlatformProps
begin

text \<open>
  The main properties of rooms and sessions, over every request of the whole control API: exclusive
  hosts, sessions and speaker requests in every reachable state, and the isolation of workspaces.
\<close>

lemma exclusive_count:
  assumes "distinct (map g (filter Q rs))"
  shows "length (filter (\<lambda>r. g r = v \<and> Q r) rs) \<le> 1"
  using assms
proof (induction rs)
  case (Cons r rs)
  have "filter (\<lambda>r. g r = v \<and> Q r) rs = []" if "Q r" "g r = v"
  proof -
    have "\<not> Q x" if "x \<in> set rs" "g x = v" for x
      using Cons.prems \<open>Q r\<close> \<open>g r = v\<close> that imageI [of x "{x \<in> set rs. Q x}" g] by auto
    then show ?thesis by (simp add: filter_empty_conv)
  qed
  with Cons show ?case by (auto split: if_splits)
qed simp

text \<open>The rooms with their waiting goroutines (theory RoomSystem) are a part of the platform.\<close>

lemma system_platform: "system_step S S' \<Longrightarrow> platform_step (tables S) (tables S')"
  by (erule system_stepE) (auto intro: platform_step.intros)

lemma reachable_platform: "reachable_from S S' \<Longrightarrow> platform_step\<^sup>*\<^sup>* (tables S) (tables S')"
  unfolding reachable_from_def
  by (induction rule: rtranclp_induct) (auto intro: system_platform rtranclp.rtrancl_into_rtrancl)

text \<open>C1: whatever workspaces and product administrators request - rooms, rosters, imports, deletions, starts,
  calls, decisions on speakers, and everything of the administration -, whatever sidecars and callers report,
  however the waiting goroutines run, and whatever statements fail, a room never has more than one active
  session, more than one host, or two open speaker requests of one participant. The tables at the beginning
  have to satisfy their keys, references and indexes, as empty ones do.\<close>

theorem rooms_exclusive:
  assumes "platform_step\<^sup>*\<^sup>* d0 d" and "platform_ok d0"
  shows "length (filter (\<lambda>s. seBridge s = br \<and> active_session (seStatus s)) (sessions d)) \<le> 1 \<and>
    length (filter (\<lambda>p. paBridge p = br \<and> paRole p = ''HOST'') (participants d)) \<le> 1 \<and>
    length (filter (\<lambda>r. (rqBridge r, rqParticipant r) = (br, pid) \<and> open_request (rqStatus r)) (requests d)) \<le> 1"
proof -
  have "exclusive d" using platform_steps_ok [OF assms] by (simp add: platform_ok_def)
  then have "distinct (map seBridge (filter (\<lambda>s. active_session (seStatus s)) (sessions d)))"
    "distinct (map paBridge (filter (\<lambda>p. paRole p = ''HOST'') (participants d)))"
    "distinct (map (\<lambda>r. (rqBridge r, rqParticipant r)) (filter (\<lambda>r. open_request (rqStatus r)) (requests d)))"
    by (simp_all add: exclusive_def one_session_def one_host_def one_request_def)
  from this(1) [THEN exclusive_count, of br] this(2) [THEN exclusive_count, of br]
    this(3) [THEN exclusive_count, of "(br, pid)"]
  show ?thesis by blast
qed

text \<open>After the start of the room, whose host is then called, and the import of two more participants.\<close>

definition sample_imported :: db where
  "sample_imported = snd (batch fine ''w1'' ''r1'' (Some sample_contacts) sample_db)"

lemma sample_platform_steps: "platform_step\<^sup>*\<^sup>* sample_db sample_started" "platform_step\<^sup>*\<^sup>* sample_db sample_imported"
proof -
  show "platform_step\<^sup>*\<^sup>* sample_db sample_started"
    using reachable_platform [OF sample_reachable] by (simp add: sample_system_def sample_running_def)
  show "platform_step\<^sup>*\<^sup>* sample_db sample_imported"
    unfolding sample_imported_def by (rule r_into_rtranclp) (rule platform_step.roster [OF surjective_pairing])
qed

theorem rooms_exclusive_witness:
  "map seStatus (filter (\<lambda>s. seBridge s = ''r1'' \<and> active_session (seStatus s)) (sessions sample_started)) = [''STARTING''] \<and>
    length (filter (\<lambda>s. seBridge s = ''r1'' \<and> active_session (seStatus s)) (sessions sample_started)) \<le> 1 \<and>
    length (filter (\<lambda>p. paBridge p = ''r1'' \<and> paRole p = ''HOST'') (participants sample_imported)) \<le> 1 \<and>
    length (participants sample_imported) = 5"
proof (intro conjI)
  show "map seStatus (filter (\<lambda>s. seBridge s = ''r1'' \<and> active_session (seStatus s)) (sessions sample_started)) = [''STARTING'']"
    by code_simp
  show "length (participants sample_imported) = 5" by code_simp
qed (use rooms_exclusive [OF sample_platform_steps(1) sample_platform_ok, of "''r1''"]
  rooms_exclusive [OF sample_platform_steps(2) sample_platform_ok, of "''r1''"] in simp_all)

section \<open>Isolation\<close>

text \<open>A request that reaches the tables with the session of the workspace \<open>ws\<close>: the operations of
  \<open>tenant_step\<close> and those of one room or import that RoomList and Batches model. All identifiers in it
  are the caller's. The other requests of a workspace only read the tables or are about accounts.\<close>

inductive workspace_step :: "string \<Rightarrow> db \<Rightarrow> db \<Rightarrow> bool" for ws where
  tenant: "tenant_step ws S S' \<Longrightarrow> workspace_step ws (tables S) (tables S')"
| rooms: "bridges_handler W lo created role ws meth name d = (r, d') \<Longrightarrow> workspace_step ws d d'"
| delete: "deleteBridge W ws br d = (r, d') \<Longrightarrow> workspace_step ws d d'"
| roster: "batch W ws br b d = (r, d') \<Longrightarrow> workspace_step ws d d'"
| roster_state: "batchState W ws path d = (r, d') \<Longrightarrow> workspace_step ws d d'"
| show_room: "bridgeState W F stamp created ws br d = (r, d') \<Longrightarrow> workspace_step ws d d'"

lemma workspace_platform: "workspace_step ws d d' \<Longrightarrow> platform_step d d'"
  by (erule workspace_step.cases) (auto intro: platform_step.intros)

lemma changes_shared: "changes A d d' \<Longrightarrow> workspaces d' = workspaces d \<and> tfns d' = tfns d"
  by (induction rule: changes_induct) (auto dest: stmt_inventory)

lemma changes_isolated:
  "changes {ws} d d' \<Longrightarrow> consistent d \<Longrightarrow>
     foreign {ws} d' = foreign {ws} d \<and> workspaces d' = workspaces d \<and> tfns d' = tfns d"
  using changes_foreign changes_shared by blast

lemma imports_isolated:
  "foreign A (d\<lparr>batches := bs\<rparr>) = foreign A d" "consistent (d\<lparr>batches := bs\<rparr>) = consistent d"
  "foreign A (d\<lparr>items := is\<rparr>) = foreign A d" "consistent (d\<lparr>items := is\<rparr>) = consistent d"
  "housed (d\<lparr>items := is\<rparr>) = housed d" "bkeys (d\<lparr>items := is\<rparr>) = bkeys d"
  by (simp_all add: foreign_def consistent_def housed_def pkeys_def lkeys_def bkeys_def)

lemma workspace_isolated:
  assumes "workspace_step ws d d'" and "consistent d" and "housed d"
  shows "foreign {ws} d' = foreign {ws} d \<and> workspaces d' = workspaces d \<and> tfns d' = tfns d"
  using assms(1)
proof cases
  case (tenant S S')
  then show ?thesis using changes_isolated [OF _ assms(2)] tenant_step_changes by blast
next
  case (rooms W lo created role meth name r)
  then show ?thesis
    by (auto simp: bridges_handler_def create_room_def insert_bridge_def new_room_def foreign_def
        split: if_splits option.splits list.splits)
next
  case (delete W br r)
  then show ?thesis
  proof (cases rule: deleteBridge_cases)
    case (2 b)
    then have "(br, ws) \<in> bkeys d" by (intro room_rows_bkeys)
    then show ?thesis
      unfolding 2(4) using assms(2,3) by (subst delete_room_foreign) (simp_all add: imports_isolated)
  qed simp
next
  case (roster W br b r)
  then obtain bs where "changes {ws} (d\<lparr>batches := bs\<rparr>) d'" by (rule batch_parts)
  then show ?thesis using changes_isolated assms(2) by (fastforce simp: imports_isolated)
next
  case (roster_state W path r)
  then show ?thesis
    by (auto simp: batchState_def Let_def sql_try_def set_batch_def imports_isolated split: fetched_row.splits if_splits)
next
  case (show_room W F stamp created br r)
  then show ?thesis using changes_isolated [OF bridgeState_changes assms(2)] by blast
qed

lemma platform_steps_housed: "platform_step\<^sup>*\<^sup>* d d' \<Longrightarrow> platform_ok d \<Longrightarrow> housed d \<Longrightarrow> housed d'"
  by (induction rule: rtranclp_induct) (auto intro: platform_change_housed platform_step_change platform_steps_ok)

text \<open>C2: in every reachable state, no request with the session of one workspace, whatever identifiers it names
  and whatever statements fail, changes a row of another: its rooms, participants, calls, sessions and speaker
  requests stay exactly as they were, in their order, and no workspace and no telephone number is changed at
  all. This includes the requests that create, import into, show and delete rooms.\<close>

theorem tenant_isolation:
  assumes "platform_step\<^sup>*\<^sup>* d0 d" and "platform_ok d0" and "housed d0" and "workspace_step ws d d'"
  shows "foreign {ws} d' = foreign {ws} d \<and> workspaces d' = workspaces d \<and> tfns d' = tfns d"
proof -
  have "consistent d" using platform_steps_ok [OF assms(1,2)] by (simp add: platform_ok_def)
  then show ?thesis using platform_steps_housed [OF assms(1-3)] by (rule workspace_isolated [OF assms(4)])
qed

lemma sample_housed: "housed sample_db"
  by (simp add: housed_def bkeys_def sample_db_def)

theorem tenant_isolation_witness:
  "foreign {''w1''} (snd (deleteBridge fine ''w1'' ''r1'' sample_imported)) = foreign {''w1''} sample_imported \<and>
   map brID (bridges (snd (deleteBridge fine ''w1'' ''r1'' sample_imported))) = [''r2'']"
proof
  have "workspace_step ''w1'' sample_imported (snd (deleteBridge fine ''w1'' ''r1'' sample_imported))"
    by (rule workspace_step.delete [OF surjective_pairing])
  from tenant_isolation [OF sample_platform_steps(2) sample_platform_ok sample_housed this]
  show "foreign {''w1''} (snd (deleteBridge fine ''w1'' ''r1'' sample_imported)) = foreign {''w1''} sample_imported" by blast
  show "map brID (bridges (snd (deleteBridge fine ''w1'' ''r1'' sample_imported))) = [''r2'']" by code_simp
qed

end
