(* ===== verification/InputProps.thy ===== *)
theory InputProps
  imports Dialing ControlNodes
begin

text \<open>
  Properties of the pure parts of the control API: normalised numbers, slugs, address lists,
  discovery of the nodes and placement of a call.
\<close>

section \<open>Normal forms\<close>

text \<open>A number that is dialled is empty (and then refused) or a plus sign followed by digits, and
  normalising it again under any region leaves it as it is; the region is always a supported one.\<close>

theorem dial_number_normal_form:
  "(normalizeDialNumber phone region = [] \<or>
     dialable (normalizeDialNumber phone region) \<and>
     normalizeDialNumber (normalizeDialNumber phone region) other = normalizeDialNumber phone region) \<and>
   normalizeDialRegion region \<in> set supportedDialRegions"
  using normalizeDialNumber_cases [of phone region] by (auto intro: normalizeDialRegion_supported)

text \<open>A telephone number of a workspace is stored in E.164 form with 7 to 15 digits; storing it
  again and dialling it under any region leave it as it is.\<close>

theorem tfn_normal_form:
  "canonicalE164 v = [] \<or>
     dialable (canonicalE164 v) \<and> 8 \<le> length (canonicalE164 v) \<and> length (canonicalE164 v) \<le> 16 \<and>
     canonicalE164 (canonicalE164 v) = canonicalE164 v \<and>
     normalizeDialNumber (canonicalE164 v) region = canonicalE164 v"
  using canonicalE164_cases [of v] by (auto intro: canonicalE164_dialable)

text \<open>A workspace slug consists of lower-case letters, digits and single inner dashes, and making
  a slug of a slug gives it back.\<close>

theorem slug_normal_form: "well_formed_slug (slugify v) \<and> slugify (slugify v) = slugify v"
  using slugify_wf slugify_fixed by blast

section \<open>Address lists\<close>

text \<open>The sidecar and the standalone heartbeat read the same list of edges from the same setting:
  every non-blank entry once, trimmed, in order of first occurrence.\<close>

theorem heartbeat_targets_agree:
  "splitTargets v = heartbeat_targets v \<and> distinct (splitTargets v) \<and>
   set (splitTargets v) = TrimSpace ` set (split_on CHR '','' v) - {[]}"
  using sidecar_targets.parse_entries [of v] heartbeat_targets.parse_entries [of v]
  by (auto simp: target_entries_def)

text \<open>The control API's list of edge URLs read back from its own setting: distinct base URLs
  without commas and surrounding space, joined by commas, are parsed to themselves.\<close>

theorem edge_urls_roundtrip:
  assumes "us \<noteq> []" and "distinct us"
    and "\<forall>u \<in> set us. u \<noteq> [] \<and> CHR '','' \<notin> set u \<and> TrimSpace u = u \<and> httpBase u = u"
  shows "httpTargets (join_with CHR '','' us) = us"
proof -
  have "map httpBase us = us" using assms(3) by (simp add: map_idI)
  with assms show ?thesis using http_targets.parse_join [of us] by simp
qed

theorem edge_urls_roundtrip_witness:
  "httpTargets (join_with CHR '','' [''http://e1:8080'', ''https://e2'']) = [''http://e1:8080'', ''https://e2'']"
  by (rule edge_urls_roundtrip) code_simp+

section \<open>Discovery and placement\<close>

text \<open>The list of nodes comes from the first edge that answers with one: discovered edges are
  asked before configured ones, each at most once, every edge asked before it has failed, and an edge
  that fails never hides a later one that answers.\<close>

theorem node_discovery_failover:
  "nodes fetch scan urls = Inr ns \<longleftrightarrow>
     (\<exists>pre t post. uniq {} (filter (\<lambda>u. u \<noteq> []) (discoveredSipgoURLs scan @ urls)) = pre @ t # post \<and>
        fetch (nodes_url t) = NodeList ns \<and> (\<forall>p \<in> set pre. fetch_error (fetch (nodes_url p)) \<noteq> None))"
  by (simp add: nodes_def ordered_targets_eq nodes_loop_Inr)

theorem node_discovery_failover_witness:
  "\<exists>pre t post. uniq {} (filter (\<lambda>u. u \<noteq> []) (discoveredSipgoURLs None @ [''http://a'', ''http://b''])) = pre @ t # post \<and>
     (\<lambda>u. if u = nodes_url ''http://b'' then NodeList [] else RequestError ''refused'') (nodes_url t) = NodeList [] \<and>
     (\<forall>p \<in> set pre. fetch_error ((\<lambda>u. if u = nodes_url ''http://b'' then NodeList [] else RequestError ''refused'')
        (nodes_url p)) \<noteq> None)"
proof -
  have "nodes (\<lambda>u. if u = nodes_url ''http://b'' then NodeList [] else RequestError ''refused'') None
      [''http://a'', ''http://b''] = Inr []"
    by code_simp
  then show ?thesis by (simp only: node_discovery_failover)
qed

text \<open>A host's or listener's call is placed on a listed node that has a control URL, is not
  draining, is below its capacity and is no root or mixer, and no such node has a lower load; a
  placement is refused exactly when there is no such node.\<close>

theorem media_placement:
  assumes "role = ''HOST'' \<or> role = ''LISTENER''"
  shows "(\<forall>n. chooseNode ns role = Inr n \<longrightarrow>
      n \<in> set ns \<and> \<not> root_node n \<and> ControlURL n \<noteq> [] \<and> DrainState n \<noteq> ''DRAINING'' \<and> DrainState n \<noteq> ''DRAINED'' \<and>
      ActiveCalls n < Capacity n \<and> (\<forall>m \<in> set ns. can_host role m \<longrightarrow> LoadScore n \<le> LoadScore m)) \<and>
    ((\<exists>e. chooseNode ns role = Inl e) \<longleftrightarrow> (\<forall>m \<in> set ns. \<not> can_host role m))"
proof -
  have m: "media_call role" using assms by (auto simp: media_call_def EqualFold_def lower_char_def char_code_def)
  have "(\<exists>e. chooseNode ns role = Inl e) \<longleftrightarrow> chooseNode_loop role None ns = None"
    by (auto simp: chooseNode_def split: option.splits)
  moreover have "n \<in> set ns \<and> \<not> root_node n \<and> ControlURL n \<noteq> [] \<and> DrainState n \<noteq> ''DRAINING'' \<and>
      DrainState n \<noteq> ''DRAINED'' \<and> ActiveCalls n < Capacity n \<and>
      (\<forall>m \<in> set ns. can_host role m \<longrightarrow> LoadScore n \<le> LoadScore m)" if "chooseNode ns role = Inr n" for n
    using control_placement.pick_usable [of role ns n] control_placement.pick_load [of role ns n] that m
    by (simp add: chooseNode_Inr can_host_def)
  ultimately show ?thesis using control_placement.pick_none [of role ns] by (intro conjI allI impI) simp_all
qed

definition spare_node :: node where
  "spare_node = \<lparr>NodeID = ''core-1'', ControlURL = ''http://10.0.0.5:9443'', PrivateIP = ''10.0.0.5'', MediaPublicIP = '''',
     Role = ''listener'', DrainState = ''READY'', Capacity = 500, ActiveCalls = 20, ActiveRTP = 20,
     RTPPacketsPerSecond = 1000, ActiveSpeakers = 0, LoadScore = 1 / 4, NodeEpoch = 7\<rparr>"

theorem media_placement_witness:
  "chooseNode [spare_node\<lparr>Role := ''root'', LoadScore := 0\<rparr>, spare_node] ''LISTENER'' = Inr spare_node \<and>
   \<not> root_node spare_node"
proof -
  have "chooseNode [spare_node\<lparr>Role := ''root'', LoadScore := 0\<rparr>, spare_node] ''LISTENER'' = Inr spare_node"
    by code_simp
  with media_placement [of "''LISTENER''" "[spare_node\<lparr>Role := ''root'', LoadScore := 0\<rparr>, spare_node]"]
  show ?thesis by blast
qed

end
