(* ===== verification/GoFormat.thy ===== *)
theory GoFormat
  imports GoFloat
begin

text \<open>
  Text of numbers and durations in Go: the verb \<open>%.6f\<close> and \<open>strconv.ParseFloat\<close>, by which a load
  score crosses the SIP heartbeat, and \<open>time.ParseDuration\<close>, by which the programs read intervals
  and leases from the environment.
\<close>

section \<open>The verb %.6f\<close>

text \<open>Six decimals, the exact value of the double rounded half to even.\<close>

fun padded_digits :: "nat \<Rightarrow> nat \<Rightarrow> string" where
  "padded_digits 0 n = []"
| "padded_digits (Suc k) n = padded_digits k (n div 10) @ [digit_char (n mod 10)]"

definition micros :: "rat \<Rightarrow> nat" where
  "micros x = nat (round_even (\<bar>x\<bar> * 1000000))"

definition FormatF6 :: "rat \<Rightarrow> string" where
  "FormatF6 x =
     (if x < 0 then ''-'' else '''') @ nat_digits (micros x div 1000000) @ ''.'' @ padded_digits 6 (micros x mod 1000000)"

section \<open>ParseFloat\<close>

text \<open>The value that \<open>ParseFloat(s, 64)\<close> returns beside its error: 0 for text that is not a number,
  and \<open>None\<close> for NaN and the infinities, which it also returns when the number is too large. Decimal
  numbers with an optional exponent are parsed here; hexadecimal ones and those with underscores are
  left to the argument \<open>hex\<close>.\<close>

fun exponent_loop :: "nat \<Rightarrow> string \<Rightarrow> nat" where
  "exponent_loop e [] = e"
| "exponent_loop e (c # cs) = exponent_loop (if e < 10000 then 10 * e + digit_value c else e) cs"

text \<open>The exponent part: \<open>None\<close> if there is other text.\<close>

definition decimal_exponent :: "string \<Rightarrow> int option" where
  "decimal_exponent s =
     (case s of
        [] \<Rightarrow> Some 0
      | c # r \<Rightarrow>
          if c \<noteq> CHR ''e'' \<and> c \<noteq> CHR ''E'' then None
          else (let neg = HasPrefix r ''-''; ds = (if neg \<or> HasPrefix r ''+'' then tl r else r) in
            if ds = [] \<or> \<not> list_all is_digit ds then None
            else Some (if neg then - int (exponent_loop 0 ds) else int (exponent_loop 0 ds))))"

definition decimal_value :: "string \<Rightarrow> rat option" where
  "decimal_value s =
     (let neg = HasPrefix s ''-''; t = (if neg \<or> HasPrefix s ''+'' then tl s else s);
          whole = takeWhile is_digit t; r = dropWhile is_digit t;
          point = HasPrefix r ''.'';
          frac = (if point then takeWhile is_digit (tl r) else []);
          r = (if point then dropWhile is_digit (tl r) else r)
      in if whole = [] \<and> frac = [] then None
         else (case decimal_exponent r of
             None \<Rightarrow> None
           | Some e \<Rightarrow>
               (let m = of_nat (digits_value 0 (whole @ frac)) * 10 powi (e - int (length frac))
                in Some (if neg then - m else m))))"

definition max_float :: rat where
  "max_float = 2 ^ 1024"

definition special_float :: "string \<Rightarrow> bool" where
  "special_float s =
     (let l = map lower_char s; t = (if HasPrefix l ''-'' \<or> HasPrefix l ''+'' then tl l else l)
      in t = ''inf'' \<or> t = ''infinity'' \<or> l = ''nan'')"

definition ParseFloat :: "(string \<Rightarrow> rat option) \<Rightarrow> string \<Rightarrow> rat option" where
  "ParseFloat hex s =
     (if special_float s then None
      else if \<exists>c \<in> set s. c \<in> set ''_xX'' then hex s
      else case decimal_value s of
          None \<Rightarrow> Some 0
        | Some q \<Rightarrow> if \<bar>f64 q\<bar> \<ge> max_float then None else Some (f64 q))"
section \<open>Printing a float and parsing it back\<close>

lemma padded_digits_digits [simp]: "list_all is_digit (padded_digits k n)"
  by (induction k arbitrary: n) auto

lemma length_padded_digits [simp]: "length (padded_digits k n) = k"
  by (induction k arbitrary: n) auto

lemma digits_value_append: "digits_value a (xs @ ys) = digits_value (digits_value a xs) ys"
  by (simp add: digits_value_def)

lemma digits_value_padded: "digits_value a (padded_digits k n) = a * 10 ^ k + n mod 10 ^ k"
proof (induction k arbitrary: n)
  case 0
  then show ?case by simp
next
  case (Suc k)
  have "n mod 10 ^ Suc k = 10 * (n div 10 mod 10 ^ k) + n mod 10"
    by (simp add: mod_mult2_eq)
  with Suc show ?case by (simp add: algebra_simps)
qed

lemma FormatF6_chars: "c \<in> set (FormatF6 x) \<Longrightarrow> is_digit c \<or> c = CHR ''.'' \<or> c = CHR ''-''"
  using padded_digits_digits [of 6 "micros x mod 1000000"] nat_digits_digits [of "micros x div 1000000"]
  by (auto simp: FormatF6_def list_all_iff simp del: padded_digits_digits nat_digits_digits split: if_splits)

lemma lower_char_not_letter: "\<not> (65 \<le> char_code c \<and> char_code c \<le> 90) \<Longrightarrow> lower_char c = c"
  by (auto simp: lower_char_def)

lemma takeWhile_digits: "list_all P xs \<Longrightarrow> \<not> P c \<Longrightarrow> takeWhile P (xs @ c # ys) = xs \<and> dropWhile P (xs @ c # ys) = c # ys"
  by (induction xs) auto

lemma takeWhile_all: "list_all P xs \<Longrightarrow> takeWhile P xs = xs \<and> dropWhile P xs = []"
  by (induction xs) auto

lemma dot_not_digit: "\<not> is_digit CHR ''.''"
  by (simp add: is_digit_def char_code_def)

lemma decimal_value_F6:
  "decimal_value (FormatF6 x) = Some ((if x < 0 then - 1 else 1) * (of_nat (micros x) / 1000000))"
proof -
  define w f where "w = nat_digits (micros x div 1000000)" and "f = padded_digits 6 (micros x mod 1000000)"
  have w: "list_all is_digit w" "w \<noteq> []" and f: "list_all is_digit f" "length f = 6"
    by (simp_all add: w_def f_def)
  obtain c cs where c: "w = c # cs" "is_digit c" using w by (cases w) auto
  have sign: "c \<noteq> CHR ''-''" "c \<noteq> CHR ''+''" using is_digit_not_sign [OF c(2)] by auto
  have t: "takeWhile is_digit (w @ CHR ''.'' # f) = w" "dropWhile is_digit (w @ CHR ''.'' # f) = CHR ''.'' # f"
    using takeWhile_digits [OF w(1) dot_not_digit] by auto
  have u: "takeWhile is_digit f = f" "dropWhile is_digit f = []" using takeWhile_all [OF f(1)] by auto
  have v: "digits_value 0 (w @ f) = micros x"
    by (simp add: digits_value_append w_def f_def digits_value_padded)
  have p: "(10::rat) powi (- int (length f)) = 1 / 1000000"
    by (simp add: f(2) power_int_def power_divide)
  have F: "FormatF6 x = (if x < 0 then ''-'' else '''') @ w @ CHR ''.'' # f"
    by (simp add: FormatF6_def w_def f_def)
  have dot: "HasPrefix (CHR ''.'' # f) ''.''" by simp
  have "decimal_value (s @ w @ CHR ''.'' # f) = Some ((if s = ''-'' then - 1 else 1) * (of_nat (micros x) / 1000000))"
    if s: "s = ''-'' \<or> s = ''''" for s
  proof -
    have neg: "HasPrefix (s @ w @ CHR ''.'' # f) ''-'' = (s = ''-'')"
      "HasPrefix (s @ w @ CHR ''.'' # f) ''+'' = False"
      "(if s = ''-'' \<or> False then tl (s @ w @ CHR ''.'' # f) else s @ w @ CHR ''.'' # f) = w @ CHR ''.'' # f"
      using s sign by (auto simp: c(1))
    show ?thesis
      unfolding decimal_value_def Let_def neg t list.sel u using w(2) dot
      by (simp add: decimal_exponent_def v p algebra_simps)
  qed
  from this [of "if x < 0 then ''-'' else ''''"] show ?thesis by (simp add: F)
qed

lemma special_float_F6: "\<not> special_float (FormatF6 x)"
proof -
  define l where "l = map lower_char (FormatF6 x)"
  have "lower_char c = c" if "c \<in> set (FormatF6 x)" for c
    using FormatF6_chars [OF that]
    by (intro lower_char_not_letter) (auto simp: is_digit_def char_code_def)
  then have l: "l = FormatF6 x" by (simp add: l_def map_idI)
  have n: "CHR ''n'' \<notin> set (FormatF6 x)"
    using FormatF6_chars [of "CHR ''n''" x] by (auto simp: is_digit_def char_code_def)
  define r where "r = (if HasPrefix l ''-'' \<or> HasPrefix l ''+'' then tl l else l)"
  have "set r \<subseteq> set l" by (cases l) (auto simp: r_def)
  with n have r: "CHR ''n'' \<notin> set r" by (auto simp: l)
  have "r \<noteq> w" if "CHR ''n'' \<in> set w" for w using r that by blast
  moreover have "l \<noteq> w" if "CHR ''n'' \<in> set w" for w using n that by (auto simp: l)
  ultimately show ?thesis
    unfolding special_float_def Let_def l_def [symmetric] r_def [symmetric] by simp
qed

text \<open>Powers of two are doubles, so they bound what rounding can give.\<close>

lemma f64_power2: "f64 (2 ^ k) = 2 ^ k"
proof -
  have p: "(2::rat) ^ k = pow2 (int k)" by (simp add: pow2_def)
  have b: "pow2 (flog2 (pow2 (int k))) \<le> pow2 (int k)" using flog2_bounds [of "pow2 (int k)"] by simp
  have "flog2 (pow2 (int k)) \<le> int k"
  proof (rule ccontr)
    assume "\<not> flog2 (pow2 (int k)) \<le> int k"
    then have "pow2 (int k + 1) \<le> pow2 (flog2 (pow2 (int k)))" by (intro pow2_mono) simp
    moreover have "pow2 (int k + 1) = 2 * pow2 (int k)" by (simp add: pow2_add) (simp add: pow2_def)
    ultimately show False using b pow2_pos [of "int k"] by linarith
  qed
  then have "ulp_exp (pow2 (int k)) \<le> int k" by (simp add: ulp_exp_def)
  then have "f64_pos (pow2 (int k)) = pow2 (int k)" unfolding f64_pos_def by (rule f64_pos_pow2)
  moreover have "\<not> pow2 (int k) = 0" "\<not> pow2 (int k) < 0" using pow2_pos [of "int k"] by linarith+
  ultimately show ?thesis unfolding p f64_def by simp
qed

lemma f64_neg: "f64 (- x) = - f64 x"
  by (simp add: f64_def)

lemma f64_abs_le: "\<bar>q\<bar> \<le> 2 ^ k \<Longrightarrow> \<bar>f64 q\<bar> \<le> 2 ^ k"
  using f64_mono [of q "2 ^ k"] f64_mono [of "- (2 ^ k)" q] by (simp add: f64_neg f64_power2 abs_le_iff)

lemma f64_small:
  assumes "\<bar>q\<bar> \<le> 2 ^ 60"
  shows "\<bar>f64 q\<bar> < max_float"
proof -
  have "\<bar>f64 q\<bar> \<le> 2 ^ 60" using assms by (rule f64_abs_le)
  moreover have "(2::rat) ^ 60 < 2 ^ 1024" by (rule power_strict_increasing) simp_all
  ultimately show ?thesis unfolding max_float_def by linarith
qed

text \<open>A score that is sent with six decimals arrives as the nearest double of those six decimals.\<close>

definition sent_score :: "rat \<Rightarrow> rat" where
  "sent_score x = f64 ((if x < 0 then - 1 else 1) * (of_nat (micros x) / 1000000))"

lemma micros_bound: "of_nat (micros x) \<le> \<bar>x\<bar> * 1000000 + 1"
proof -
  have "round_even (\<bar>x\<bar> * 1000000) \<le> \<lfloor>\<bar>x\<bar> * 1000000\<rfloor> + 1" using round_even_between by blast
  then have "(of_int (round_even (\<bar>x\<bar> * 1000000)) :: rat) \<le> \<bar>x\<bar> * 1000000 + 1" by linarith
  moreover have "0 \<le> round_even (\<bar>x\<bar> * 1000000)"
    using round_even_mono [of 0 "\<bar>x\<bar> * 1000000"] round_even_of_int [of 0] by simp
  ultimately show ?thesis by (simp add: micros_def)
qed

theorem ParseFloat_F6:
  assumes "\<bar>x\<bar> \<le> 2 ^ 59"
  shows "ParseFloat hex (FormatF6 x) = Some (sent_score x)"
proof -
  let ?q = "(if x < 0 then - 1 else 1) * (of_nat (micros x) / 1000000) :: rat"
  have "\<bar>?q\<bar> = of_nat (micros x) / 1000000" by simp
  also have "\<dots> \<le> \<bar>x\<bar> + 1" using micros_bound [of x] by simp
  also have "\<dots> \<le> 2 ^ 60" using assms by simp
  finally have small: "\<bar>f64 ?q\<bar> < max_float" by (rule f64_small)
  have "c \<notin> set ''_xX''" if "c \<in> set (FormatF6 x)" for c
    using FormatF6_chars [OF that] by (auto simp: is_digit_def char_code_def)
  then have plain: "\<not> (\<exists>c \<in> set (FormatF6 x). c \<in> set ''_xX'')" by blast
  show ?thesis
    using special_float_F6 [of x] plain small
    by (simp only: ParseFloat_def if_False decimal_value_F6 option.case sent_score_def not_le [symmetric] simp_thms)
qed
section \<open>ParseDuration\<close>

text \<open>\<open>time.ParseDuration\<close> in nanoseconds, \<open>None\<close> for an error. One item is a decimal number with a
  unit; the fraction is computed with doubles, as in Go.\<close>

fun leading_int :: "nat \<Rightarrow> string \<Rightarrow> (nat \<times> string) option" where
  "leading_int x [] = Some (x, [])"
| "leading_int x (c # cs) =
     (if \<not> is_digit c then Some (x, c # cs)
      else if 10 * x > 2 ^ 63 \<or> 10 * x + digit_value c > 2 ^ 63 then None
      else leading_int (10 * x + digit_value c) cs)"

fun leading_fraction :: "bool \<Rightarrow> nat \<Rightarrow> rat \<Rightarrow> string \<Rightarrow> nat \<times> rat \<times> string" where
  "leading_fraction overflow x scale [] = (x, scale, [])"
| "leading_fraction overflow x scale (c # cs) =
     (if \<not> is_digit c then (x, scale, c # cs)
      else if overflow \<or> x > (2 ^ 63 - 1) div 10 \<or> 10 * x + digit_value c > 2 ^ 63
      then leading_fraction True x scale cs
      else leading_fraction False (10 * x + digit_value c) (f64 (scale * 10)) cs)"

definition duration_unit :: "string \<Rightarrow> nat option" where
  "duration_unit u =
     map_of [(''ns'', 1), (''us'', 1000), ([CHR 0xC2, CHR 0xB5, CHR ''s''], 1000),
       ([CHR 0xCE, CHR 0xBC, CHR ''s''], 1000), (''ms'', 1000000), (''s'', 1000000000),
       (''m'', 60000000000), (''h'', 3600000000000)] u"

definition unit_byte :: "char \<Rightarrow> bool" where
  "unit_byte c \<longleftrightarrow> c \<noteq> CHR ''.'' \<and> \<not> is_digit c"

definition fraction_part :: "string \<Rightarrow> nat \<times> rat \<times> string" where
  "fraction_part r = (if HasPrefix r ''.'' then leading_fraction False 0 1 (tl r) else (0, 1, r))"

definition item_value :: "nat \<Rightarrow> nat \<Rightarrow> rat \<Rightarrow> nat \<Rightarrow> nat" where
  "item_value v f scale n =
     v * n + (if f > 0 then nat \<lfloor>f64 (f64 (of_nat f) * f64_div (of_nat n) scale)\<rfloor> else 0)"

text \<open>One item of a duration that is not empty: its value and the rest of the text.\<close>

definition duration_item :: "string \<Rightarrow> (nat \<times> string) option" where
  "duration_item s =
     (case leading_int 0 s of
        None \<Rightarrow> None
      | Some (v, r) \<Rightarrow>
          (case fraction_part r of
             (f, scale, r') \<Rightarrow>
               if length r = length s \<and> \<not> (HasPrefix r ''.'' \<and> length r' \<noteq> length (tl r)) then None
               else if takeWhile unit_byte r' = [] then None
               else (case duration_unit (takeWhile unit_byte r') of
                   None \<Rightarrow> None
                 | Some n \<Rightarrow>
                     if v > 2 ^ 63 div n \<or> item_value v f scale n > 2 ^ 63 then None
                     else Some (item_value v f scale n, dropWhile unit_byte r'))))"

lemma leading_int_suffix: "leading_int x s = Some (v, r) \<Longrightarrow> length r \<le> length s"
  by (induction x s rule: leading_int.induct) (auto split: if_splits)

lemma leading_fraction_suffix: "leading_fraction b x sc s = (v, sc', r) \<Longrightarrow> length r \<le> length s"
  by (induction b x sc s rule: leading_fraction.induct) (auto split: if_splits)

lemma duration_item_shorter:
  assumes "duration_item s = Some (w, r)"
  shows "length r < length s"
proof -
  obtain v r1 where 1: "leading_int 0 s = Some (v, r1)"
    using assms by (auto simp: duration_item_def split: option.splits)
  obtain f scale r2 where 2: "fraction_part r1 = (f, scale, r2)" using prod_cases3 by blast
  have le: "length r2 \<le> length r1"
    using 2 by (auto simp: fraction_part_def dest!: leading_fraction_suffix split: if_splits)
  have u: "takeWhile unit_byte r2 \<noteq> []" and r: "r = dropWhile unit_byte r2"
    using assms unfolding duration_item_def 1 2 option.case prod.case
    by (auto split: if_splits option.splits)
  have "length r2 = length (takeWhile unit_byte r2) + length r"
    by (metis r takeWhile_dropWhile_id length_append)
  with u have "length r < length r2" by (cases "takeWhile unit_byte r2") auto
  with le leading_int_suffix [OF 1] show ?thesis by linarith
qed

function duration_loop :: "nat \<Rightarrow> string \<Rightarrow> nat option" where
  "duration_loop d s =
     (if s = [] then Some d
      else case duration_item s of
          None \<Rightarrow> None
        | Some (v, r) \<Rightarrow> if d + v > 2 ^ 63 then None else duration_loop (d + v) r)"
  by pat_completeness auto
termination
  by (relation "measure (\<lambda>(d, s). length s)") (auto dest: duration_item_shorter)

declare duration_loop.simps [simp del]

definition ParseDuration :: "string \<Rightarrow> int option" where
  "ParseDuration s =
     (let neg = HasPrefix s ''-''; t = (if neg \<or> HasPrefix s ''+'' then tl s else s) in
      if t = ''0'' then Some 0
      else if t = [] then None
      else case duration_loop 0 t of
          None \<Rightarrow> None
        | Some d \<Rightarrow> if neg then Some (- int d) else if d > 2 ^ 63 - 1 then None else Some (int d))"

lemmas duration_eval =
  ParseDuration_def duration_loop.simps duration_item_def fraction_part_def item_value_def duration_unit_def
  unit_byte_def is_digit_def digit_value_def char_code_def

lemma ParseDuration_samples:
  "ParseDuration ''2s'' = Some 2000000000"
  "ParseDuration ''7s'' = Some 7000000000"
  "ParseDuration ''1m30s'' = Some 90000000000"
  "ParseDuration ''2'' = None"
  "ParseDuration ''-1ms'' = Some (- 1000000)"
  by (simp_all add: duration_eval)

lemma ParseDuration_range: "ParseDuration s = Some d \<Longrightarrow> d \<in> int64_range"
proof -
  have loop: "duration_loop a s = Some d \<Longrightarrow> a \<le> 2 ^ 63 \<Longrightarrow> d \<le> 2 ^ 63" for a s d
  proof (induction a s rule: duration_loop.induct)
    case (1 a s)
    show ?case
    proof (cases "duration_item s")
      case None
      with "1.prems" show ?thesis by (cases "s = []") (auto simp: duration_loop.simps [of a])
    next
      case (Some vr)
      obtain v r where vr: "vr = (v, r)" by (cases vr)
      with Some "1.IH" "1.prems" show ?thesis
        by (cases "s = []") (auto simp: duration_loop.simps [of a] split: if_splits)
    qed
  qed
  assume "ParseDuration s = Some d"
  then show ?thesis
    using loop [of 0] by (auto simp: ParseDuration_def int64_range_def Let_def split: if_splits option.splits)
qed

end
