(* ===== verification/EdgeIntake.thy ===== *)
theory EdgeIntake
  imports EdgeDtmf GoFormat GoNet Targets
begin

text \<open>
  The rest of the SIP edge (components/phonarch-sip-gateway, cmd/sipgo-lb/main.go): the OPTIONS
  handler that takes in the heartbeats of the PBX cores, the advertisement of the edge in Redis, the
  report of a digit to the control API, the internal HTTP routes and the dispatch of SIP methods.
\<close>

section \<open>Configuration\<close>

definition edge_env :: "(string \<Rightarrow> string) \<Rightarrow> string \<Rightarrow> string \<Rightarrow> string" where
  "edge_env environ key fallback = (if environ key \<noteq> '''' then environ key else fallback)"

definition durationEnv :: "(string \<Rightarrow> string) \<Rightarrow> string \<Rightarrow> int \<Rightarrow> int" where
  "durationEnv environ key fallback =
     (if environ key \<noteq> '''' then (case ParseDuration (environ key) of Some d \<Rightarrow> d | None \<Rightarrow> fallback) else fallback)"

definition sipPort :: "string \<Rightarrow> int \<Rightarrow> int" where
  "sipPort value fallback =
     (case SplitHostPort value of
        None \<Rightarrow> fallback
      | Some (h, port) \<Rightarrow>
          (case Atoi port of
             NumOk parsed \<Rightarrow> if parsed \<le> 0 then fallback else parsed
           | _ \<Rightarrow> fallback))"

definition generatedEdgeID :: "(string \<Rightarrow> string) \<Rightarrow> string" where
  "generatedEdgeID environ =
     (let value = edge_env environ ''SIPGO_ADVERTISE_IP'' ''127.0.0.1'' @ '':'' @
                  edge_env environ ''SIPGO_LISTEN'' ''0.0.0.0:5060'';
          value = replace_chars [(CHR ''.'', CHR ''-''), (CHR '':'', CHR ''-''), (CHR ''/'', CHR ''-'')] value
      in ''edge-'' @ Trim value ''-'')"

section \<open>Heartbeats of the PBX cores\<close>

text \<open>The node of a heartbeat. Numbers that do not parse become 0, or the nearest bound when they are
  out of range; ports that are 0 become 5060. The load score is read apart, because it can fail to be
  a finite number.\<close>

definition options_node :: "sip_request \<Rightarrow> pbx_node" where
  "options_node req =
     (let h = (\<lambda>name. headerValue req name); number = (\<lambda>name. atoi_value (headerValue req name));
          port = (\<lambda>p. if p = 0 then 5060 else p)
      in \<lparr>pnNodeID = h ''X-PhonArch-Node-ID'', pnPrivateIP = h ''X-PhonArch-Private-IP'',
          pnMediaPublicIP = h ''X-PhonArch-Media-Public-IP'',
          pnSIPUDPPort = port (number ''X-PhonArch-SIP-UDP-Port''),
          pnSIPTCPPort = port (number ''X-PhonArch-SIP-TCP-Port''),
          pnControlURL = h ''X-PhonArch-Control-URL'', pnRole = h ''X-PhonArch-Role'',
          pnDrainState = h ''X-PhonArch-Drain-State'', pnCapacity = number ''X-PhonArch-Capacity'',
          pnActiveCalls = number ''X-PhonArch-Active-Calls'', pnActiveBridges = number ''X-PhonArch-Active-Bridges'',
          pnActiveRTP = number ''X-PhonArch-Active-RTP-Sessions'',
          pnRTPPacketsPerSecond = number ''X-PhonArch-RTP-Packets-Per-Second'',
          pnActiveSpeakers = number ''X-PhonArch-Active-Speakers'', pnLoadScore = 0,
          pnNodeEpoch = number ''X-PhonArch-Node-Epoch'', pnLastSeenUnix = 0\<rparr>)"

text \<open>A node whose load is NaN or infinite has no JSON form, so storing it fails like Redis does.\<close>

definition optionsHandler ::
  "(string \<Rightarrow> rat option) \<Rightarrow> 'r client \<Rightarrow> int \<Rightarrow> redis_faults \<Rightarrow> int \<Rightarrow> sip_request \<Rightarrow> 'r edge \<Rightarrow>
     edge_action list \<times> 'r edge" where
  "optionsHandler hex R now F ttl req e =
     (if headerValue req ''X-PhonArch-Node-ID'' = '''' then ([Respond 200 ''OK''], e)
      else case ParseFloat hex (headerValue req ''X-PhonArch-Load-Score'') of
          None \<Rightarrow> ([Respond 503 ''Redis Unavailable''], e)
        | Some score \<Rightarrow>
            (case registry_upsert R now F ttl ((options_node req)\<lparr>pnLoadScore := score\<rparr>) (rdb e) of
               (ok, r) \<Rightarrow>
                 if ok then ([Respond 200 ''OK''], e\<lparr>rdb := r\<rparr>) else ([Respond 503 ''Redis Unavailable''], e)))"

section \<open>The advertisement of the edge\<close>

definition sipgo_key :: "string \<Rightarrow> string" where
  "sipgo_key nid = ''active-sipgo:'' @ nid"

definition advertisement :: "(string \<Rightarrow> string) \<Rightarrow> int \<Rightarrow> sipgo_advertisement" where
  "advertisement environ now =
     (let listen = edge_env environ ''SIPGO_LISTEN'' ''0.0.0.0:5060'';
          tcpListen = edge_env environ ''SIPGO_TCP_LISTEN'' listen;
          httpAddress = edge_env environ ''SIPGO_HTTP'' ''127.0.0.1:8080'';
          httpURL = httpBase (edge_env environ ''SIPGO_ADVERTISE_HTTP'' httpAddress)
      in \<lparr>avNodeID = edge_env environ ''SIPGO_NODE_ID'' (generatedEdgeID environ),
          avPrivateIP = edge_env environ ''SIPGO_ADVERTISE_IP'' ''127.0.0.1'',
          avPublicIP = edge_env environ ''SIPGO_PUBLIC_IP'' '''',
          avSIPUDPPort = sipPort listen 5060, avSIPTCPPort = sipPort tcpListen (sipPort listen 5060),
          avHTTPURL = httpURL, avRole = ''sip-edge'', avNodeEpoch = now, avLastSeenUnix = now div 1000000000\<rparr>)"

definition second :: int where
  "second = 1000000000"

definition advert_interval :: "int \<Rightarrow> int" where
  "advert_interval lease = (let interval = lease div 3 in if interval < second then second else interval)"

text \<open>One write: its failure is only logged.\<close>

definition advert_write ::
  "'r client \<Rightarrow> int \<Rightarrow> sipgo_advertisement \<Rightarrow> int \<Rightarrow> bool \<Rightarrow> 'r \<Rightarrow> 'r" where
  "advert_write R lease adv now ok r =
     (if ok then rset R r now (sipgo_key (avNodeID adv)) (AdvertValue (adv\<lparr>avLastSeenUnix := now div second\<rparr>)) lease
      else r)"

text \<open>The loop after the first write, over its events: a tick of the timer, at a time and with the
  outcome of the write, or the end of the process with the outcome of the deletion.\<close>

datatype advert_event = AdvertTick int bool | AdvertStop bool

fun advert_loop :: "'r client \<Rightarrow> int \<Rightarrow> sipgo_advertisement \<Rightarrow> advert_event list \<Rightarrow> 'r \<Rightarrow> 'r" where
  "advert_loop R lease adv [] r = r"
| "advert_loop R lease adv (AdvertTick now ok # es) r = advert_loop R lease adv es (advert_write R lease adv now ok r)"
| "advert_loop R lease adv (AdvertStop ok # es) r = (if ok then rdel R r (sipgo_key (avNodeID adv)) else r)"

definition registerAdvertisement ::
  "(string \<Rightarrow> string) \<Rightarrow> 'r client \<Rightarrow> int \<Rightarrow> int \<Rightarrow> bool \<Rightarrow> advert_event list \<Rightarrow> 'r \<Rightarrow> 'r" where
  "registerAdvertisement environ R lease now ok es r =
     (let adv = advertisement environ now in advert_loop R lease adv es (advert_write R lease adv now ok r))"

section \<open>The report of a digit\<close>

definition dtmf_endpoint :: "(string \<Rightarrow> string) \<Rightarrow> string" where
  "dtmf_endpoint environ =
     TrimRight (edge_env environ ''PHONARCH_DTMF_EVENT_URL'' ''http://127.0.0.1:8081/internal/v1/dtmf'') ''/''"

definition dtmf_payload :: "(int \<Rightarrow> json) \<Rightarrow> int \<Rightarrow> sip_request \<Rightarrow> string \<Rightarrow> json" where
  "dtmf_payload stamp now req digit =
     (let (fromTag, toTag) = dialogTags req in
      JObj [(''call_id'', JStr (call_id_of req)), (''from_tag'', JStr fromTag), (''to_tag'', JStr toTag),
        (''digit'', JStr digit), (''workspace_id'', JStr (headerValue req ''X-PhonArch-Workspace-ID'')),
        (''room_id'', JStr (headerValue req ''X-PhonArch-Room-ID'')),
        (''participant_id'', JStr (headerValue req ''X-PhonArch-Participant-ID'')), (''received_at'', stamp now)])"

text \<open>What \<open>notifyDTMF\<close> posts: endpoint, token header and document. Its failure is only logged.\<close>

definition notifyDTMF ::
  "(string \<Rightarrow> string) \<Rightarrow> (int \<Rightarrow> json) \<Rightarrow> int \<Rightarrow> sip_request \<Rightarrow> string \<Rightarrow> string \<times> string option \<times> json" where
  "notifyDTMF environ stamp now req digit =
     (dtmf_endpoint environ,
      (if environ ''PHONARCH_INTERNAL_TOKEN'' \<noteq> '''' then Some (environ ''PHONARCH_INTERNAL_TOKEN'') else None),
      dtmf_payload stamp now req digit)"

section \<open>The internal HTTP routes\<close>

definition node_json :: "pbx_node \<Rightarrow> json" where
  "node_json n = JObj
     [(''node_id'', JStr (pnNodeID n)), (''private_ip'', JStr (pnPrivateIP n)),
      (''media_public_ip'', JStr (pnMediaPublicIP n)), (''sip_udp_port'', JInt (pnSIPUDPPort n)),
      (''sip_tcp_port'', JInt (pnSIPTCPPort n)), (''control_url'', JStr (pnControlURL n)), (''role'', JStr (pnRole n)),
      (''drain_state'', JStr (pnDrainState n)), (''capacity'', JInt (pnCapacity n)),
      (''active_calls'', JInt (pnActiveCalls n)), (''active_bridges'', JInt (pnActiveBridges n)),
      (''active_rtp_sessions'', JInt (pnActiveRTP n)), (''rtp_packets_per_second'', JInt (pnRTPPacketsPerSecond n)),
      (''active_speakers'', JInt (pnActiveSpeakers n)), (''load_score'', JNum (pnLoadScore n)),
      (''node_epoch'', JInt (pnNodeEpoch n)), (''last_seen_unix'', JInt (pnLastSeenUnix n))]"

text \<open>A listing without nodes is the JSON null (a nil slice).\<close>

definition edge_nodes :: "'r client \<Rightarrow> int \<Rightarrow> redis_faults \<Rightarrow> string \<Rightarrow> 'r edge \<Rightarrow> response" where
  "edge_nodes R now F err e =
     (case registry_list R now F (rdb e) of
        Inl _ \<Rightarrow> \<lparr>code = 503, doc = Some (JStr err)\<rparr>
      | Inr ns \<Rightarrow> \<lparr>code = 200, doc = Some (if ns = [] then JNull else JArr (map node_json ns))\<rparr>)"

text \<open>The body is the node id when it decodes. The outcome of the deletion is ignored.\<close>

definition edge_deregister :: "'r client \<Rightarrow> redis_faults \<Rightarrow> string option \<Rightarrow> 'r edge \<Rightarrow> response \<times> 'r edge" where
  "edge_deregister R F body e =
     (answer_empty 204,
      case body of
        None \<Rightarrow> e
      | Some nid \<Rightarrow> if nid \<noteq> '''' then e\<lparr>rdb := snd (registry_remove R F nid (rdb e))\<rparr> else e)"

definition edge_ready :: "string option \<Rightarrow> response" where
  "edge_ready ping = (case ping of Some err \<Rightarrow> \<lparr>code = 503, doc = Some (JStr err)\<rparr> | None \<Rightarrow> answer_empty 200)"

section \<open>Dispatch of SIP requests\<close>

text \<open>The handlers that \<open>main\<close> registers, by method; \<open>None\<close> is a method the SIP library answers itself.\<close>

definition edge_request ::
  "(string \<Rightarrow> rat option) \<Rightarrow> 'r client \<Rightarrow> int \<Rightarrow> redis_faults \<Rightarrow> int \<Rightarrow> bool \<Rightarrow> sip_request \<Rightarrow> 'r edge \<Rightarrow>
     (edge_action list \<times> 'r edge) option" where
  "edge_request hex R now F ttl tx_ok req e =
     (if reqMethod req = ''OPTIONS'' then Some (optionsHandler hex R now F ttl req e)
      else if reqMethod req = ''INVITE'' then Some (invite R now F tx_ok req e)
      else if reqMethod req \<in> set [''ACK'', ''BYE'', ''CANCEL'', ''UPDATE''] then Some (inDialog R now F tx_ok req e)
      else if reqMethod req = ''INFO'' then Some (info_handler R now F tx_ok req e)
      else None)"

section \<open>Relaying a transaction\<close>

text \<open>What follows when \<open>forward\<close> has opened the client transaction, the action \<open>Forward\<close>: the loop over
  what the two transactions of the library deliver. \<open>unvia\<close> is the library's removal of the topmost
  Via of a response.\<close>

datatype 'm relay_event = PbxResponse 'm | ResponsesClosed | CallerAck 'm | PbxDone | CallerDone

datatype 'm relayed = ToCaller 'm | ToPbx string 'm

fun relay :: "('m \<Rightarrow> 'm) \<Rightarrow> string \<Rightarrow> 'm relay_event list \<Rightarrow> 'm relayed list" where
  "relay unvia dst [] = []"
| "relay unvia dst (PbxResponse m # es) = ToCaller (unvia m) # relay unvia dst es"
| "relay unvia dst (CallerAck m # es) = ToPbx dst m # relay unvia dst es"
| "relay unvia dst (_ # es) = []"

end
