(* ===== verification/EdgeProps.thy ===== *)
theory EdgeProps
  imports EdgeIntake
begin

text \<open>
  Properties of the SIP edge: the choice of a node for a new dialog, the affinity of a dialog to its
  node, and the lease of a node. Where a property speaks of what Redis gives back later, the client
  is any that satisfies the contract \<open>redis_store\<close>, or the association-list client on which the
  contract is interpreted.
\<close>

section \<open>Choosing a node\<close>

text \<open>C25: with finite loads and a cursor that has not wrapped, the choice never panics: it fails only
  when nothing is live or nothing eligible, and otherwise gives an eligible live node whose load is
  within the tolerance of the least eligible load, and moves the cursor on by one.\<close>

theorem edge_selection:
  assumes "\<forall>n \<in> set ns. is_f64 (pnLoadScore n)" and "0 \<le> sint c"
  shows "(\<exists>n. selectNode (Inr ns) c = (Selected n, c + 1) \<and> n \<in> set ns \<and> eligible n \<and>
      (\<forall>m \<in> set ns. eligible m \<longrightarrow> pnLoadScore n \<le> f64_add (pnLoadScore m) load_epsilon)) \<or>
    ns = [] \<and> selectNode (Inr ns) c = (NoLiveNodes, c) \<or>
    ns \<noteq> [] \<and> (\<forall>m \<in> set ns. \<not> eligible m) \<and> selectNode (Inr ns) c = (AllAtCapacity, c)"
proof -
  let ?cs = "select_candidates ns"
  let ?n = "?cs ! nat (sint c mod int (length ?cs))"
  have "?n \<in> set ns \<and> eligible ?n \<and>
      (\<forall>m \<in> set ns. eligible m \<longrightarrow> pnLoadScore ?n \<le> f64_add (pnLoadScore m) load_epsilon)"
    if "filter eligible ns \<noteq> []"
  proof -
    have "?cs \<noteq> []" using select_candidates_nonempty [OF assms(1) that] .
    then have "nat (sint c mod int (length ?cs)) < length ?cs" by (simp add: nat_less_iff)
    then have n: "?n \<in> set ns" "eligible ?n" "pnLoadScore ?n \<le> f64_add (least ns) load_epsilon"
      using nth_mem [of "nat (sint c mod int (length ?cs))" ?cs] by (auto simp: select_candidates_eq)
    moreover have "f64_add (least ns) load_epsilon \<le> f64_add (pnLoadScore m) load_epsilon"
      if "m \<in> set ns" "eligible m" for m
      using that by (intro f64_add_mono least_lower)
    ultimately show ?thesis by (auto intro: order_trans)
  qed
  then show ?thesis
    using selectNode_cases [OF assms] by (auto simp: filter_empty_conv)
qed

definition idle_pbx :: pbx_node where
  "idle_pbx = \<lparr>pnNodeID = ''core-1'', pnPrivateIP = ''10.0.0.5'', pnMediaPublicIP = '''', pnSIPUDPPort = 5060,
     pnSIPTCPPort = 5060, pnControlURL = ''http://10.0.0.5:9443'', pnRole = ''listener'', pnDrainState = ''READY'',
     pnCapacity = 500, pnActiveCalls = 0, pnActiveBridges = 0, pnActiveRTP = 0, pnRTPPacketsPerSecond = 0,
     pnActiveSpeakers = 0, pnLoadScore = 0, pnNodeEpoch = 7, pnLastSeenUnix = 0\<rparr>"

lemma zero_f64: "is_f64 0"
  by code_simp

theorem edge_selection_witness:
  "selectNode (Inr [idle_pbx\<lparr>pnDrainState := ''DRAINING''\<rparr>, idle_pbx]) 0 = (Selected idle_pbx, 1) \<and>
   eligible idle_pbx"
proof -
  let ?ns = "[idle_pbx\<lparr>pnDrainState := ''DRAINING''\<rparr>, idle_pbx]"
  have e: "eligible idle_pbx" "\<not> eligible (idle_pbx\<lparr>pnDrainState := ''DRAINING''\<rparr>)"
    by (simp_all add: eligible_def idle_pbx_def)
  have "\<forall>n \<in> set ?ns. is_f64 (pnLoadScore n)" by (simp add: idle_pbx_def zero_f64)
  from edge_selection [OF this, of 0] e obtain n where
    "selectNode (Inr ?ns) 0 = (Selected n, 0 + 1)" "n \<in> set ?ns" "eligible n" by auto
  moreover from this e have "n = idle_pbx" by auto
  ultimately show ?thesis using e by simp
qed

text \<open>C26: while the list of live nodes does not change, as many successive new dialogs as there are
  equally loaded candidates reach every one of them (no candidate is starved).\<close>

theorem round_robin_fair:
  assumes "\<forall>n \<in> set ns. is_f64 (pnLoadScore n)" and "filter eligible ns \<noteq> []"
    and "0 \<le> sint c" and "sint c + int (length (select_candidates ns)) < 2 ^ 63"
  shows "set (select_run (length (select_candidates ns)) ns c) = Selected ` set (select_candidates ns)"
  using assms by (rule select_run_fair)

theorem round_robin_fair_witness:
  "set (select_run (length (select_candidates [idle_pbx, idle_pbx\<lparr>pnNodeID := ''core-2''\<rparr>]))
      [idle_pbx, idle_pbx\<lparr>pnNodeID := ''core-2''\<rparr>] 5) =
    Selected ` set (select_candidates [idle_pbx, idle_pbx\<lparr>pnNodeID := ''core-2''\<rparr>])"
proof (rule round_robin_fair)
  let ?ns = "[idle_pbx, idle_pbx\<lparr>pnNodeID := ''core-2''\<rparr>]"
  show "\<forall>n \<in> set ?ns. is_f64 (pnLoadScore n)" by (simp add: idle_pbx_def zero_f64)
  show "filter eligible ?ns \<noteq> []" by (simp add: eligible_def idle_pbx_def)
  show "0 \<le> sint (5 :: 64 word)" by simp
  have "length (select_candidates ?ns) \<le> 2"
    unfolding select_candidates_eq using length_filter_le [of _ ?ns] by simp
  then show "sint (5 :: 64 word) + int (length (select_candidates ?ns)) < 2 ^ 63" by simp
qed

section \<open>Dialog affinity\<close>

text \<open>What may happen at an edge while a dialog with the Call-ID \<open>c\<close> lives, until \<open>expiry\<close>: it handles requests,
  those of other Call-IDs at any time and in any way, those of \<open>c\<close> before \<open>expiry\<close> and neither ending the dialog
  nor opening one anew; it deregisters nodes; and others write to the Redis store.\<close>

definition keeps_dialog :: "sip_request \<Rightarrow> bool" where
  "keeps_dialog req \<longleftrightarrow> reqMethod req \<noteq> ''BYE'' \<and> reqMethod req \<noteq> ''CANCEL'' \<and>
     (reqMethod req = ''INVITE'' \<longrightarrow> snd (dialogTags req) \<noteq> '''')"

inductive edge_traffic :: "'r client \<Rightarrow> string \<Rightarrow> int \<Rightarrow> 'r edge \<Rightarrow> 'r edge \<Rightarrow> bool" for R c expiry where
  handled: "edge_request hex R now F ttl tx req e = Some (acts, e') \<Longrightarrow>
     (call_id_of req = c \<Longrightarrow> now < expiry \<and> keeps_dialog req) \<Longrightarrow> edge_traffic R c expiry e e'"
| deregistered: "edge_deregister R F body e = (resp, e') \<Longrightarrow> edge_traffic R c expiry e e'"
| redis_changed: "edge_traffic R c expiry e (e\<lparr>rdb := r\<rparr>)"

lemma invite_other: "invite R now F tx req e = (acts, e') \<Longrightarrow> c \<noteq> call_id_of req \<Longrightarrow> affinity e' c = affinity e c"
  by (auto simp: invite_def Let_def dest: destination_other bind_dialog_affinity split: prod.splits if_splits selection.splits)

lemma inDialog_other: "inDialog R now F tx req e = (acts, e') \<Longrightarrow> c \<noteq> call_id_of req \<Longrightarrow> affinity e' c = affinity e c"
  by (auto simp: inDialog_def Let_def unbind_dialog_def call_id_of_def dest: destination_other
      split: prod.splits if_splits option.splits)

lemma info_other: "info_handler R now F tx req e = (acts, e') \<Longrightarrow> c \<noteq> call_id_of req \<Longrightarrow> affinity e' c = affinity e c"
  by (auto simp: info_handler_def Let_def dest: destination_other inDialog_other split: prod.splits if_splits)

lemma options_other: "optionsHandler hex R now F ttl req e = (acts, e') \<Longrightarrow> affinity e' = affinity e"
  by (auto simp: optionsHandler_def split: if_splits option.splits prod.splits)

lemma edge_request_other:
  "edge_request hex R now F ttl tx req e = Some (acts, e') \<Longrightarrow> c \<noteq> call_id_of req \<Longrightarrow> affinity e' c = affinity e c"
  by (auto simp: edge_request_def dest: options_other invite_other inDialog_other info_other split: if_splits)

text \<open>A request of a dialog that the edge remembers.\<close>

lemma remembered_request:
  assumes "affinity e (call_id_of req) = Some entry" and "now < aeExpiresAt entry"
  shows "reqMethod req = ''INVITE'' \<Longrightarrow> snd (dialogTags req) \<noteq> '''' \<Longrightarrow> aeDestination entry \<noteq> '''' \<Longrightarrow>
      edge_request hex R now F ttl tx req e = Some (forward tx (aeDestination entry), e)"
    and "reqMethod req = ''UPDATE'' \<or> reqMethod req = ''INFO'' \<and> parseDTMF req = '''' \<Longrightarrow> CallID req \<noteq> None \<Longrightarrow>
      aeDestination entry \<noteq> '''' \<Longrightarrow> edge_request hex R now F ttl tx req e = Some (forward tx (aeDestination entry), e)"
    and "reqMethod req = ''ACK'' \<Longrightarrow> CallID req \<noteq> None \<Longrightarrow> aeDestination entry \<noteq> '''' \<Longrightarrow>
      edge_request hex R now F ttl tx req e = Some ([WriteAck (aeDestination entry)], e)"
    and "reqMethod req = ''BYE'' \<or> reqMethod req = ''CANCEL'' \<Longrightarrow> CallID req \<noteq> None \<Longrightarrow> aeDestination entry \<noteq> '''' \<Longrightarrow>
      edge_request hex R now F ttl tx req e =
        Some (forward tx (aeDestination entry), unbind_dialog R F (call_id_of req) e)"
  using destination_memory [OF assms, of R F]
  by (auto simp: edge_request_def invite_def inDialog_def info_handler_def call_id_of_def)

lemma remembered_kept:
  assumes "affinity e (call_id_of req) = Some entry" and "now < aeExpiresAt entry" and "keeps_dialog req"
    and "edge_request hex R now F ttl tx req e = Some (acts, e')"
  shows "affinity e' (call_id_of req) = Some entry"
  using destination_memory [OF assms(1,2), of R F] assms
  by (auto simp: edge_request_def invite_def inDialog_def info_handler_def keeps_dialog_def Let_def
      dest: options_other split: if_splits option.splits)

lemma traffic_remembers:
  assumes "(edge_traffic R c expiry)\<^sup>*\<^sup>* e e'" and "affinity e c = Some entry" and "aeExpiresAt entry = expiry"
  shows "affinity e' c = Some entry"
  using assms(1)
proof (induction rule: rtranclp_induct)
  case base
  show ?case by (rule assms(2))
next
  case (step y z)
  from step(2) show ?case
  proof cases
    case (handled hex now F ttl tx req acts)
    show ?thesis
    proof (cases "call_id_of req = c")
      case True
      with handled remembered_kept [of y req entry now hex R F ttl tx acts z] step.IH assms(3) show ?thesis by simp
    next
      case False
      with edge_request_other [OF handled(1), of c] step.IH show ?thesis by simp
    qed
  next
    case (deregistered F body resp)
    then show ?thesis using step.IH by (auto simp: edge_deregister_def split: option.splits if_splits)
  next
    case (redis_changed r)
    then show ?thesis using step.IH by simp
  qed
qed

lemma forwarded_binds:
  assumes "invite R now F tx req e = (acts, e')" and "Forward dst \<in> set acts" and "snd (dialogTags req) = ''''"
  obtains entry where "affinity e' (call_id_of req) = Some entry" "aeDestination entry = dst" "aeExpiresAt entry = now + dialog_ttl"
    "dst \<noteq> ''''"
proof -
  obtain sel c where sel: "selectNode (registry_list R now F (rdb e)) (cursor e) = (sel, c)" by fastforce
  with assms obtain n where n: "sel = Selected n"
    by (auto simp: invite_def Let_def split: selection.splits)
  obtain ok e2 where b: "bind_dialog R now F req (node_destination n) (pnNodeEpoch n) (e\<lparr>cursor := c\<rparr>) = (ok, e2)"
    by fastforce
  with assms sel n have "e' = e2" "dst = node_destination n"
    by (auto simp: invite_def Let_def forward_def split: if_splits)
  then show thesis using bind_dialog_affinity [OF b] by (intro that) (auto simp: node_destination_def)
qed

text \<open>C21: a dialog stays with its node. Once an INVITE of a new dialog has been forwarded to a node, then,
  whatever the edge handles in between - any requests of other Call-IDs, those of this one that neither end the
  dialog (BYE, CANCEL) nor open one anew (INVITE without To-tag), deregistrations - and whatever becomes of the
  Redis store, every request with its Call-ID within two hours is sent to the same node: a re-INVITE, an UPDATE,
  an INFO without digit, an ACK, and the BYE or CANCEL that ends it. A re-INVITE is not balanced again and leaves
  the state alone.\<close>

theorem dialog_sticks:
  assumes "invite R now F tx req e = (acts, e1)" and "Forward dst \<in> set acts" and "snd (dialogTags req) = ''''"
    and "(edge_traffic R (call_id_of req) (now + dialog_ttl))\<^sup>*\<^sup>* e1 e2"
    and "call_id_of req' = call_id_of req" and "later < now + dialog_ttl"
  shows "fst (destination R later F' req' e2) = dst \<and>
    (reqMethod req' = ''INVITE'' \<and> snd (dialogTags req') \<noteq> '''' \<longrightarrow>
       edge_request hex R later F' ttl tx' req' e2 = Some (forward tx' dst, e2)) \<and>
    (CallID req' \<noteq> None \<longrightarrow>
       (reqMethod req' \<in> {''UPDATE'', ''BYE'', ''CANCEL''} \<or> reqMethod req' = ''INFO'' \<and> parseDTMF req' = '''' \<longrightarrow>
          (\<exists>e3. edge_request hex R later F' ttl tx' req' e2 = Some (forward tx' dst, e3))) \<and>
       (reqMethod req' = ''ACK'' \<longrightarrow> edge_request hex R later F' ttl tx' req' e2 = Some ([WriteAck dst], e2)))"
proof -
  obtain entry where b: "affinity e1 (call_id_of req) = Some entry" "aeDestination entry = dst"
    "aeExpiresAt entry = now + dialog_ttl" "dst \<noteq> ''''"
    by (rule forwarded_binds [OF assms(1-3)])
  have m: "affinity e2 (call_id_of req') = Some entry" "later < aeExpiresAt entry"
    using traffic_remembers [OF assms(4) b(1,3)] assms(5,6) b(3) by simp_all
  note r = remembered_request [OF m, unfolded b(2), OF _ _ b(4)]
  show ?thesis
    using destination_memory [OF m, of R F'] r(1) r(2) r(3) r(4) b(2) by auto
qed

definition sip_tags :: "string \<Rightarrow> string \<Rightarrow> string \<Rightarrow> string \<Rightarrow> sip_request" where
  "sip_tags m c f t =
     \<lparr>reqMethod = m, GetHeaders = (\<lambda>_. []), CallID = Some c, FromParams = Some [''tag'' \<mapsto> f],
      ToParams = (if t = '''' then None else Some [''tag'' \<mapsto> t]), Body = ''''\<rparr>"

lemma sip_tags_simps [simp]:
  "dialogTags (sip_tags m c f t) = (f, t)" "call_id_of (sip_tags m c f t) = c" "CallID (sip_tags m c f t) = Some c"
  "reqMethod (sip_tags m c f t) = m"
  by (simp_all add: sip_tags_def dialogTags_def call_id_of_def)

definition redis_up :: redis_faults where
  "redis_up = \<lparr>scan_ok = True, get_ok = \<lambda>_. True, exec_ok = True\<rparr>"

definition idle_edge :: "redis_value ttl_map edge" where
  "idle_edge = \<lparr>cursor = 0, affinity = Map.empty, rdb = [(''active-pbx:core-1'', NodeValue idle_pbx, 7000000000)]\<rparr>"

definition bound_edge :: "redis_value ttl_map edge" where
  "bound_edge = snd (invite ttl_client 0 redis_up True (sip_tags ''INVITE'' ''call-1'' ''a'' '''') idle_edge)"

lemma select_single:
  assumes "eligible n" and "is_f64 (pnLoadScore n)" and "0 \<le> sint c"
  shows "selectNode (Inr [n]) c = (Selected n, c + 1)"
proof -
  have "select_candidates [n] \<noteq> []" using assms by (intro select_candidates_nonempty) simp_all
  then have "select_candidates [n] = [n]" by (auto simp: select_candidates_eq split: if_splits)
  with assms show ?thesis by (subst selectNode_cases) simp_all
qed

lemma sample_selection:
  "selectNode (registry_list ttl_client 0 redis_up (rdb idle_edge)) (cursor idle_edge) = (Selected idle_pbx, 1)"
proof -
  have "registry_list ttl_client 0 redis_up (rdb idle_edge) = Inr [idle_pbx]" by code_simp
  moreover have "cursor idle_edge = 0" by (simp add: idle_edge_def)
  moreover have "eligible idle_pbx" "is_f64 (pnLoadScore idle_pbx)"
    by (simp_all add: eligible_def idle_pbx_def zero_f64)
  ultimately show ?thesis by (simp add: select_single)
qed

lemma sample_invite:
  "invite ttl_client 0 redis_up True (sip_tags ''INVITE'' ''call-1'' ''a'' '''') idle_edge =
     ([Forward ''10.0.0.5:5060''], bound_edge)"
proof -
  have up: "exec_ok redis_up" by (simp add: redis_up_def)
  have "node_destination idle_pbx = ''10.0.0.5:5060''" by code_simp
  then have "fst (invite ttl_client 0 redis_up True (sip_tags ''INVITE'' ''call-1'' ''a'' '''') idle_edge) =
      [Forward ''10.0.0.5:5060'']"
    by (simp add: invite_def sample_selection bind_dialog_def up forward_def Let_def)
  then show ?thesis by (simp add: bound_edge_def prod_eq_iff)
qed

theorem dialog_sticks_witness:
  "\<exists>e3. edge_request (\<lambda>_. None) ttl_client 9 redis_up 7000000000 True (sip_tags ''BYE'' ''call-1'' ''a'' ''b'')
     ((snd (inDialog ttl_client 8 redis_up True (sip_tags ''BYE'' ''call-2'' ''a'' ''b'') bound_edge))\<lparr>rdb := []\<rparr>) =
     Some ([Forward ''10.0.0.5:5060''], e3)"
proof -
  let ?bye2 = "sip_tags ''BYE'' ''call-2'' ''a'' ''b''" and ?t = "edge_traffic ttl_client ''call-1'' (0 + dialog_ttl)"
  let ?e = "snd (inDialog ttl_client 8 redis_up True ?bye2 bound_edge)"
  have "edge_request (\<lambda>_. None) ttl_client 8 redis_up 7000000000 True ?bye2 bound_edge =
      Some (fst (inDialog ttl_client 8 redis_up True ?bye2 bound_edge), ?e)"
    by (simp add: edge_request_def)
  then have "?t bound_edge ?e" by (rule handled) simp
  moreover have "?t ?e (?e\<lparr>rdb := []\<rparr>)" by (rule redis_changed)
  ultimately have "?t\<^sup>*\<^sup>* bound_edge (?e\<lparr>rdb := []\<rparr>)" by (meson converse_rtranclp_into_rtranclp r_into_rtranclp)
  then show ?thesis
    using dialog_sticks [OF sample_invite, where dst = "''10.0.0.5:5060''" and ?e2.0 = "?e\<lparr>rdb := []\<rparr>" and later = 9
        and req' = "sip_tags ''BYE'' ''call-1'' ''a'' ''b''" and F' = redis_up and tx' = True and hex = "\<lambda>_. None" and ttl = 7000000000]
    by (simp add: dialog_ttl_def forward_def)
qed

text \<open>C22: a bound dialog survives its edge: any other edge, or the same one after a restart, that
  shares the Redis store sends a request with the Call-ID to the same node, whatever tags the request
  carries, as long as the dialog lives and Redis answers.\<close>

theorem dialog_survives_restart:
  assumes "redis_store R" and "bind_dialog R now F req dst ep e = (True, e1)"
    and "now \<le> u" and "u < now + dialog_ttl" and "call_id_of req' = call_id_of req" and "call_id_of req \<noteq> []"
    and "\<forall>k. get_ok F' k" and "affinity e2 (call_id_of req) = None" and "rdb e2 = rdb e1"
    and "rget R (rdb e) u (dialogKey (call_id_of req') (fst (dialogTags req')) (snd (dialogTags req'))) = None"
  shows "fst (destination R u F' req' e2) = dst"
proof -
  have "edge_store R" using assms(1) by (simp add: edge_store_def)
  from edge_store.bound_after_restart [OF this assms(2-5,7,10,8,9,6)] show ?thesis .
qed

definition fresh_edge :: "redis_value ttl_map edge" where
  "fresh_edge = idle_edge\<lparr>rdb := rdb (snd (bind_dialog ttl_client 0 redis_up (sip_tags ''INVITE'' ''call-1'' ''a'' '''')
     ''10.0.0.5:5060'' 7 idle_edge))\<rparr>"

theorem dialog_survives_restart_witness:
  "fst (destination ttl_client 5 redis_up (sip_tags ''BYE'' ''call-1'' ''a'' ''b'') fresh_edge) = ''10.0.0.5:5060''"
proof (rule dialog_survives_restart [OF ttl_store.redis_store_axioms])
  let ?b = "bind_dialog ttl_client 0 redis_up (sip_tags ''INVITE'' ''call-1'' ''a'' '''') ''10.0.0.5:5060'' 7 idle_edge"
  show "?b = (True, snd ?b)"
    by (simp add: prod_eq_iff bind_dialog_def Let_def redis_up_def)
  show "rdb fresh_edge = rdb (snd ?b)" by (simp add: fresh_edge_def)
  show "rget ttl_client (rdb idle_edge) 5 (dialogKey (call_id_of (sip_tags ''BYE'' ''call-1'' ''a'' ''b''))
      (fst (dialogTags (sip_tags ''BYE'' ''call-1'' ''a'' ''b''))) (snd (dialogTags (sip_tags ''BYE'' ''call-1'' ''a'' ''b'')))) = None"
    by (simp add: ttl_client_def ttl_get_def idle_edge_def dialogKey_def)
qed (simp_all add: dialog_ttl_def redis_up_def fresh_edge_def idle_edge_def)

text \<open>A live node is offered for new dialogs for the length of its lease after a report, and is
  gone from the store when the lease has run out without another report.\<close>

theorem node_lease:
  assumes "redis_store R" and "registry_upsert R now F ttl n r = (True, r')" and "0 < ttl" and "well_formed_node n"
    and "scan_ok F'" and "get_ok F' (pbx_key (pnNodeID n))"
  shows "(now \<le> u \<and> u < now + ttl \<longrightarrow>
      (\<exists>ns. registry_list R u F' r' = Inr ns \<and> n\<lparr>pnLastSeenUnix := now div 1000000000\<rparr> \<in> set ns)) \<and>
    (now + ttl \<le> u \<longrightarrow> pbx_key (pnNodeID n) \<notin> set (rscan R r' u ''active-pbx:''))"
proof -
  have s: "edge_store R" using assms(1) by (simp add: edge_store_def)
  show ?thesis
    using edge_store.listed_after_upsert [OF s assms(2,3) _ _ assms(4-6)]
      edge_store.expired_not_listed [OF s assms(2,3)] by blast
qed

theorem node_lease_witness:
  "(\<exists>ns. registry_list ttl_client 6999999999 redis_up (snd (registry_upsert ttl_client 0 redis_up 7000000000 idle_pbx [])) = Inr ns \<and>
      idle_pbx\<lparr>pnLastSeenUnix := 0\<rparr> \<in> set ns)"
proof -
  let ?r = "registry_upsert ttl_client 0 redis_up 7000000000 idle_pbx ([] :: redis_value ttl_map)"
  have "?r = (True, snd ?r)" by (simp add: registry_upsert_def redis_up_def Let_def prod_eq_iff)
  from node_lease [OF ttl_store.redis_store_axioms this, of redis_up 6999999999]
  show ?thesis by (simp add: well_formed_node_def idle_pbx_def redis_up_def)
qed

section \<open>The end of a dialog\<close>

text \<open>C29: ending a dialog forgets it only half. After BYE or CANCEL the Call-ID alone is unknown to
  the edge, but the entry under the tags of the initial INVITE stays in the store, so a request with
  those tags (a repeated CANCEL) is still sent to the node until the entry's two hours are over.\<close>

theorem ended_dialog_still_routed:
  assumes "redis_store R" and "bind_dialog R now F req dst ep e = (True, e1)" and "exec_ok F1"
    and "call_id_of req \<noteq> []" and "now \<le> u" and "u < now + dialog_ttl" and "\<forall>k. get_ok F' k"
    and "call_id_of req' = call_id_of req" and "dialogTags req' = dialogTags req"
  shows "rget R (rdb (unbind_dialog R F1 (call_id_of req) e1)) u (base_key (call_id_of req)) = None \<and>
    fst (destination R u F' req' (unbind_dialog R F1 (call_id_of req) e1)) = dst"
proof -
  have s: "edge_store R" using assms(1) by (simp add: edge_store_def)
  let ?e2 = "unbind_dialog R F1 (call_id_of req) e1"
  let ?k = "dialogKey (call_id_of req) (fst (dialogTags req)) (snd (dialogTags req))"
  obtain q where q: "rget R (rdb e1) u ?k = Some (AffinityValue q)" "aeDestination q = dst"
      "aeExpiresAt q = now + dialog_ttl"
    using edge_store.bind_qualified_get [OF s assms(2,5,6,4)] by blast
  have "?k \<noteq> base_key (call_id_of req)" using assms(4) by (simp add: dialogKey_def base_key_def)
  then have "rget R (rdb ?e2) u ?k = Some (AffinityValue q)"
    using edge_store.unbind_forgets(3) [OF s assms(3)] q(1) by simp
  moreover have "affinity ?e2 (call_id_of req') = None"
    using edge_store.unbind_forgets(1) [OF s assms(3)] assms(8) by simp
  ultimately have "destination R u F' req' ?e2 =
      (aeDestination q, ?e2\<lparr>affinity := (affinity ?e2)(call_id_of req' \<mapsto> q)\<rparr>)"
    using assms q(3) by (intro destination_remote_qualified) (simp_all add: dialog_get_def)
  with q(2) edge_store.unbind_forgets(2) [OF s assms(3)] show ?thesis by simp
qed

theorem ended_dialog_still_routed_witness:
  "fst (destination ttl_client 9 redis_up (sip_tags ''CANCEL'' ''call-1'' ''a'' '''')
     (unbind_dialog ttl_client redis_up ''call-1''
       (snd (bind_dialog ttl_client 0 redis_up (sip_tags ''INVITE'' ''call-1'' ''a'' '''') ''10.0.0.5:5060'' 7 idle_edge)))) =
   ''10.0.0.5:5060''"
proof -
  let ?i = "sip_tags ''INVITE'' ''call-1'' ''a'' ''''"
  let ?b = "bind_dialog ttl_client 0 redis_up ?i ''10.0.0.5:5060'' 7 idle_edge"
  have b: "?b = (True, snd ?b)" by (simp add: prod_eq_iff bind_dialog_def Let_def redis_up_def)
  from ended_dialog_still_routed [OF ttl_store.redis_store_axioms b, of redis_up 9 redis_up
      "sip_tags ''CANCEL'' ''call-1'' ''a'' ''''"]
  show ?thesis by (simp add: redis_up_def dialog_ttl_def)
qed

text \<open>Two dialogs can share an entry: the key of a Call-ID together with its tags is also the key
  of the Call-ID that is spelt with the colons in it, so ending the second ends an entry of the first.\<close>

lemma dialog_keys_collide:
  assumes "c \<noteq> []"
  shows "dialogKey c f t = base_key (c @ '':'' @ f @ '':'' @ t)"
  using assms by (simp add: dialogKey_def base_key_def)

section \<open>Digits\<close>

text \<open>The digit that an INFO request reports is one of the sixteen DTMF signs in upper case or
  none; a request that reports a digit is answered by the edge and never forwarded, and any other is
  handled as in-dialog traffic.\<close>

theorem info_digit_at_edge:
  "(parseDTMF req = [] \<or> parseDTMF req \<in> (\<lambda>c. [c]) ` set ''0123456789*#ABCD'') \<and>
   (parseDTMF req = [] \<and> info_handler R now F ok req e = inDialog R now F ok req e \<or>
    parseDTMF req \<noteq> [] \<and> (\<exists>e'. info_handler R now F ok req e = ([Respond 481 ''Dialog Does Not Exist''], e') \<or>
      info_handler R now F ok req e = ([NotifyDTMF (parseDTMF req), Respond 200 ''OK''], e')))"
proof -
  obtain dst e1 where "destination R now F req e = (dst, e1)" by fastforce
  then show ?thesis using parseDTMF_range [of req] by (auto simp: info_handler_def Let_def)
qed

end
