(* ===== verification/SessionProps.thy ===== *)
theory SessionProps
  imports Samples
begin

text \<open>
  Properties of the start, the run and the stop of a room, of its roster and of its speaker queue.
\<close>

section \<open>Starting\<close>

lemma tfn_text_nonempty [simp]: "\<not> blank s \<Longrightarrow> s \<noteq> []"
  by (auto simp: blank_def TrimSpace_id)

lemma start_refusal_None:
  assumes "start_refusal b count tfn = None"
  shows "\<not> busy (brState b)" "\<not> blank (coalesce_text (brHostName b))" "\<not> blank (coalesce_text (brHostPhone b))"
    "tfn_status tfn = ''ACTIVE''" "\<not> blank (tfn_number tfn)" "0 < brLimit b" "count \<le> brLimit b"
  using assms by (auto simp: start_refusal_def Let_def split: if_splits)

lemma updated_rows:
  "(\<And>r. P (f r) = P r) \<Longrightarrow> (\<And>r. Q (f r)) \<Longrightarrow> \<forall>r \<in> set (filter P (update_where P f rs)). Q r"
  by (induction rs) (auto simp: update_where_def)

lemma host_participant:
  assumes "start_tx W ws br d = Inr (h, se, d1)" and "consistent d"
    and "p \<in> set (participants d1)" and "paID p = h"
  shows "paRole p = ''HOST''"
proof -
  from assms(1) obtain b e1 e2 where b: "b \<in> set (room_rows ws br d)" and t: "start_host W ws br b d = Inr (h, e1)"
    "insert_session (started W ws br h) e1 = Some e2" "d1 = on_room ws br (\<lambda>b. b\<lparr>brState := ''STARTING''\<rparr>) e2"
    by (cases rule: start_tx_cases)
  have ps: "participants d1 = participants e1"
    using insert_session_Some [OF t(2)] by (simp add: t(3) on_room_def)
  have "distinct (map paID (participants e1))"
    using changes_consistent [OF start_host_changes(1) [OF t(1) room_rows_bkeys [OF b]] assms(2)] by (simp add: consistent_def)
  then have uniq: "x = y" if "x \<in> set (participants e1)" "y \<in> set (participants e1)" "paID x = paID y" for x y
    using that by (auto simp: distinct_map dest: inj_onD)
  from t(1) show ?thesis
  proof (cases rule: start_host_cases)
    case (1 q)
    then have "q \<in> set (participants e1)" "paRole q = ''HOST''" by (auto simp: host_rows_def)
    with uniq [of p q] 1 assms(3,4) ps show ?thesis by simp
  next
    case (2 q)
    then have "q \<in> set (participants e1)" using insert_participant_Some [OF 2(6)] by simp
    with uniq [of p q] 2 assms(3,4) ps show ?thesis by simp
  qed
qed

lemma role_HOST [simp]: "normalizeParticipantRole ''HOST'' = ''HOST''"
  by code_simp

lemma dispatch_noted_legs [simp]: "legs (dispatch_noted W k ws pid se c n ph ro d) = legs d"
  by (simp add: dispatch_noted_def Let_def sql_try_def on_participant_def insert_attendance_def)

text \<open>What an accepted start has found, sent and written.\<close>

lemma accepted_start:
  assumes "startRoom W F ws br d = (r, Some a, ps, d')" and "consistent d"
  obtains b n pid number tfn s where "code r = 202"
    and "b \<in> set (room_rows ws br d)" "start_refusal b (roster_count ws br d) (room_tfn b d) = None"
    and "ps = [originate_post n (flCommand F 0) (acCall a) br pid number tfn ''HOST'']" "dialable number" "can_host ''HOST'' n"
    and "new_leg (acCall a) ws pid br n ''HOST'' \<in> set (legs d')"
    and "s \<in> set (sessions d')" "seID s = acSession a" "seBridge s = br" "seWorkspace s = ws" "seStatus s = ''STARTING''"
    and "\<forall>b \<in> set (room_rows ws br d'). brState b = ''STARTING''" and "acWorkspace a = ws" "acBridge a = br"
  using assms(1)
proof (cases rule: startRoom_cases)
  case (started h d1 c)
  from started(1) obtain b e1 e2 where t: "b \<in> set (room_rows ws br d)"
    "start_refusal b (roster_count ws br d) (room_tfn b d) = None" "start_host W ws br b d = Inr (h, e1)"
    "insert_session (started W ws br h) e1 = Some e2" "d1 = on_room ws br (\<lambda>b. b\<lparr>brState := ''STARTING''\<rparr>) e2"
    by (cases rule: start_tx_cases)
  have same: "sessions d' = sessions d1" "bridges d' = bridges d1" using dispatch_sessions [OF started(2)] by simp_all
  have se: "started W ws br h \<in> set (sessions d')"
    using insert_session_Some [OF t(4)] by (simp add: same t(5) on_room_def)
  have "bridges d' = update_where (\<lambda>b. brID b = br \<and> brWorkspace b = ws) (\<lambda>b. b\<lparr>brState := ''STARTING''\<rparr>) (bridges e2)"
    unfolding same t(5) on_room_def by simp
  then have st: "\<forall>b \<in> set (room_rows ws br d'). brState b = ''STARTING''"
    unfolding room_rows_def by (simp only:) (rule updated_rows, simp_all)
  have a: "a = \<lparr>acSession = wid W 4, acWorkspace = ws, acBridge = br, acCall = dpCall c\<rparr>" using started(3) by simp
  from started(2) show ?thesis
  proof (cases rule: dispatch_cases)
    case (called p q n ns d2)
    have role: "paRole p = ''HOST''" by (rule host_participant [OF started(1) assms(2) called(1,2)])
    have c: "dpCall c = wid W (7 + 1)" "d' = dispatch_noted W 7 ws h (wid W 4) (wid W (7 + 1)) (paName p)
                 (normalizeDialNumber (paPhone p) (brRegion q)) (normalizeParticipantRole (paRole p)) d2"
      using called(16) by auto
    show ?thesis
    proof (rule that [OF _ t(1,2) _ _ _ _ se _ _ _ _ st])
      show "ps = [originate_post n (flCommand F 0) (acCall a) br h (normalizeDialNumber (paPhone p) (brRegion q))
          (tfn_number (room_tfn q d1)) ''HOST'']"
        using called(15) role c(1) by (simp add: a)
      show "dialable (normalizeDialNumber (paPhone p) (brRegion q))"
        using called(10) normalizeDialNumber_cases [of "paPhone p" "brRegion q"] by simp
      show "can_host ''HOST'' n" using chooseNode_can_host [OF called(12)] role by simp
      show "new_leg (acCall a) ws h br n ''HOST'' \<in> set (legs d')"
        using insert_leg_Some [OF called(14)] role by (simp add: c a)
    qed (simp_all add: started(4) a started_def)
  qed simp
qed simp_all

text \<open>C3: a start that is accepted was allowed and calls the host, and nobody else. The room was
  stopped, had a host, an active number and a roster within its limit; exactly one request is sent, an
  originate of the host's number, to a node that can take it; the room and its new session are
  STARTING and the host's call is recorded with that node as its owner.\<close>

theorem start_calls_host_only:
  assumes "startRoom W F ws br d = (r, Some a, ps, d')" and "consistent d"
  shows "code r = 202 \<and>
    (\<exists>b \<in> set (room_rows ws br d). \<not> busy (brState b) \<and> \<not> blank (coalesce_text (brHostName b)) \<and>
       \<not> blank (coalesce_text (brHostPhone b)) \<and> tfn_status (room_tfn b d) = ''ACTIVE'' \<and>
       0 < brLimit b \<and> roster_count ws br d \<le> brLimit b) \<and>
    (\<exists>n pid number. (\<exists>tfn. ps = [originate_post n (flCommand F 0) (acCall a) br pid number tfn ''HOST'']) \<and>
       dialable number \<and> can_host ''HOST'' n \<and> new_leg (acCall a) ws pid br n ''HOST'' \<in> set (legs d')) \<and>
    (\<exists>s \<in> set (sessions d'). seID s = acSession a \<and> seBridge s = br \<and> seWorkspace s = ws \<and> seStatus s = ''STARTING'') \<and>
    (\<forall>b \<in> set (room_rows ws br d'). brState b = ''STARTING'')"
proof -
  from assms obtain b n pid number tfn s where "code r = 202"
    and b: "b \<in> set (room_rows ws br d)" "start_refusal b (roster_count ws br d) (room_tfn b d) = None"
    and "ps = [originate_post n (flCommand F 0) (acCall a) br pid number tfn ''HOST'']" "dialable number" "can_host ''HOST'' n"
    and "new_leg (acCall a) ws pid br n ''HOST'' \<in> set (legs d')"
    and "s \<in> set (sessions d')" "seID s = acSession a" "seBridge s = br" "seWorkspace s = ws" "seStatus s = ''STARTING''"
    and "\<forall>b \<in> set (room_rows ws br d'). brState b = ''STARTING''"
    by (rule accepted_start)
  then show ?thesis using start_refusal_None [OF b(2)] by blast
qed

theorem start_calls_host_only_witness:
  "\<exists>n pid number. (\<exists>tfn. fst (snd (snd sample_start)) = [originate_post n ''cmd0'' ''id8'' ''r1'' pid number tfn ''HOST'']) \<and>
     dialable number \<and> can_host ''HOST'' n \<and> new_leg ''id8'' ''w1'' pid ''r1'' n ''HOST'' \<in> set (legs sample_started)"
proof -
  have "flCommand sample_fleet 0 = ''cmd0''" by code_simp
  moreover have "acCall sample_activation = ''id8''" by (simp add: sample_activation_def)
  ultimately show ?thesis
    using start_calls_host_only [OF sample_start_eq sample_ok(2)] by metis
qed

end
