(* ===== verification/StopProps.thy ===== *)
theory StopProps
  imports RoomProps
begin

text \<open>
  Properties of the end of a session: the stop by an operator, the host hanging up, and what remains
  when a session and its room disagree.
\<close>

section \<open>Dropping the calls of a room\<close>

definition all_fine :: "world \<Rightarrow> bool" where
  "all_fine W \<longleftrightarrow> (\<forall>k. \<not> wfail W k)"

text \<open>A fleet in which the owners of the calls \<open>ls\<close> are listed and accept commands.\<close>

definition reaches :: "fleet \<Rightarrow> leg_row list \<Rightarrow> bool" where
  "reaches F ls \<longleftrightarrow> (\<forall>j. flPost F j = None) \<and>
     (\<forall>j. \<exists>ns. flNodes F j = Inr ns \<and> (\<forall>l \<in> set ls. owner_of ns (lgNode l) \<noteq> None))"

lemma all_fine_simps [simp]:
  "all_fine W \<Longrightarrow> sql_try W k f d = f d"
  "all_fine W \<Longrightarrow> query_rows W k rs = Inr rs"
  "all_fine W \<Longrightarrow> query_row W k rs = (case rs of [] \<Rightarrow> NoRows | r # _ \<Rightarrow> Row r)"
  by (simp_all add: all_fine_def sql_try_def query_rows_def query_row_def)

lemma reaches_Cons: "reaches F (l # ls) \<Longrightarrow> reaches F ls"
  unfolding reaches_def by (metis list.set_intros(2))

text \<open>What dropping does to a row: the rows of \<open>ids\<close> end, the others stay.\<close>

definition dropping :: "string \<Rightarrow> string set \<Rightarrow> (leg_row \<Rightarrow> leg_row) \<Rightarrow> bool" where
  "dropping ws ids f \<longleftrightarrow> (\<forall>l. lgID (f l) = lgID l \<and> lgWorkspace (f l) = lgWorkspace l \<and> lgBridge (f l) = lgBridge l \<and>
     (if lgWorkspace l = ws \<and> lgID l \<in> ids then lgState (f l) = ''DROPPED'' else f l = l))"

lemma dropping_comp: "dropping ws A f \<Longrightarrow> dropping ws B g \<Longrightarrow> dropping ws (A \<union> B) (g \<circ> f)"
  unfolding dropping_def
proof (rule allI)
  fix l
  assume f: "\<forall>l. lgID (f l) = lgID l \<and> lgWorkspace (f l) = lgWorkspace l \<and> lgBridge (f l) = lgBridge l \<and>
      (if lgWorkspace l = ws \<and> lgID l \<in> A then lgState (f l) = ''DROPPED'' else f l = l)"
    and g: "\<forall>l. lgID (g l) = lgID l \<and> lgWorkspace (g l) = lgWorkspace l \<and> lgBridge (g l) = lgBridge l \<and>
      (if lgWorkspace l = ws \<and> lgID l \<in> B then lgState (g l) = ''DROPPED'' else g l = l)"
  show "lgID ((g \<circ> f) l) = lgID l \<and> lgWorkspace ((g \<circ> f) l) = lgWorkspace l \<and> lgBridge ((g \<circ> f) l) = lgBridge l \<and>
      (if lgWorkspace l = ws \<and> lgID l \<in> A \<union> B then lgState ((g \<circ> f) l) = ''DROPPED'' else (g \<circ> f) l = l)"
    using f [rule_format, of l] g [rule_format, of "f l"] by (cases "lgID l \<in> B") (auto split: if_splits)
qed

lemma dropCall_reached:
  assumes "reaches F (l # ls)" and "all_fine W" and "dropCall W k F j ws l d = (e, ps, d')"
  shows "map spPath ps = [participant_command_path (lgParticipant l) ''drop'']"
    "\<exists>f. dropping ws {lgID l} f \<and> d' = d\<lparr>legs := map f (legs d)\<rparr>"
proof -
  obtain ns n where n: "flNodes F j = Inr ns" "owner_of ns (lgNode l) = Some n" "flPost F j = None"
    using assms(1) unfolding reaches_def by (metis list.set_intros(1) not_None_eq)
  show "map spPath ps = [participant_command_path (lgParticipant l) ''drop'']"
    using assms(2,3) n by (auto simp: dropCall_def Let_def)
  have "d' = on_leg (\<lambda>m. lgID m = lgID l \<and> lgWorkspace m = ws)
      (\<lambda>l. l\<lparr>lgState := ''DROPPED'', lgEnded := coalesce_time (lgEnded l) (wnow W k)\<rparr>) d"
    using assms(2,3) n by (auto simp: dropCall_def Let_def)
  then show "\<exists>f. dropping ws {lgID l} f \<and> d' = d\<lparr>legs := map f (legs d)\<rparr>"
    unfolding on_leg_def update_where_def
    by (intro exI [of _ "\<lambda>m. if lgID m = lgID l \<and> lgWorkspace m = ws
        then m\<lparr>lgState := ''DROPPED'', lgEnded := coalesce_time (lgEnded m) (wnow W k)\<rparr> else m"])
      (auto simp: dropping_def)
qed

lemma drop_all_reached:
  assumes "reaches F ls" and "all_fine W" and "drop_all W F i ws ls d = (ps, d')"
  shows "map spPath ps = map (\<lambda>l. participant_command_path (lgParticipant l) ''drop'') ls \<and>
    (\<exists>f. dropping ws (lgID ` set ls) f \<and> d' = d\<lparr>legs := map f (legs d)\<rparr>)"
  using assms(1,3)
proof (induction ls arbitrary: i d ps d')
  case Nil
  then show ?case by (intro conjI exI [of _ id]) (auto simp: dropping_def)
next
  case (Cons l ls)
  obtain e qs d1 where e: "dropCall W (10 + i) F i ws l d = (e, qs, d1)" by (metis prod_cases3)
  obtain rs d2 where r: "drop_all W F (Suc i) ws ls d1 = (rs, d2)" by fastforce
  have eqs: "ps = qs @ rs" "d' = d2" using Cons.prems(2) e r by auto
  note dc = dropCall_reached [OF Cons.prems(1) assms(2) e]
  note da = Cons.IH [OF reaches_Cons [OF Cons.prems(1)] r]
  obtain f where f: "dropping ws {lgID l} f" "d1 = d\<lparr>legs := map f (legs d)\<rparr>"
    using dc(2) by (elim exE conjE) (rule that)
  obtain g where g: "dropping ws (lgID ` set ls) g" "d2 = d1\<lparr>legs := map g (legs d1)\<rparr>"
    using da [THEN conjunct2] by (elim exE conjE) (rule that)
  show ?case
  proof (intro conjI exI [of _ "g \<circ> f"])
    show "map spPath ps = map (\<lambda>l. participant_command_path (lgParticipant l) ''drop'') (l # ls)"
      using dc(1) da [THEN conjunct1] by (simp add: eqs)
    show "dropping ws (lgID ` set (l # ls)) (g \<circ> f)" using dropping_comp [OF f(1) g(1)] by simp
    show "d' = d\<lparr>legs := map (g \<circ> f) (legs d)\<rparr>" by (simp add: eqs f(2) g(2))
  qed
qed

section \<open>Stopping\<close>

lemma only_active:
  assumes "exclusive d" and "s \<in> set (sessions d)" "t \<in> set (sessions d)" "seBridge s = seBridge t"
    and "active_session (seStatus s)" "active_session (seStatus t)"
  shows "s = t"
proof -
  have "distinct (map seBridge (filter (\<lambda>s. active_session (seStatus s)) (sessions d)))"
    using assms(1) by (simp add: exclusive_def one_session_def)
  then have "inj_on seBridge (set (filter (\<lambda>s. active_session (seStatus s)) (sessions d)))"
    by (simp add: distinct_map)
  then show ?thesis by (rule inj_onD) (use assms in simp_all)
qed

lemma leg_ids_unique:
  "consistent d \<Longrightarrow> l \<in> set (legs d) \<Longrightarrow> m \<in> set (legs d) \<Longrightarrow> lgID l = lgID m \<Longrightarrow> l = m"
  by (auto simp: consistent_def distinct_map dest: inj_onD)

lemma dropped_live:
  assumes "consistent d" and "dropping ws (lgID ` set (live_legs ws br d)) f" and "legs d' = map f (legs d)"
  shows "live_legs ws br d' = []"
    "filter (\<lambda>l. lgBridge l \<noteq> br \<or> lgWorkspace l \<noteq> ws) (legs d') =
     filter (\<lambda>l. lgBridge l \<noteq> br \<or> lgWorkspace l \<noteq> ws) (legs d)"
proof -
  have f: "lgID (f l) = lgID l" "lgWorkspace (f l) = lgWorkspace l" "lgBridge (f l) = lgBridge l"
    "lgWorkspace l = ws \<Longrightarrow> lgID l \<in> lgID ` set (live_legs ws br d) \<Longrightarrow> lgState (f l) = ''DROPPED''"
    "\<not> (lgWorkspace l = ws \<and> lgID l \<in> lgID ` set (live_legs ws br d)) \<Longrightarrow> f l = l" for l
    using assms(2) unfolding dropping_def by (auto split: if_splits)
  have mem: "lgID l \<in> lgID ` set (live_legs ws br d) \<longleftrightarrow> l \<in> set (live_legs ws br d)" if "l \<in> set (legs d)" for l
    using leg_ids_unique [OF assms(1) that] by (auto simp: live_legs_def)
  have dead: "terminal_leg (lgState (f l))" if "l \<in> set (legs d)" "lgBridge l = br" "lgWorkspace l = ws" for l
  proof (cases "l \<in> set (live_legs ws br d)")
    case True
    then show ?thesis using f(4) [of l] that by (simp add: terminal_leg_def)
  next
    case False
    then show ?thesis using f(5) [of l] mem [of l] that by (auto simp: live_legs_def)
  qed
  show "live_legs ws br d' = []" using dead f by (auto simp: live_legs_def assms(3) filter_empty_conv)
  have "filter P (map f (legs d)) = filter P (legs d)" if P: "\<And>l. P l = (lgBridge l \<noteq> br \<or> lgWorkspace l \<noteq> ws)" for P
  proof -
    have "f l = l" if "l \<in> set (legs d)" "P l" for l
      using f(5) [of l] mem [of l] that P by (auto simp: live_legs_def)
    then have "map f (filter P (legs d)) = filter P (legs d)" by (intro map_idI) simp
    moreover have "filter P (map f (legs d)) = map f (filter P (legs d))"
      unfolding filter_map using f P by (simp add: o_def cong: filter_cong)
    ultimately show ?thesis by simp
  qed
  then show "filter (\<lambda>l. lgBridge l \<noteq> br \<or> lgWorkspace l \<noteq> ws) (legs d') =
      filter (\<lambda>l. lgBridge l \<noteq> br \<or> lgWorkspace l \<noteq> ws) (legs d)"
    by (simp add: assms(3))
qed

lemma rooms_marked:
  "(\<And>b. brID (f b) = brID b \<and> brWorkspace (f b) = brWorkspace b \<and> brState (f b) = st) \<Longrightarrow>
     \<forall>b \<in> set (room_rows ws br (on_room ws br f d)). brState b = st"
  unfolding room_rows_def on_room_def by (auto simp: update_where_def)

lemma attend_until_simps [simp]:
  "sessions (attend_until W k s d) = sessions d" "legs (attend_until W k s d) = legs d"
  "bridges (attend_until W k s d) = bridges d"
  by (simp_all add: attend_until_def sql_try_def)

text \<open>C5: stopping a room releases it. When no statement fails and the owners of its live calls accept
  commands, every live call of the room is sent one drop, in order, and is ended; calls elsewhere stay as
  they are; the active session is ENDED with its duration, no session of the room is active, and the room
  is READY.\<close>

theorem stop_releases:
  assumes "stopRoom W F ws br d = (r, ps, d')" and "consistent d" and "exclusive d" and "all_fine W"
    and "reaches F (live_legs ws br d)" and "s \<in> set (active_sessions ws br d)"
  shows "map spPath ps = map (\<lambda>l. participant_command_path (lgParticipant l) ''drop'') (live_legs ws br d) \<and>
    live_legs ws br d' = [] \<and>
    filter (\<lambda>l. lgBridge l \<noteq> br \<or> lgWorkspace l \<noteq> ws) (legs d') =
      filter (\<lambda>l. lgBridge l \<noteq> br \<or> lgWorkspace l \<noteq> ws) (legs d) \<and>
    active_sessions ws br d' = [] \<and>
    s\<lparr>seStatus := ''ENDED'', seEnded := Some (wnow W 2),
      seDuration := Some (wseconds W (wnow W 2 - seStarted s))\<rparr> \<in> set (sessions d') \<and>
    (\<forall>b \<in> set (room_rows ws br d'). brState b = ''READY'')"
  using assms(1)
proof (cases rule: stopRoom_cases)
  case nothing
  then show ?thesis using assms(4,6) by (auto simp: all_fine_def)
next
  case (stopped t d1)
  have t: "t = s"
    using only_active [OF assms(3), of t s] stopped(1) assms(6) by (auto simp: active_sessions_def)
  have "drop_all W F 0 ws (live_legs ws br d) d = (ps, d1)" using stopped(2) assms(4) by simp
  note dropped = drop_all_reached [OF assms(5,4) this]
  obtain f where f: "dropping ws (lgID ` set (live_legs ws br d)) f" "d1 = d\<lparr>legs := map f (legs d)\<rparr>"
    using dropped [THEN conjunct2] by (elim exE conjE) (rule that)
  let ?e = "\<lambda>t. t\<lparr>seStatus := ''ENDED'', seEnded := Some (wnow W 2),
                seDuration := Some (wseconds W (wnow W 2 - seStarted t))\<rparr>"
  have d': "legs d' = map f (legs d)"
    "sessions d' = update_where (\<lambda>t. seID t = seID s \<and> seWorkspace t = ws) ?e (sessions d)"
    using assms(4) by (simp_all add: stopped(3) f(2) t on_room_def on_session_def)
  have s: "s \<in> set (sessions d)" "seWorkspace s = ws" "seBridge s = br" "active_session (seStatus s)"
    using assms(6) by (auto simp: active_sessions_def)
  have "\<not> active_session (seStatus x)" if x: "x \<in> set (sessions d')" "seBridge x = br" for x
  proof -
    from x(1) obtain y where y: "y \<in> set (sessions d)" "x = (if seID y = seID s \<and> seWorkspace y = ws then ?e y else y)"
      unfolding d'(2) set_update_where by blast
    show ?thesis
    proof (cases "seID y = seID s \<and> seWorkspace y = ws")
      case True
      then show ?thesis by (simp add: y(2) active_session_def)
    next
      case False
      then have "x = y" using y(2) by (simp only: if_False)
      with only_active [OF assms(3) y(1) s(1)] False s x(2) show ?thesis by metis
    qed
  qed
  then have none: "active_sessions ws br d' = []" by (auto simp: active_sessions_def filter_empty_conv)
  have ended: "?e s \<in> set (sessions d')" using s by (auto simp: d'(2) set_update_where)
  have ready: "\<forall>b \<in> set (room_rows ws br d'). brState b = ''READY''"
    unfolding stopped(3) all_fine_simps(1) [OF assms(4)] by (rule rooms_marked) simp
  note live = dropped_live [OF assms(2) f(1) d'(1)]
  show ?thesis
    using dropped [THEN conjunct1] live none ended ready by (intro conjI) assumption+
qed

lemma sample_started_ok: "consistent sample_started" "exclusive sample_started"
proof -
  have "changes {''w1''} sample_db sample_started"
    using startRoom_changes [OF sample_start_eq] by blast
  then show "consistent sample_started" "exclusive sample_started"
    using changes_consistent changes_exclusive sample_ok by blast+
qed

lemma fine_fine: "all_fine fine"
  by (simp add: all_fine_def fine_def)

definition sample_session :: session_row where
  "sample_session = \<lparr>seID = ''id4'', seWorkspace = ''w1'', seBridge = ''r1'', seHost = Some ''p1'',
     seStatus = ''STARTING'', seStarted = 1004, seEnded = None, seDuration = None\<rparr>"

theorem stop_releases_witness:
  "\<exists>ps d. stopRoom fine sample_fleet ''w1'' ''r1'' sample_started = (fst (stopRoom fine sample_fleet ''w1'' ''r1'' sample_started), ps, d) \<and>
     map spPath ps = [''/v1/participants/p1/drop''] \<and> live_legs ''w1'' ''r1'' d = [] \<and> active_sessions ''w1'' ''r1'' d = []"
proof -
  obtain r ps d where e: "stopRoom fine sample_fleet ''w1'' ''r1'' sample_started = (r, ps, d)" by (metis prod_cases3)
  have l: "map lgNode (live_legs ''w1'' ''r1'' sample_started) = [''core-1'']"
    "map lgParticipant (live_legs ''w1'' ''r1'' sample_started) = [''p1'']"
    by code_simp+
  have "reaches sample_fleet (live_legs ''w1'' ''r1'' sample_started)"
    using l(1) by (auto simp: reaches_def sample_fleet_def owner_of_def sample_leaf_def)
  moreover have "active_sessions ''w1'' ''r1'' sample_started = [sample_session]"
    unfolding sample_session_def by code_simp
  ultimately have "map spPath ps = map (\<lambda>l. participant_command_path (lgParticipant l) ''drop'') (live_legs ''w1'' ''r1'' sample_started) \<and>
      live_legs ''w1'' ''r1'' d = [] \<and> active_sessions ''w1'' ''r1'' d = []"
    using stop_releases [OF e sample_started_ok fine_fine, of sample_session] by simp
  moreover have "map (\<lambda>l. participant_command_path (lgParticipant l) ''drop'') (live_legs ''w1'' ''r1'' sample_started) =
      map (\<lambda>p. participant_command_path p ''drop'') (map lgParticipant (live_legs ''w1'' ''r1'' sample_started))"
    by (simp only: map_map o_def)
  ultimately show ?thesis using e l(2) by (simp add: participant_command_path_def)
qed

section \<open>A room without a session\<close>

lemma room_row:
  "query_row W k (room_rows ws br d) = Row b \<Longrightarrow> b \<in> set (room_rows ws br d)"
  by (rule query_row_Row)

text \<open>While a room is busy, none of the operations on its settings or roster, nor a start or an import,
  changes anything.\<close>

definition busy_room :: "string \<Rightarrow> db \<Rightarrow> bool" where
  "busy_room br d \<longleftrightarrow> (\<forall>b \<in> set (bridges d). brID b = br \<longrightarrow> busy (brState b))"

lemma busy_rows: "busy_room br d \<Longrightarrow> query_row W k (room_rows ws br d) = Row b \<Longrightarrow> busy (brState b)"
  by (drule room_row) (simp add: busy_room_def room_rows_def)

lemma busy_kept:
  assumes "busy_room br d"
  shows "snd (host W del ws br i d) = d" "snd (bridgeSettings W ws br reg d) = d"
    "snd (addRosterParticipant W ws br i d) = d" "snd (batch W ws br roster d) = d"
    "\<exists>r. startRoom W F ws br d = (r, None, [], d)"
proof -
  note b = busy_rows [OF assms]
  show "snd (host W del ws br i d) = d"
    using b [of W 1] by (simp add: host_def split: fetched_row.splits)
  show "snd (bridgeSettings W ws br reg d) = d"
    using b [of W 0] by (simp add: bridgeSettings_def Let_def split: fetched_row.splits option.splits)
  show "snd (addRosterParticipant W ws br i d) = d"
    using b [of W 0] by (simp add: addRosterParticipant_def split: fetched_row.splits)
  show "snd (batch W ws br roster d) = d"
    using b [of W 0] by (simp add: batch_def batch_refusal_def Let_def split: fetched_row.splits option.splits)
  have "\<exists>r. start_tx W ws br d = Inl r"
    using b [of W 1] by (auto simp: start_tx_def start_refusal_def Let_def split: fetched_row.splits)
  then show "\<exists>r. startRoom W F ws br d = (r, None, [], d)" by (auto simp: startRoom_def)
qed

lemma busy_edit_kept:
  assumes "busy_room br d" and "\<forall>p \<in> set (participants d). paID p = pid \<and> paWorkspace p = ws \<longrightarrow> paBridge p = br"
  shows "snd (editRosterParticipant W ws pid i d) = d"
proof -
  have "busy (brState b)" if "query_row W 1 (participant_rooms ws pid d) = Row (p, b)" for p b
    using query_row_Row [OF that] assms by (auto simp: participant_rooms_def busy_room_def)
  then show ?thesis by (simp add: editRosterParticipant_def split: fetched_row.splits prod.splits)
qed

text \<open>A room that is busy without an active session.\<close>

definition stuck :: "string \<Rightarrow> string \<Rightarrow> db \<Rightarrow> bool" where
  "stuck ws br d \<longleftrightarrow> room_rows ws br d \<noteq> [] \<and> active_sessions ws br d = [] \<and> busy_room br d"

lemma start_tx_code: "start_tx W ws br d = Inl r \<Longrightarrow> code r \<noteq> 502"
  by (auto simp: start_tx_def start_refusal_def prerequisite_def sql_failure_def answer_error_def answer_def Let_def
      split: if_splits fetched_row.splits option.splits sum.splits)

lemma failed_start_sticks:
  assumes "startRoom W F ws br d = (r, None, ps, d')" and "code r = 502" and "\<not> wfail W 12" and "wfail W 13" and "platform_ok d"
  shows "stuck ws br d'"
  using assms(1)
proof (cases rule: startRoom_cases)
  case refused
  then show ?thesis using assms(1,2) start_tx_code by blast
next
  case (undispatched h d1 e d2)
  let ?s = "started W ws br h"
  let ?f = "\<lambda>s. s\<lparr>seStatus := ''FAILED'', seEnded := Some (wnow W 12), seDuration := Some 0\<rparr>"
  from undispatched(1) obtain b e1 e2 where t: "b \<in> set (room_rows ws br d)" "start_host W ws br b d = Inr (h, e1)"
    "insert_session ?s e1 = Some e2" "d1 = on_room ws br (\<lambda>b. b\<lparr>brState := ''STARTING''\<rparr>) e2"
    by (cases rule: start_tx_cases)
  have e1: "bridges e1 = bridges d" "sessions e1 = sessions d"
    using t(2) by (auto elim!: start_host_cases dest: insert_participant_Some)
  have ins: "sessions e2 = sessions d @ [?s]" "bridges e2 = bridges d" "\<forall>s \<in> set (sessions d). seBridge s = br \<longrightarrow> \<not> active_session (seStatus s)"
    using t(3) e1 by (auto simp: insert_session_def started_def active_session_def split: if_splits)
  have d': "sessions d' = update_where (\<lambda>s. seID s = wid W 4) ?f (sessions d @ [?s])"
    "bridges d' = update_where (\<lambda>b. brID b = br \<and> brWorkspace b = ws) (\<lambda>b. b\<lparr>brState := ''STARTING''\<rparr>) (bridges d)"
    using dispatch_sessions [OF undispatched(2)] assms(3,4) ins
    by (simp_all add: undispatched(5) t(4) sql_try_def on_session_def on_room_def)
  have "active_sessions ws br d' = []"
    using ins(3) by (auto simp: active_sessions_def filter_empty_conv d'(1) set_update_where active_session_def started_def)
  moreover have "distinct (map brID (bridges d))" using assms(5) by (simp add: platform_ok_def inventory_def)
  then have "inj_on brID (set (bridges d))" by (simp add: distinct_map)
  then have "c = b" if "c \<in> set (bridges d)" "brID c = br" for c
    using t(1) that by (auto simp: room_rows_def inj_on_def)
  then have own: "brWorkspace c = ws" if "c \<in> set (bridges d)" "brID c = br" for c
    using t(1) that unfolding room_rows_def by fastforce
  have "busy (brState x)" if "x \<in> set (bridges d')" and "brID x = br" for x
  proof -
    from that(1) obtain c where c: "c \<in> set (bridges d)"
      "x = (if brID c = br \<and> brWorkspace c = ws then c\<lparr>brState := ''STARTING''\<rparr> else c)"
      unfolding d'(2) set_update_where by blast
    from c(2) that(2) have "brID c = br" by (simp split: if_splits)
    with own [OF c(1)] c(2) show ?thesis by (simp add: busy_def)
  qed
  then have "busy_room br d'" unfolding busy_room_def by blast
  moreover have "b\<lparr>brState := ''STARTING''\<rparr> \<in> set (bridges d')"
    unfolding d'(2) set_update_where using t(1) by (intro rev_image_eqI [of b]) (simp_all add: room_rows_def)
  then have "b\<lparr>brState := ''STARTING''\<rparr> \<in> set (room_rows ws br d')"
    using t(1) by (simp add: room_rows_def)
  then have "room_rows ws br d' \<noteq> []" by force
  ultimately show ?thesis by (simp add: stuck_def)
next
  case (started h d1 c)
  then show ?thesis by simp
qed


text \<open>No PBX is available, and the statement that resets the room fails.\<close>

definition stuck_db :: db where
  "stuck_db = snd (snd (snd (startRoom (fine\<lparr>wfail := \<lambda>k. k = 13\<rparr>)
     (sample_fleet\<lparr>flNodes := \<lambda>_. Inl ''refused''\<rparr>) ''w1'' ''r1'' sample_db)))"


section \<open>A wait that outlives its session\<close>

text \<open>C13: a goroutine that still waits for the host of a session that is no longer starting resets
  the room to READY when it times out, and leaves every session as it is - also one that was started
  since and is active.\<close>

theorem stale_wait_resets_room:
  assumes "\<forall>s \<in> set (sessions d). seID s = acSession a \<longrightarrow> seStatus s \<noteq> ''STARTING''" and "all_fine W"
  shows "sessions (activate_timeout W a d) = sessions d \<and>
    (\<forall>b \<in> set (room_rows (acWorkspace a) (acBridge a) (activate_timeout W a d)). brState b = ''READY'')"
proof -
  have same: "on_session (\<lambda>s. seID s = acSession a \<and> seStatus s = ''STARTING'') f d = d" for f
  proof -
    have "update_where (\<lambda>s. seID s = acSession a \<and> seStatus s = ''STARTING'') f (sessions d) = sessions d"
      unfolding update_where_def by (rule map_idI) (use assms(1) in auto)
    then show ?thesis by (simp add: on_session_def)
  qed
  have "activate_timeout W a d = on_room (acWorkspace a) (acBridge a) (\<lambda>b. b\<lparr>brState := ''READY''\<rparr>) d"
    unfolding activate_timeout_def activation_failed_def Let_def all_fine_simps(1) [OF assms(2)] same by (rule refl)
  moreover have "\<forall>b \<in> set (room_rows ws br (on_room ws br (\<lambda>b. b\<lparr>brState := ''READY''\<rparr>) d)). brState b = ''READY''"
    for ws br by (rule rooms_marked) simp
  ultimately show ?thesis by (simp add: on_room_def)
qed

definition restarted_db :: db where
  "restarted_db = snd (snd (snd (startRoom (fine\<lparr>wid := \<lambda>k. ''new'' @ Itoa (int k)\<rparr>) sample_fleet ''w1'' ''r1''
     (snd (snd (stopRoom fine sample_fleet ''w1'' ''r1'' sample_started))))))"

theorem stale_wait_resets_room_witness:
  "map seStatus (active_sessions ''w1'' ''r1'' (activate_timeout fine sample_activation restarted_db)) = [''STARTING''] \<and>
   sessions (activate_timeout fine sample_activation restarted_db) = sessions restarted_db \<and>
   map brState (room_rows ''w1'' ''r1'' (activate_timeout fine sample_activation restarted_db)) = [''READY'']"
proof -
  have "list_all (\<lambda>s. seID s = ''id4'' \<longrightarrow> seStatus s \<noteq> ''STARTING'') (sessions restarted_db)" by code_simp
  then have "\<forall>s \<in> set (sessions restarted_db). seID s = acSession sample_activation \<longrightarrow> seStatus s \<noteq> ''STARTING''"
    by (simp add: list_all_iff sample_activation_def)
  note w = stale_wait_resets_room [OF this fine_fine]
  have "map seStatus (active_sessions ''w1'' ''r1'' restarted_db) = [''STARTING'']" by code_simp
  moreover have "map brState (room_rows ''w1'' ''r1'' (activate_timeout fine sample_activation restarted_db)) = [''READY'']"
    by code_simp
  ultimately show ?thesis using w by (simp add: active_sessions_def)
qed

end
