(* ===== verification/ReportProps.thy ===== *)
theory ReportProps
  imports StopProps
begin

text \<open>
  Properties of the reports by which the sidecars tell the control API about calls.
\<close>

section \<open>What a report does\<close>

lemma find_none: "List.find P xs = None \<Longrightarrow> x \<in> set xs \<Longrightarrow> \<not> P x"
  by (simp add: find_None_iff)

lemma concat_update_where:
  "(\<And>r. h (f r) = h r) \<Longrightarrow> concat (map h (update_where P f rs)) = concat (map h rs)"
  by (induction rs) (simp_all add: update_where_def)

lemma host_sessions_reported:
  assumes "sessions d' = sessions d" and "participants d' = participants d"
    and "attendance d' = update_where P (attendance_reported st now) (attendance d)"
  shows "host_sessions c d' = host_sessions c d"
proof -
  have same: "concat (map (\<lambda>a. if atSession a = seID s \<and> atLeg a = Some c then
          concat (map (\<lambda>p. if atParticipant a = Some (paID p) \<and> paRole p = ''HOST'' then [s] else []) (participants d)) else [])
        (update_where P (attendance_reported st now) (attendance d))) =
      concat (map (\<lambda>a. if atSession a = seID s \<and> atLeg a = Some c then
          concat (map (\<lambda>p. if atParticipant a = Some (paID p) \<and> paRole p = ''HOST'' then [s] else []) (participants d)) else [])
        (attendance d))" for s
    by (rule concat_update_where) (simp add: attendance_reported_def)
  show ?thesis by (simp only: host_sessions_def assms same)
qed

text \<open>The tables after the first three statements of a report.\<close>

lemma reported_tables:
  assumes "all_fine W"
  obtains d1 where "report_call W c st m d = finishHostSession W 3 c st d1"
    "legs d1 = update_where (\<lambda>l. lgID l = c) (leg_reported st m (wnow W 0)) (legs d)"
    "attendance d1 = update_where (\<lambda>a. atLeg a = Some c) (attendance_reported st (wnow W 2)) (attendance d)"
    "sessions d1 = sessions d" "participants d1 = participants d" "bridges d1 = bridges d"
proof -
  let ?d0 = "on_leg (\<lambda>l. lgID l = c) (leg_reported st m (wnow W 0)) d"
  let ?items = "case List.find (\<lambda>l. lgID l = c) (legs ?d0) of
      None \<Rightarrow> ?d0
    | Some l \<Rightarrow> ?d0\<lparr>items := update_where (\<lambda>i. itParticipant i = Some (lgParticipant l)) (\<lambda>i. i\<lparr>itStatus := st\<rparr>) (items ?d0)\<rparr>"
  show thesis
  proof (rule that)
    show "report_call W c st m d = finishHostSession W 3 c st (?items\<lparr>attendance :=
        update_where (\<lambda>a. atLeg a = Some c) (attendance_reported st (wnow W 2)) (attendance ?items)\<rparr>)"
      by (simp only: report_call_def Let_def all_fine_simps(1) [OF assms])
  qed (simp_all add: on_leg_def split: option.splits)
qed

lemma finishHostSession_legs [simp]: "legs (finishHostSession W k c st d) = legs d"
  by (simp add: finishHostSession_def Let_def sql_try_def on_session_def attend_until_def split: fetched_row.splits)

text \<open>A report sets the state of the call it names, whatever that state was: a report that arrives
  after the call has ended makes it live again, and its end stays recorded.\<close>

theorem late_report_revives:
  assumes "events W True (Some e) d = (r, d')" and "all_fine W"
    and "eiCallID e \<noteq> ''''" and "eiState e \<noteq> ''''" and "l \<in> set (legs d)" and "lgID l = eiCallID e"
  shows "\<exists>m \<in> set (legs d'). lgID m = lgID l \<and> lgState m = eiState e \<and>
    (\<not> terminal_leg (eiState e) \<longrightarrow> lgEnded m = lgEnded l) \<and> lgParticipant m = lgParticipant l"
proof -
  obtain d1 where d1: "report_call W (eiCallID e) (eiState e) (eiMember e) d = finishHostSession W 3 (eiCallID e) (eiState e) d1"
    "legs d1 = update_where (\<lambda>l. lgID l = eiCallID e) (leg_reported (eiState e) (eiMember e) (wnow W 0)) (legs d)"
    by (rule reported_tables [OF assms(2)])
  have "d' = report_call W (eiCallID e) (eiState e) (eiMember e) d"
    using assms(1,3,4) by (simp add: events_def Let_def)
  then have "legs d' = update_where (\<lambda>l. lgID l = eiCallID e) (leg_reported (eiState e) (eiMember e) (wnow W 0)) (legs d)"
    by (simp add: d1)
  then have "leg_reported (eiState e) (eiMember e) (wnow W 0) l \<in> set (legs d')"
    using assms(5,6) by (auto simp: set_update_where)
  then show ?thesis by (rule rev_bexI) (simp add: leg_reported_def)
qed

definition late_answer :: event_in where
  "late_answer = \<lparr>eiCallID = ''id8'', eiState = ''ANSWERED'', eiInnerCallID = '''', eiInnerState = '''', eiMember = ''''\<rparr>"

definition stopped_db :: db where
  "stopped_db = snd (snd (stopRoom fine sample_fleet ''w1'' ''r1'' sample_started))"

theorem late_report_revives_witness:
  "map lgState (legs stopped_db) = [''DROPPED''] \<and>
   (\<exists>m \<in> set (legs (snd (events fine True (Some late_answer) stopped_db))). lgID m = ''id8'' \<and> lgState m = ''ANSWERED'')"
proof -
  have s: "map (\<lambda>l. (lgID l, lgState l)) (legs stopped_db) = [(''id8'', ''DROPPED'')]" by code_simp
  then obtain l where l: "legs stopped_db = [l]" "lgID l = ''id8''" "lgState l = ''DROPPED''"
    by (cases "legs stopped_db") auto
  obtain r d where e: "events fine True (Some late_answer) stopped_db = (r, d)" by fastforce
  have la: "eiCallID late_answer = ''id8''" "eiState late_answer = ''ANSWERED''"
    by (simp_all add: late_answer_def)
  show ?thesis
    using late_report_revives [OF e fine_fine, of l] l by (auto simp: e la)
qed

section \<open>The host's call ends\<close>

definition closed_session :: "world \<Rightarrow> session_row \<Rightarrow> session_row" where
  "closed_session W s =
     s\<lparr>seStatus := (if seStatus s = ''STARTING'' then ''FAILED'' else ''ENDED''),
       seEnded := coalesce_time (seEnded s) (wnow W 4),
       seDuration := Some (wseconds W ((case seEnded s of None \<Rightarrow> wnow W 4 | Some e \<Rightarrow> e) - seStarted s))\<rparr>"

lemma host_session_mem: "s \<in> set (host_sessions c d) \<Longrightarrow> s \<in> set (sessions d) \<and> active_session (seStatus s)"
  by (auto simp: host_sessions_def)

text \<open>The call and its state that a report names: at its top, or else in the nested call.\<close>

lemma host_hangup_reported:
  assumes "events W True (Some e) d = (r, d')" and "all_fine W" and "terminal_leg st" and "c \<noteq> ''''"
    and "c = (if eiCallID e = '''' then eiInnerCallID e else eiCallID e)" and "st = (if eiState e = '''' then eiInnerState e else eiState e)"
    and "host_sessions c d = s # rest"
  shows "code r = 202 \<and> closed_session W s \<in> set (sessions d') \<and>
    (\<forall>a \<in> set (attendance d'). atSession a = seID s \<longrightarrow> atLeft a \<noteq> None) \<and>
    (\<forall>b \<in> set (room_rows (seWorkspace s) (seBridge s) d'). \<not> busy (brState b))"
proof -
  have st: "st \<noteq> ''''" using assms(3) by (auto simp: terminal_leg_def)
  obtain d1 where d1: "report_call W c st (eiMember e) d = finishHostSession W 3 c st d1"
    "attendance d1 = update_where (\<lambda>a. atLeg a = Some c) (attendance_reported st (wnow W 2)) (attendance d)"
    "sessions d1 = sessions d" "participants d1 = participants d"
    by (rule reported_tables [OF assms(2)])
  have hs: "host_sessions c d1 = s # rest"
    using host_sessions_reported [OF d1(3,4,2)] assms(7) by simp
  have s: "s \<in> set (sessions d)" "active_session (seStatus s)"
    using host_session_mem [of s c d] assms(7) by auto
  let ?mine = "\<lambda>t. seID t = seID s \<and> active_session (seStatus t)"
  let ?fin = "\<lambda>t. t\<lparr>seStatus := if seStatus s = ''STARTING'' then ''FAILED'' else ''ENDED'',
      seEnded := coalesce_time (seEnded t) (wnow W 4),
      seDuration := Some (wseconds W ((case seEnded t of None \<Rightarrow> wnow W 4 | Some e \<Rightarrow> e) - seStarted t))\<rparr>"
  let ?open = "\<lambda>b. brID b = seBridge s \<and> brWorkspace b = seWorkspace s \<and> busy (brState b)"
  let ?e = "attend_until W 5 (seID s) (on_session ?mine ?fin d1)"
  have "d' = report_call W c st (eiMember e) d"
    using assms(1) assms(4) st by (simp add: events_def Let_def assms(5) [symmetric] assms(6) [symmetric])
  also have "\<dots> = ?e\<lparr>bridges := update_where ?open (\<lambda>b. b\<lparr>brState := ''READY''\<rparr>) (bridges ?e)\<rparr>"
    using assms(3) by (simp add: d1(1) finishHostSession_def Let_def all_fine_simps [OF assms(2)] hs)
  finally have d': "sessions d' = update_where ?mine ?fin (sessions d)" "attendance d' = attendance ?e"
    "bridges d' = update_where ?open (\<lambda>b. b\<lparr>brState := ''READY''\<rparr>) (bridges ?e)"
    using d1(3) by (simp_all add: on_session_def)
  have "?fin s \<in> set (sessions d')" unfolding d'(1) set_update_where
    by (rule rev_image_eqI [OF s(1)]) (simp add: s(2))
  then have closed: "closed_session W s \<in> set (sessions d')" by (simp add: closed_session_def)
  have "atLeft a \<noteq> None" if "a \<in> set (attendance d')" "atSession a = seID s" for a
    using that by (auto simp: d'(2) attend_until_def all_fine_simps [OF assms(2)] set_update_where split: if_splits)
  moreover have "\<not> busy (brState b)" if "b \<in> set (room_rows (seWorkspace s) (seBridge s) d')" for b
    using that by (auto simp: d'(3) room_rows_def set_update_where busy_def split: if_splits)
  moreover have "code r = 202" using assms(1) by (auto simp: events_def Let_def answer_def)
  ultimately show ?thesis using closed by blast
qed

end
