(* ===== verification/RosterProps.thy ===== *)
theory RosterProps
  imports StopProps
begin

text \<open>
  Properties of the roster of a room: when it may change, and its limit.
\<close>

section \<open>Frozen while the room is busy\<close>

text \<open>C10: while a room is STARTING or RUNNING its host, its dialing region and its roster cannot be
  edited: setting or clearing the host, changing the region, adding a participant and editing one of its
  participants leave the tables as they are.\<close>

theorem frozen_roster:
  assumes "\<forall>b \<in> set (bridges d). brID b = br \<longrightarrow> busy (brState b)"
    and "\<forall>p \<in> set (participants d). paID p = pid \<longrightarrow> paBridge p = br"
  shows "snd (host W del ws br i d) = d \<and> snd (bridgeSettings W ws br reg d) = d \<and>
    snd (addRosterParticipant W ws br i d) = d \<and> snd (editRosterParticipant W ws pid i d) = d"
proof -
  have "busy_room br d" using assms(1) by (simp add: busy_room_def)
  moreover have "snd (editRosterParticipant W ws pid i d) = d" using assms busy_edit_kept by (simp add: busy_room_def)
  ultimately show ?thesis by (simp add: busy_kept)
qed

theorem frozen_roster_witness:
  "snd (editRosterParticipant fine ''w1'' ''p2'' (Some \<lparr>ciName = ''X'', ciPhone = ''1'', ciRole = ''''\<rparr>) sample_started) = sample_started"
proof -
  have "list_all (\<lambda>b. brID b = ''r1'' \<longrightarrow> busy (brState b)) (bridges sample_started)"
    "list_all (\<lambda>p. paID p = ''p2'' \<longrightarrow> paBridge p = ''r1'') (participants sample_started)"
    by code_simp+
  then show ?thesis using frozen_roster [of sample_started "''r1''" "''p2''"] by (simp add: list_all_iff)
qed

section \<open>The roster limit\<close>

text \<open>The columns of the roster that only its own operations change.\<close>

definition roster_shape :: "db \<Rightarrow> (string \<times> string \<times> string \<times> string) list" where
  "roster_shape d = map (\<lambda>p. (paID p, paWorkspace p, paBridge p, paRole p)) (participants d)"

lemma roster_count_shape:
  "roster_count ws br d = int (length (filter (\<lambda>(i, w, b, r). b = br \<and> w = ws) (roster_shape d)))"
  by (simp add: roster_count_def roster_shape_def filter_map o_def)

lemma shape_on_participant [simp]:
  "(\<And>p. paID (f p) = paID p \<and> paWorkspace (f p) = paWorkspace p \<and> paBridge (f p) = paBridge p \<and> paRole (f p) = paRole p) \<Longrightarrow>
     roster_shape (on_participant ws pid f d) = roster_shape d"
  unfolding roster_shape_def on_participant_def by (simp add: map_update_where)

lemma shape_try: "roster_shape (f d) = roster_shape d \<Longrightarrow> roster_shape (sql_try W k f d) = roster_shape d"
  by (simp add: sql_try_def)

lemma shape_participants: "participants d' = participants d \<Longrightarrow> roster_shape d' = roster_shape d"
  by (simp add: roster_shape_def)

lemma dispatch_noted_shape: "roster_shape (dispatch_noted W k ws pid se c n ph ro d) = roster_shape d"
proof -
  have a: "roster_shape (sql_try W (k + 3) (on_participant ws pid (\<lambda>p. p\<lparr>paDesired := st\<rparr>)) d) = roster_shape d" for st
    by (rule shape_try) simp
  have b: "roster_shape (sql_try W (k + 4) (insert_attendance x) e) = roster_shape e" for x e
    by (rule shape_try) (simp add: insert_attendance_def roster_shape_def)
  show ?thesis by (simp add: dispatch_noted_def Let_def a b)
qed

lemma dispatch_shape:
  assumes "dispatchExistingParticipant W k F j ws br pid se d = (res, ps, d')"
  shows "roster_shape d' = roster_shape d"
  using assms
proof (cases rule: dispatch_cases)
  case (called p b n ns d1)
  have "roster_shape d1 = roster_shape d"
    using insert_leg_Some [OF called(14)] by (simp add: roster_shape_def)
  moreover have "roster_shape (sql_try W i (on_leg P f) d1) = roster_shape d1" for i P f
    by (rule shape_try) (simp add: on_leg_def roster_shape_def)
  ultimately show ?thesis using called(16) dispatch_noted_shape by auto
qed simp

lemma insert_participant_shape:
  "insert_participant p d = Some d' \<Longrightarrow>
     roster_shape d' = roster_shape d @ [(paID p, paWorkspace p, paBridge p, paRole p)]"
  by (auto simp: insert_participant_def roster_shape_def split: if_splits)

text \<open>A roster that has kept its size or has grown by one within the limit of the room.\<close>

definition grown_within :: "string \<Rightarrow> string \<Rightarrow> db \<Rightarrow> db \<Rightarrow> bool" where
  "grown_within ws br d d' \<longleftrightarrow> roster_shape d' = roster_shape d \<or>
     (\<exists>i. roster_shape d' = roster_shape d @ [(i, ws, br, ''LISTENER'')]) \<and>
     (\<exists>b \<in> set (room_rows ws br d). roster_count ws br d < brLimit b)"

lemma insert_grown:
  assumes "query_row W k (room_rows ws br d) = Row b" and "roster_count ws br d < brLimit b"
    and "insert_participant \<lparr>paID = i, paWorkspace = ws, paBridge = br, paName = n, paPhone = ph, paDesired = st,
      paRole = ''LISTENER''\<rparr> d = Some d1" and "roster_shape d' = roster_shape d1"
  shows "grown_within ws br d d'"
  unfolding grown_within_def using query_row_Row [OF assms(1)] assms(2) insert_participant_shape [OF assms(3)]
  by (auto simp: assms(4))

lemma addRosterParticipant_grown:
  assumes "addRosterParticipant W ws br i d = (r, d')"
  shows "grown_within ws br d d'"
proof -
  consider "d' = d" | c n ph where "query_row W 1 (room_rows ws br d) = Row c" "roster_count ws br d < brLimit c"
    "insert_participant \<lparr>paID = wid W 2, paWorkspace = ws, paBridge = br, paName = n, paPhone = ph,
       paDesired = ''MUTED'', paRole = ''LISTENER''\<rparr> d = Some d'"
    using assms by (auto simp: addRosterParticipant_def sql_exec_Inr not_le
        split: fetched_row.splits if_splits option.splits sum.splits)
  then show ?thesis
    by cases (simp add: grown_within_def, rule insert_grown, auto)
qed

lemma dispatchDial_grown:
  assumes "dispatchDial W F ws br name phone d = (res, ps, d')"
  shows "grown_within ws br d d'"
proof -
  consider "d' = d" | c d1 where "query_row W 0 (room_rows ws br d) = Row c" "roster_count ws br d < brLimit c"
    "insert_participant \<lparr>paID = wid W 1, paWorkspace = ws, paBridge = br, paName = coalesce name phone, paPhone = phone,
       paDesired = ''MUTED'', paRole = ''LISTENER''\<rparr> d = Some d1"
    "dispatchExistingParticipant W 2 F 0 ws br (wid W 1) '''' d1 = (res, ps, d')"
    using assms by (auto simp: dispatchDial_def sql_exec_Inr not_le Let_def
        split: fetched_row.splits if_splits sum.splits)
  then show ?thesis
  proof cases
    case (2 c d1)
    show ?thesis by (rule insert_grown [OF 2(1-3) dispatch_shape [OF 2(4)]])
  qed (simp add: grown_within_def)
qed

lemma dial_grown:
  assumes "dial W F ws br j d = (r, ps, d')"
  shows "grown_within ws br d d'"
proof -
  consider "d' = d" | name phone res where "dispatchDial W F ws br name phone d = (res, ps, d')"
    using assms by (auto simp: dial_def Let_def split: option.splits if_splits prod.splits sum.splits)
  then show ?thesis by cases (simp add: grown_within_def, rule dispatchDial_grown)
qed

text \<open>C9: adding a participant and dialing a number never take a roster beyond the limit of its room:
  the roster of the room stays or grows by one to at most the limit, and every other roster stays.\<close>

theorem roster_within_limit:
  assumes "addRosterParticipant W ws br i d = (r1, d1)" and "dial W F ws br j d = (r2, ps, d2)" and "d' = d1 \<or> d' = d2"
  shows "(roster_count ws br d' = roster_count ws br d \<or>
      roster_count ws br d' = roster_count ws br d + 1 \<and>
      (\<exists>b \<in> set (room_rows ws br d). roster_count ws br d' \<le> brLimit b)) \<and>
    ((ws', br') \<noteq> (ws, br) \<longrightarrow> roster_count ws' br' d' = roster_count ws' br' d)"
proof -
  have "grown_within ws br d d'"
    using addRosterParticipant_grown [OF assms(1)] dial_grown [OF assms(2)] assms(3) by blast
  then show ?thesis by (auto simp: grown_within_def roster_count_shape intro: rev_bexI)
qed

theorem roster_within_limit_witness:
  "roster_count ''w1'' ''r1'' (snd (addRosterParticipant fine ''w1'' ''r1''
     (Some \<lparr>ciName = ''Li'', ciPhone = ''9000000001'', ciRole = ''''\<rparr>) sample_db)) \<in> {2, 3}"
proof -
  let ?i = "Some \<lparr>ciName = ''Li'', ciPhone = ''9000000001'', ciRole = ''''\<rparr>"
  obtain r1 d1 where a: "addRosterParticipant fine ''w1'' ''r1'' ?i sample_db = (r1, d1)" by fastforce
  obtain r2 ps d2 where b: "dial fine sample_fleet ''w1'' ''r1'' None sample_db = (r2, ps, d2)" by (metis prod_cases3)
  have "roster_count ''w1'' ''r1'' sample_db = 2" by code_simp
  then show ?thesis
    using roster_within_limit [OF a b, of d1 "''w1''" "''r1''"] a by auto
qed

section \<open>The host counts, unchecked\<close>

lemma map_filter_update:
  "(\<And>r. P (f r) = P r) \<Longrightarrow> (\<And>r. g (f r) = g r) \<Longrightarrow>
     map g (filter P (update_where Q f rs)) = map g (filter P rs)"
  by (induction rs) (simp_all add: update_where_def)

lemma host_insert:
  assumes "host W False ws br (Some i) d = (r, d')" and "code r = 200" and "host_rows ws br d = []"
  shows "roster_count ws br d' = roster_count ws br d + 1 \<and> map brLimit (room_rows ws br d') = map brLimit (room_rows ws br d)"
proof -
  let ?f = "\<lambda>b. b\<lparr>brHostName := Some (TrimSpace (ciName i)), brHostPhone := Some (TrimSpace (ciPhone i))\<rparr>"
  from assms(1,2) obtain h where save: "host_save W ws br (TrimSpace (ciName i)) (TrimSpace (ciPhone i)) d = Inr (h, d')"
    by (auto simp: host_def answer_error_def sql_failure_def answer_def Let_def
        split: if_splits fetched_row.splits sum.splits)
  have hr: "host_rows ws br (on_room ws br ?f d) = []" using assms(3) by (simp add: host_rows_def on_room_def)
  have "query_row W 3 (host_rows ws br (on_room ws br ?f d)) \<noteq> Row x" for x
    unfolding hr by (simp add: query_row_def)
  with save obtain p where p: "insert_participant p (on_room ws br ?f d) = Some d'" "paWorkspace p = ws" "paBridge p = br"
    by (auto simp: host_save_def Let_def sql_exec_Inr sql_commit_Inr split: fetched_row.splits sum.splits)
  have d': "d' = (on_room ws br ?f d)\<lparr>participants := participants d @ [p]\<rparr>"
    using insert_participant_Some [OF p(1)] by (simp add: on_room_def)
  have "roster_count ws br d' = roster_count ws br d + 1"
    using p(2,3) by (simp add: d' roster_count_def)
  moreover have "map brLimit (room_rows ws br d') = map brLimit (room_rows ws br d)"
    unfolding d' room_rows_def on_room_def by (simp add: map_filter_update)
  ultimately show ?thesis ..
qed

text \<open>Saving the host of a room that has none adds a participant to its roster without looking at
  the limit: in a room whose listeners fill it, the host is accepted and afterwards every start is
  refused.\<close>

theorem full_room_host_blocks_start:
  assumes "host W False ws br (Some i) d = (r, d')" and "code r = 200" and "host_rows ws br d = []"
    and "\<forall>b \<in> set (room_rows ws br d). roster_count ws br d = brLimit b"
  shows "\<exists>q. startRoom W' F ws br d' = (q, None, [], d')"
proof -
  have "brLimit b < roster_count ws br d'" if "b \<in> set (room_rows ws br d')" for b
  proof -
    have "brLimit b \<in> set (map brLimit (room_rows ws br d))"
      using host_insert [OF assms(1-3)] that by (metis image_eqI list.set_map)
    then show ?thesis using assms(4) host_insert [OF assms(1-3)] by auto
  qed
  then have "start_refusal b (roster_count ws br d') (room_tfn b d') \<noteq> None" if "b \<in> set (room_rows ws br d')" for b
    using that by (auto simp: start_refusal_def Let_def)
  then have "\<exists>q. start_tx W' ws br d' = Inl q"
    using query_row_Row by (fastforce simp: start_tx_def split: fetched_row.splits option.splits)
  then show ?thesis by (auto simp: startRoom_def)
qed

definition full_db :: db where
  "full_db = sample_db\<lparr>bridges := map (\<lambda>b. b\<lparr>brLimit := 1, brHostName := None, brHostPhone := None\<rparr>) (bridges sample_db),
     participants := filter (\<lambda>p. paRole p \<noteq> ''HOST'') (participants sample_db)\<rparr>"

theorem full_room_host_blocks_start_witness:
  "\<exists>d'. host fine False ''w1'' ''r1'' (Some \<lparr>ciName = ''Asha'', ciPhone = ''98200'', ciRole = ''''\<rparr>) full_db =
      (fst (host fine False ''w1'' ''r1'' (Some \<lparr>ciName = ''Asha'', ciPhone = ''98200'', ciRole = ''''\<rparr>) full_db), d') \<and>
    (\<exists>q. startRoom fine sample_fleet ''w1'' ''r1'' d' = (q, None, [], d'))"
proof -
  let ?i = "\<lparr>ciName = ''Asha'', ciPhone = ''98200'', ciRole = ''''\<rparr>"
  obtain r d' where e: "host fine False ''w1'' ''r1'' (Some ?i) full_db = (r, d')" by fastforce
  have c: "code r = 200"
  proof -
    have "code (fst (host fine False ''w1'' ''r1'' (Some ?i) full_db)) = 200" by code_simp
    then show ?thesis by (simp add: e)
  qed
  have h: "host_rows ''w1'' ''r1'' full_db = []" by code_simp
  have "list_all (\<lambda>b. roster_count ''w1'' ''r1'' full_db = brLimit b) (room_rows ''w1'' ''r1'' full_db)" by code_simp
  then have "\<forall>b \<in> set (room_rows ''w1'' ''r1'' full_db). roster_count ''w1'' ''r1'' full_db = brLimit b"
    by (simp add: list_all_iff)
  from full_room_host_blocks_start [OF e c h this] e show ?thesis by auto
qed

section \<open>Removal\<close>

text \<open>Removing a participant looks at the participant's calls only: a listener without a live call
  is removed whatever the state of the room, and a host or a participant with a live call never is.\<close>

theorem removal_ignores_room_state:
  assumes "remove_participant W ws pid d = (r, d')" and "all_fine W"
  shows "(participant_live_legs ws pid d = [] \<and>
      (\<exists>p \<in> set (participants d). paID p = pid \<and> paWorkspace p = ws \<and> paRole p \<noteq> ''HOST'') \<longrightarrow>
      code r = 200 \<and> \<not> (\<exists>p \<in> set (participants d'). paID p = pid \<and> paWorkspace p = ws \<and> paRole p \<noteq> ''HOST'')) \<and>
    (participant_live_legs ws pid d \<noteq> [] \<longrightarrow> code r = 409 \<and> d' = d) \<and>
    (\<forall>p \<in> set (participants d). paRole p = ''HOST'' \<longrightarrow> p \<in> set (participants d'))"
  using assms by (auto simp: remove_participant_def all_fine_def sql_exec_def answer_error_def answer_def
      filter_empty_conv Let_def split: if_splits)

theorem removal_ignores_room_state_witness:
  "map brState (room_rows ''w1'' ''r1'' sample_started) = [''STARTING''] \<and>
   code (fst (remove_participant fine ''w1'' ''p2'' sample_started)) = 200"
proof -
  obtain r d' where e: "remove_participant fine ''w1'' ''p2'' sample_started = (r, d')" by fastforce
  have "participant_live_legs ''w1'' ''p2'' sample_started = []" by code_simp
  moreover have "list_ex (\<lambda>p. paID p = ''p2'' \<and> paWorkspace p = ''w1'' \<and> paRole p \<noteq> ''HOST'') (participants sample_started)"
    by code_simp
  ultimately have "code r = 200"
    using removal_ignores_room_state [OF e fine_fine] by (auto simp: list_ex_iff)
  moreover have "map brState (room_rows ''w1'' ''r1'' sample_started) = [''STARTING'']" by code_simp
  ultimately show ?thesis by (simp add: e)
qed

end
