(* ===== verification/SpeakerProps.thy ===== *)
theory SpeakerProps
  imports RosterProps
begin

text \<open>
  Properties of the speaker queue: what the digits of a caller and the decisions of an operator do to
  the requests of a room.
\<close>

section \<open>Digits\<close>

lemma roomEvent_tables [simp]:
  "requests (roomEvent W k ws br pid t p d) = requests d"
  "participants (roomEvent W k ws br pid t p d) = participants d"
  "legs (roomEvent W k ws br pid t p d) = legs d"
  by (simp_all add: roomEvent_def sql_try_def)

text \<open>An accepted digit is that of the newest live call that matches.\<close>

lemma dtmf_accepted:
  assumes "dtmf W ok (Some i) d = (r, d')" and "code r = 202"
  obtains l where "l \<in> set (dtmf_legs i d)" "l \<in> set (legs d)" "dtDigit i = ''#'' \<longrightarrow> d' = lower_hand W l ''#'' d"
    "dtDigit i \<noteq> ''#'' \<longrightarrow> raise_hand W l (dtDigit i) d = Inr d'"
proof -
  obtain l where l: "query_row W 0 (dtmf_legs i d) = Row l"
    using assms by (auto simp: dtmf_def answer_error_def answer_def split: if_splits fetched_row.splits)
  have m: "l \<in> set (dtmf_legs i d)" by (rule query_row_Row [OF l])
  then have "l \<in> set (legs d)" by (auto simp: dtmf_legs_def)
  with m show thesis
    by (rule that) (use assms l in \<open>auto simp: dtmf_def answer_error_def answer_def sql_failure_def split: if_splits sum.splits\<close>)
qed

lemma raise_hand_requests:
  assumes "raise_hand W l g d = Inr d'"
  shows "requests d' = requests d \<and> (\<exists>q \<in> set (requests d). open_for (lgBridge l) (lgParticipant l) q) \<or>
    (\<exists>q. requests d' = requests d @ [q] \<and> rqStatus q = ''QUEUED'' \<and> open_for (lgBridge l) (lgParticipant l) q)"
proof -
  obtain q d1 where e: "enqueue q d = Some d1" "requests d' = requests d1" "rqBridge q = lgBridge l"
    "rqParticipant q = lgParticipant l" "rqStatus q = ''QUEUED''"
    using assms by (auto simp: raise_hand_def sql_exec_Inr Let_def sql_try_def split: sum.splits if_splits)
  have "open_for (lgBridge l) (lgParticipant l) q" by (simp add: open_for_def e open_request_def)
  with e show ?thesis by (auto simp: enqueue_def split: if_splits)
qed

text \<open>Pressing 0 puts the caller in the queue once: after an accepted 0 the caller has exactly one
  open request in the room; it is queued at the end when there was none, and nothing changes in the
  queue when there was one.\<close>

theorem hand_raised_once:
  assumes "dtmf W ok (Some i) d = (r, d')" and "code r = 202" and "dtDigit i = ''0''" and "exclusive d" and "consistent d"
  shows "\<exists>l \<in> set (dtmf_legs i d). length (filter (open_for (lgBridge l) (lgParticipant l)) (requests d')) = 1 \<and>
    (requests d' = requests d \<or>
     (\<exists>q. requests d' = requests d @ [q] \<and> rqStatus q = ''QUEUED'' \<and> open_for (lgBridge l) (lgParticipant l) q))"
proof -
  obtain l where l: "l \<in> set (dtmf_legs i d)" "raise_hand W l (dtDigit i) d = Inr d'"
    using assms(3) by (rule_tac dtmf_accepted [OF assms(1,2)]) auto
  note q = raise_hand_requests [OF l(2)]
  then have "\<exists>x \<in> set (requests d'). open_for (lgBridge l) (lgParticipant l) x" by auto
  then have ge: "filter (open_for (lgBridge l) (lgParticipant l)) (requests d') \<noteq> []"
    by (auto simp: filter_empty_conv)
  have "exclusive d'" using changes_exclusive [OF dtmf_changes [OF assms(1,5)] assms(4)] .
  then have "distinct (map (\<lambda>r. (rqBridge r, rqParticipant r)) (filter (\<lambda>r. open_request (rqStatus r)) (requests d')))"
    by (simp add: exclusive_def one_request_def)
  from exclusive_count [OF this, of "(lgBridge l, lgParticipant l)"]
  have "length (filter (open_for (lgBridge l) (lgParticipant l)) (requests d')) \<le> 1"
    by (simp add: open_for_def [abs_def] conj_assoc)
  with ge have "length (filter (open_for (lgBridge l) (lgParticipant l)) (requests d')) = 1"
    by (cases "filter (open_for (lgBridge l) (lgParticipant l)) (requests d')") auto
  then show ?thesis using q l(1) by blast
qed

definition press :: "string \<Rightarrow> dtmf_in" where
  "press g = \<lparr>dtCallID = ''id8'', dtDigit = g, dtWorkspaceID = '''', dtRoomID = '''', dtParticipantID = ''''\<rparr>"

lemma press_digit [simp]: "dtDigit (press g) = g"
  by (simp add: press_def)

definition raised_db :: db where
  "raised_db = snd (dtmf fine True (Some (press ''0'')) sample_started)"

lemma raised_ok: "consistent raised_db" "exclusive raised_db"
proof -
  have "changes UNIV sample_started raised_db"
    unfolding raised_db_def by (rule dtmf_changes [OF prod.collapse [symmetric] sample_started_ok(1)])
  then show "consistent raised_db" "exclusive raised_db"
    using changes_consistent changes_exclusive sample_started_ok by blast+
qed

theorem hand_raised_once_witness:
  "length (filter (open_for ''r1'' ''p1'') (requests (snd (dtmf fine True (Some (press ''0'')) raised_db)))) = 1"
proof -
  obtain r d where e: "dtmf fine True (Some (press ''0'')) raised_db = (r, d)" by fastforce
  have "code (fst (dtmf fine True (Some (press ''0'')) raised_db)) = 202" by code_simp
  then have c: "code r = 202" by (simp add: e)
  have "map (\<lambda>l. (lgBridge l, lgParticipant l)) (dtmf_legs (press ''0'') raised_db) = [(''r1'', ''p1'')]" by code_simp
  then have "(lgBridge l, lgParticipant l) = (''r1'', ''p1'')" if "l \<in> set (dtmf_legs (press ''0'') raised_db)" for l
    using that by (cases "dtmf_legs (press ''0'') raised_db") auto
  then show ?thesis
    using hand_raised_once [OF e c _ raised_ok(2,1)] by (auto simp: e)
qed

text \<open>Pressing # withdraws: afterwards the caller has no open request in the room, does not have
  a raised hand, and no request has disappeared.\<close>

theorem hand_lowered:
  assumes "dtmf W ok (Some i) d = (r, d')" and "code r = 202" and "dtDigit i = ''#''" and "consistent d" and "all_fine W"
  shows "\<exists>l \<in> set (dtmf_legs i d). filter (open_for (lgBridge l) (lgParticipant l)) (requests d') = [] \<and>
    (\<forall>p \<in> set (participants d'). paID p = lgParticipant l \<longrightarrow> paDesired p \<noteq> ''HAND_RAISED'') \<and>
    map rqID (requests d') = map rqID (requests d)"
proof -
  obtain l where l: "l \<in> set (dtmf_legs i d)" "l \<in> set (legs d)" "d' = lower_hand W l ''#'' d"
    using assms(3) by (rule_tac dtmf_accepted [OF assms(1,2)]) auto
  have pk: "(lgParticipant l, lgWorkspace l) \<in> pkeys d" using assms(4) l(2) by (simp add: consistent_def)
  let ?mine = "\<lambda>r. rqWorkspace r = lgWorkspace l \<and> open_for (lgBridge l) (lgParticipant l) r"
  let ?up = "\<lambda>p. paID p = lgParticipant l \<and> paWorkspace p = lgWorkspace l \<and> paDesired p = ''HAND_RAISED''"
  have d': "requests d' = update_where ?mine (withdrawn (wnow W 1)) (requests d)"
    "participants d' = update_where ?up (\<lambda>p. p\<lparr>paDesired := ''MUTED''\<rparr>) (participants d)"
    by (simp_all add: l(3) lower_hand_def Let_def all_fine_simps [OF assms(5)] on_request_def)
  have ws: "rqWorkspace q = lgWorkspace l" if "q \<in> set (requests d)" "rqParticipant q = lgParticipant l" for q
  proof -
    have "(lgParticipant l, rqWorkspace q) \<in> pkeys d" using assms(4) that by (auto simp: consistent_def)
    then obtain p where "p \<in> set (participants d)" "paID p = lgParticipant l" "paWorkspace p = rqWorkspace q"
      by (auto simp: pkeys_def)
    with pkeys_unique [OF assms(4) pk] show ?thesis by simp
  qed
  have "\<not> open_for (lgBridge l) (lgParticipant l) x" if x: "x \<in> set (requests d')" for x
  proof -
    from x obtain q where q: "q \<in> set (requests d)" "x = (if ?mine q then withdrawn (wnow W 1) q else q)"
      unfolding d'(1) set_update_where by blast
    with ws [of q] show ?thesis by (auto simp: withdrawn_def open_for_def open_request_def)
  qed
  then have none: "filter (open_for (lgBridge l) (lgParticipant l)) (requests d') = []" by (simp add: filter_empty_conv)
  have down: "paDesired x \<noteq> ''HAND_RAISED''" if x: "x \<in> set (participants d')" "paID x = lgParticipant l" for x
  proof -
    from x obtain p where p: "p \<in> set (participants d)" "x = (if ?up p then p\<lparr>paDesired := ''MUTED''\<rparr> else p)"
      unfolding d'(2) set_update_where by blast
    with x(2) pkeys_unique [OF assms(4) pk p(1)] show ?thesis by (auto split: if_splits)
  qed
  have ids: "map rqID (requests d') = map rqID (requests d)"
    unfolding d'(1) by (rule map_update_where) (simp add: withdrawn_def)
  from none down ids l(1) show ?thesis by blast
qed

theorem hand_lowered_witness:
  "filter (open_for ''r1'' ''p1'') (requests raised_db) \<noteq> [] \<and>
   filter (open_for ''r1'' ''p1'') (requests (snd (dtmf fine True (Some (press ''#'')) raised_db))) = []"
proof -
  obtain r d where e: "dtmf fine True (Some (press ''#'')) raised_db = (r, d)" by fastforce
  have "code (fst (dtmf fine True (Some (press ''#'')) raised_db)) = 202" by code_simp
  then have c: "code r = 202" by (simp add: e)
  have "map (\<lambda>l. (lgBridge l, lgParticipant l)) (dtmf_legs (press ''#'') raised_db) = [(''r1'', ''p1'')]" by code_simp
  then have "(lgBridge l, lgParticipant l) = (''r1'', ''p1'')" if "l \<in> set (dtmf_legs (press ''#'') raised_db)" for l
    using that by (cases "dtmf_legs (press ''#'') raised_db") auto
  moreover have "filter (open_for ''r1'' ''p1'') (requests raised_db) \<noteq> []" by code_simp
  ultimately show ?thesis
    using hand_lowered [OF e c _ raised_ok(1) fine_fine] by (auto simp: e)
qed

section \<open>Grants\<close>

lemma count_update_le:
  "(\<And>r. r \<in> set rs \<Longrightarrow> Q r \<Longrightarrow> P (f r) \<Longrightarrow> P r) \<Longrightarrow> length (filter P (update_where Q f rs)) \<le> length (filter P rs)"
  by (induction rs) (auto simp: update_where_def le_SucI)

lemma count_update_add:
  "length (filter P (update_where Q f rs)) \<le> length (filter P rs) + length (filter Q rs)"
  by (induction rs) (auto simp: update_where_def)

lemma ball_update_where:
  "(\<And>r. P (f r) = P r) \<Longrightarrow> (\<And>r. R (f r)) \<Longrightarrow> \<forall>r \<in> set (update_where P f rs). P r \<longrightarrow> R r"
  by (auto simp: set_update_where)

lemma grant_noted_requests:
  "requests (grant_noted W ws q c k d) = requests d \<or>
   requests (grant_noted W ws q c k d) = update_where (\<lambda>r. rqID r = rqID q \<and> rqWorkspace r = ws)
     (\<lambda>r. r\<lparr>rqStatus := ''ACTIVE'', rqGranted := Some (wnow W 4), rqGrantedBy := Some ''admin''\<rparr>) (requests d)"
  by (auto simp: grant_noted_def Let_def sql_try_def activate_request_def on_request_def on_participant_def on_leg_def)

lemma withdraw_requests:
  "requests (withdraw_request W ws q d) = requests d \<or>
   requests (withdraw_request W ws q d) = update_where (\<lambda>r. rqID r = rqID q \<and> rqWorkspace r = ws \<and> open_request (rqStatus r))
     (withdrawn (wnow W 1)) (requests d)"
  by (auto simp: withdraw_request_def Let_def sql_try_def on_request_def on_participant_def)

lemma grant_request_limit:
  "grant_request W F m ws q d = (r, ps, d') \<Longrightarrow> d' \<noteq> d \<Longrightarrow> speaker_count W 1 ws (rqBridge q) d < maxSpeakers m"
  by (auto simp: grant_request_def split: if_splits)

lemma one_request_id:
  assumes "exclusive d" and "r \<in> set (requests d)" "q \<in> set (requests d)" "rqID r = rqID q"
  shows "r = q"
  using assms by (auto simp: exclusive_def one_request_def distinct_map dest: inj_onD)

lemma id_count: "distinct (map rqID rs) \<Longrightarrow> length (filter (\<lambda>r. rqID r = i \<and> P r) rs) \<le> 1"
proof (induction rs)
  case (Cons r rs)
  have "filter (\<lambda>r. rqID r = i \<and> P r) rs = []" if "rqID r = i"
    using Cons.prems that by (force simp: filter_empty_conv image_iff)
  with Cons show ?case by auto
qed simp

lemma speaker_action_cases:
  assumes "speakerRequestAction W F setting ws path d = (r, ps, d')"
  obtains "d' = d" | q where "q \<in> set (requests d)" "rqWorkspace q = ws" "d' = withdraw_request W ws q d"
    | q where "q \<in> set (requests d)" "rqWorkspace q = ws" "grant_request W F setting ws q d = (r, ps, d')"
proof (cases "\<exists>rid act q. speaker_path path = Some (rid, act) \<and>
    query_row W 0 (filter (\<lambda>r. rqID r = rid \<and> rqWorkspace r = ws) (requests d)) = Row q")
  case True
  then obtain rid act q where a: "speaker_path path = Some (rid, act)"
    "query_row W 0 (filter (\<lambda>r. rqID r = rid \<and> rqWorkspace r = ws) (requests d)) = Row q" by blast
  from query_row_Row [OF a(2)] have q: "q \<in> set (requests d)" "rqWorkspace q = ws" by auto
  show thesis
  proof (cases "act = ''withdraw''")
    case True
    show thesis by (rule that(2) [OF q]) (use assms a True in \<open>simp add: speakerRequestAction_def\<close>)
  next
    case False
    show thesis by (rule that(3) [OF q]) (use assms a False in \<open>simp add: speakerRequestAction_def\<close>)
  qed
next
  case False
  have "d' = d"
    using assms False by (auto simp: speakerRequestAction_def split: option.splits fetched_row.splits)
  then show thesis by (rule that(1))
qed

text \<open>C8: the operators of a room never grant the floor beyond its limit: whatever they do, the number
  of granted requests of a room ends at most at the larger of what it was and the limit - provided the
  statement that counts them did not fail.\<close>

theorem grants_within_limit:
  assumes "speakerRequestAction W F setting ws path d = (r, ps, d')" and "exclusive d" and "\<not> wfail W 1"
  shows "int (length (filter (speaking ws' br) (requests d'))) \<le>
    max (int (length (filter (speaking ws' br) (requests d)))) (maxSpeakers setting)"
proof -
  consider "d' = d" | q where "q \<in> set (requests d)" "rqWorkspace q = ws" "d' = withdraw_request W ws q d"
    | q where "q \<in> set (requests d)" "rqWorkspace q = ws" "grant_request W F setting ws q d = (r, ps, d')"
    by (rule speaker_action_cases [OF assms(1)])
  then show ?thesis
  proof cases
    case (2 q)
    have "length (filter (speaking ws' br) (requests d')) \<le> length (filter (speaking ws' br) (requests d))"
      using withdraw_requests [of W ws q d] unfolding 2(3)
    proof
      assume e: "requests (withdraw_request W ws q d) = update_where (\<lambda>r. rqID r = rqID q \<and> rqWorkspace r = ws \<and> open_request (rqStatus r))
        (withdrawn (wnow W 1)) (requests d)"
      show "length (filter (speaking ws' br) (requests (withdraw_request W ws q d))) \<le> length (filter (speaking ws' br) (requests d))"
        unfolding e by (rule count_update_le) (simp add: speaking_def withdrawn_def)
    qed simp
    then show ?thesis by simp
  next
    case (3 q)
    let ?f = "\<lambda>r. r\<lparr>rqStatus := ''ACTIVE'', rqGranted := Some (wnow W 4), rqGrantedBy := Some ''admin''\<rparr>"
    let ?mine = "\<lambda>r. rqID r = rqID q \<and> rqWorkspace r = ws"
    from grant_request_db [OF 3(3)] show ?thesis
    proof (elim disjE exE)
      fix c k
      assume d': "d' = grant_noted W ws q c k d"
      from grant_noted_requests [of W ws q c k d] show ?thesis
      proof
        assume e: "requests (grant_noted W ws q c k d) = update_where ?mine ?f (requests d)"
        show ?thesis
        proof (cases "ws' = ws \<and> br = rqBridge q")
          case False
          have "length (filter (speaking ws' br) (requests d')) \<le> length (filter (speaking ws' br) (requests d))"
            unfolding d' e
          proof (rule count_update_le)
            fix r
            assume "r \<in> set (requests d)" "?mine r" "speaking ws' br (?f r)"
            with one_request_id [OF assms(2) _ 3(1), of r] False show "speaking ws' br r"
              by (auto simp: speaking_def)
          qed
          then show ?thesis by simp
        next
          case True
          have le: "length (filter (speaking ws' br) (requests d')) \<le> length (filter (speaking ws' br) (requests d)) + 1"
            using count_update_add [of "speaking ws' br" ?mine ?f "requests d"]
              id_count [of "requests d" "rqID q" "\<lambda>r. rqWorkspace r = ws"] assms(2)
            unfolding d' e by (simp add: exclusive_def one_request_def)
          show ?thesis
          proof (cases "d' = d")
            case d: False
            have "int (length (filter (speaking ws' br) (requests d))) < maxSpeakers setting"
              using grant_request_limit [OF 3(3) d] assms(3) True by (simp add: speaker_count_def)
            with le show ?thesis by simp
          qed simp
        qed
      qed (simp add: d')
    qed simp
  qed simp
qed

lemma maxSpeakers_samples: "maxSpeakers ''1'' = 1" "maxSpeakers '''' = 16"
proof -
  have "maxSpeakers (Itoa n) = n" if "0 < n" "n < 2 ^ 63" for n
    using that ParseInt_Itoa [of n] by (simp add: maxSpeakers_def Atoi_def int64_range_def Itoa_def)
  from this [of 1] this [of 16] have "maxSpeakers (Itoa 1) = 1" "maxSpeakers (Itoa 16) = 16" by simp_all
  moreover have "Itoa 1 = ''1''" "Itoa 16 = ''16''" by code_simp+
  moreover have "maxSpeakers '''' = maxSpeakers ''16''" by (simp add: maxSpeakers_def)
  ultimately show "maxSpeakers ''1'' = 1" "maxSpeakers '''' = 16" by simp_all
qed

theorem grants_within_limit_witness:
  "int (length (filter (speaking ''w1'' ''r1'') (requests (snd (snd
     (speakerRequestAction fine sample_fleet ''1'' ''w1'' ''/api/v1/speaker-requests/id1/grant'' raised_db)))))) \<le> 1"
proof -
  let ?x = "speakerRequestAction fine sample_fleet ''1'' ''w1'' ''/api/v1/speaker-requests/id1/grant'' raised_db"
  have e: "?x = (fst ?x, fst (snd ?x), snd (snd ?x))" by (simp only: prod.collapse)
  have "length (filter (speaking ''w1'' ''r1'') (requests raised_db)) = 0" by code_simp
  moreover have "\<not> wfail fine 1" by (simp add: fine_def)
  ultimately show ?thesis
    using grants_within_limit [OF e raised_ok(2), of "''w1''" "''r1''"] by (simp add: maxSpeakers_samples)
qed

lemma grant_accepted:
  assumes "grant_request W F setting ws q d = (r, ps, d')" and "code r = 200"
  obtains l ns n where "query_row W 3 (filter (\<lambda>l. lgID l = granted_call W ws q d \<and> lgWorkspace l = ws) (legs d)) = Row l"
    "owner_of ns (lgNode l) = Some n" "flPost F 0 = None"
    "ps = [\<lparr>spNode = n, spPath = participant_command_path (rqParticipant q) ''unmute'',
            spBody = command_body (flCommand F 0) (granted_call W ws q d) (rqParticipant q) (lgEpoch l)\<rparr>]"
    "d' = grant_noted W ws q (granted_call W ws q d) (flCommand F 0) d"
proof -
  have err: "code (answer_error 409 m) \<noteq> 200" "code (answer_error 503 m) \<noteq> 200" "code (answer_error 502 m) \<noteq> 200" for m
    by (simp_all add: answer_error_def answer_def)
  have lim: "\<not> maxSpeakers setting \<le> speaker_count W 1 ws (rqBridge q) d"
    using assms err(1) by (auto simp: grant_request_def)
  note e = assms(1) [unfolded grant_request_def if_not_P [OF lim] Let_def]
  obtain l where l: "query_row W 3 (filter (\<lambda>l. lgID l = granted_call W ws q d \<and> lgWorkspace l = ws) (legs d)) = Row l"
    using e assms(2) err(1) by (auto split: fetched_row.splits)
  note e = e [unfolded l fetched_row.case]
  obtain ns where ns: "flNodes F 0 = Inr ns" using e assms(2) err(2) by (auto split: sum.splits)
  note e = e [unfolded ns sum.case]
  obtain n where n: "owner_of ns (lgNode l) = Some n" using e assms(2) err(1) by (auto split: option.splits)
  note e = e [unfolded n option.case]
  have p: "flPost F 0 = None" using e assms(2) err(3) by (auto split: option.splits)
  show thesis by (rule that [OF l n p]) (use e p in simp_all)
qed

text \<open>An accepted grant sends exactly one unmute of the caller's call to the node that owns it,
  makes the request ACTIVE, the participant ACTIVE and the call unmuted - whatever the status of the
  request was, also when it had been withdrawn.\<close>

theorem grant_effect:
  assumes "grant_request W F setting ws q d = (r, ps, d')" and "code r = 200" and "all_fine W"
    and "q \<in> set (requests d)" and "rqWorkspace q = ws"
    and "\<forall>x \<in> set (requests d). open_for (rqBridge q) (rqParticipant q) x \<longrightarrow> x = q" and "exclusive d"
  shows "(\<exists>p. ps = [p] \<and> spPath p = participant_command_path (rqParticipant q) ''unmute'' \<and>
      (\<exists>l \<in> set (legs d). lgID l = granted_call W ws q d \<and> NodeID (spNode p) = lgNode l)) \<and>
    (\<exists>x \<in> set (requests d'). rqID x = rqID q \<and> rqStatus x = ''ACTIVE'') \<and>
    (\<forall>p \<in> set (participants d'). paID p = rqParticipant q \<and> paWorkspace p = ws \<longrightarrow> paDesired p = ''ACTIVE'') \<and>
    (\<forall>l \<in> set (legs d'). lgID l = granted_call W ws q d \<and> lgWorkspace l = ws \<longrightarrow> \<not> lgMute l)"
proof -
  let ?c = "granted_call W ws q d"
  obtain l ns n where g: "query_row W 3 (filter (\<lambda>l. lgID l = ?c \<and> lgWorkspace l = ws) (legs d)) = Row l"
    "owner_of ns (lgNode l) = Some n" "flPost F 0 = None"
    "ps = [\<lparr>spNode = n, spPath = participant_command_path (rqParticipant q) ''unmute'',
            spBody = command_body (flCommand F 0) ?c (rqParticipant q) (lgEpoch l)\<rparr>]"
    "d' = grant_noted W ws q ?c (flCommand F 0) d"
    by (rule grant_accepted [OF assms(1,2)])
  have l: "l \<in> set (legs d)" "lgID l = ?c" using query_row_Row [OF g(1)] by auto
  have n: "NodeID n = lgNode l" using g(2) by (auto simp: owner_of_def find_Some_iff split: option.splits if_splits)
  let ?f = "\<lambda>r. r\<lparr>rqStatus := ''ACTIVE'', rqGranted := Some (wnow W 4), rqGrantedBy := Some ''admin''\<rparr>"
  have "\<not> (\<exists>r \<in> set (requests d). (rqID r = rqID q \<and> rqWorkspace r = ws) \<and>
      (\<exists>x \<in> set (requests d). \<not> (rqID x = rqID q \<and> rqWorkspace x = ws) \<and> open_for (rqBridge r) (rqParticipant r) x))"
    using one_request_id [OF assms(7) _ assms(4)] assms(5,6) by metis
  then have act: "activate_request ws (rqID q) now d = on_request (\<lambda>r. rqID r = rqID q \<and> rqWorkspace r = ws)
      (\<lambda>r. r\<lparr>rqStatus := ''ACTIVE'', rqGranted := Some now, rqGrantedBy := Some ''admin''\<rparr>) d" for now
    unfolding activate_request_def Let_def by (simp only: if_False)
  have d': "requests d' = update_where (\<lambda>r. rqID r = rqID q \<and> rqWorkspace r = ws) ?f (requests d)"
    "participants d' = update_where (\<lambda>p. paID p = rqParticipant q \<and> paWorkspace p = ws) (\<lambda>p. p\<lparr>paDesired := ''ACTIVE''\<rparr>) (participants d)"
    "legs d' = update_where (\<lambda>l. lgID l = ?c \<and> lgWorkspace l = ws) (\<lambda>l. l\<lparr>lgMute := False\<rparr>) (legs d)"
    by (simp_all add: g(5) grant_noted_def Let_def all_fine_simps [OF assms(3)] act on_request_def on_participant_def on_leg_def)
  have "?f q \<in> set (requests d')" unfolding d'(1) set_update_where using assms(4,5) by (intro rev_image_eqI) auto
  then have a: "\<exists>x \<in> set (requests d'). rqID x = rqID q \<and> rqStatus x = ''ACTIVE''" by (rule rev_bexI) simp
  have b: "\<forall>p \<in> set (participants d'). paID p = rqParticipant q \<and> paWorkspace p = ws \<longrightarrow> paDesired p = ''ACTIVE''"
    unfolding d'(2) by (rule ball_update_where) simp_all
  have c: "\<forall>l \<in> set (legs d'). lgID l = ?c \<and> lgWorkspace l = ws \<longrightarrow> \<not> lgMute l"
    unfolding d'(3) by (rule ball_update_where) simp_all
  have p: "\<exists>p. ps = [p] \<and> spPath p = participant_command_path (rqParticipant q) ''unmute'' \<and>
      (\<exists>l \<in> set (legs d). lgID l = ?c \<and> NodeID (spNode p) = lgNode l)"
    using g(4) n l by auto
  from p a b c show ?thesis by (intro conjI)
qed

definition withdrawn_db :: db where
  "withdrawn_db = snd (dtmf fine True (Some (press ''#'')) raised_db)"

theorem grant_effect_witness:
  "map rqStatus (requests withdrawn_db) = [''WITHDRAWN''] \<and>
   (\<exists>x \<in> set (requests (snd (snd (grant_request fine sample_fleet '''' ''w1'' (hd (requests withdrawn_db)) withdrawn_db)))).
      rqID x = ''id1'' \<and> rqStatus x = ''ACTIVE'')"
proof -
  have s: "map (\<lambda>r. (rqID r, rqWorkspace r, rqStatus r)) (requests withdrawn_db) = [(''id1'', ''w1'', ''WITHDRAWN'')]" by code_simp
  then obtain q where q: "requests withdrawn_db = [q]" "rqID q = ''id1''" "rqWorkspace q = ''w1''" "rqStatus q = ''WITHDRAWN''"
    by (cases "requests withdrawn_db") auto
  let ?x = "grant_request fine sample_fleet '''' ''w1'' (hd (requests withdrawn_db)) withdrawn_db"
  have e: "?x = (fst ?x, fst (snd ?x), snd (snd ?x))" by (simp only: prod.collapse)
  have c: "code (fst ?x) = 200" unfolding grant_request_def maxSpeakers_samples by code_simp
  have "exclusive withdrawn_db"
    unfolding withdrawn_db_def
    using changes_exclusive [OF dtmf_changes [OF prod.collapse [symmetric] raised_ok(1)] raised_ok(2)] .
  with grant_effect [OF e c fine_fine, unfolded q] q show ?thesis by simp
qed

end
