(* ===== verification/AdminProps.thy ===== *)
theory AdminProps
  imports PlatformProps
begin

text \<open>
  The product administrator's handlers: creating a workspace always finds a free slug while fewer
  than 1000 workspaces exist; the last active product administrator cannot be removed by one
  request, but by two that overlap; an owner can be demoted although it cannot be removed.
\<close>

section \<open>A free slug\<close>

lemma Itoa_inj: "i \<in> int64_range \<Longrightarrow> j \<in> int64_range \<Longrightarrow> Itoa i = Itoa j \<Longrightarrow> i = j"
  by (metis ParseInt_Itoa num_result.inject(1))

lemma numbered_slug_inj: "inj_on (numbered_slug base) {1..1000}"
proof (rule inj_onI)
  fix i j :: nat
  assume i: "i \<in> {1..1000}" and j: "j \<in> {1..1000}" and e: "numbered_slug base i = numbered_slug base j"
  have r: "int i \<in> int64_range" "int j \<in> int64_range" using i j by (simp_all add: int64_range_def)
  show "i = j"
  proof (cases "i > 1"; cases "j > 1")
    assume "i > 1" "j > 1"
    with e have "Itoa (int i) = Itoa (int j)" by (simp add: numbered_slug_def)
    then show ?thesis using Itoa_inj [OF r] by simp
  qed (use i j e in \<open>simp_all add: numbered_slug_def\<close>)
qed

text \<open>The loop stops at the first free slug, if there is one among the attempts left.\<close>

lemma workspace_loop_finds:
  assumes "\<And>k. \<not> wfail W k" and "\<And>k. wid W k \<notin> wsID ` set (workspaces d)" and "limit_ok m"
    and "\<exists>k \<in> {suffix..<suffix + n}. numbered_slug base k \<notin> wsSlug ` set (workspaces d)"
  shows "\<exists>k d'. workspace_loop W base name m suffix n d = Created (wid W k) (numbered_slug base k) d' \<and>
    d' = d\<lparr>workspaces := workspaces d @ [\<lparr>wsID = wid W k, wsSlug = numbered_slug base k, wsName = name,
           wsStatus = ''ACTIVE'', wsMax = m\<rparr>]\<rparr> \<and>
    numbered_slug base k \<notin> wsSlug ` set (workspaces d) \<and> suffix \<le> k \<and>
    numbered_slug base ` {suffix..<k} \<subseteq> wsSlug ` set (workspaces d)"
  using assms(4)
proof (induction n arbitrary: suffix)
  case 0
  then show ?case by simp
next
  case (Suc n)
  show ?case
  proof (cases "numbered_slug base suffix \<in> wsSlug ` set (workspaces d)")
    case False
    then show ?thesis
      using assms(1-3) by (intro exI [of _ suffix]) (simp add: Let_def insert_workspace_def)
  next
    case True
    obtain k0 where k0: "k0 \<in> {suffix..<suffix + Suc n}" "numbered_slug base k0 \<notin> wsSlug ` set (workspaces d)"
      using Suc.prems by blast
    with True have "k0 \<noteq> suffix" by blast
    with k0 have "\<exists>k \<in> {suffix + 1..<suffix + 1 + n}. numbered_slug base k \<notin> wsSlug ` set (workspaces d)"
      by (intro bexI [of _ k0]) auto
    from Suc.IH [OF this] obtain k d' where k: "workspace_loop W base name m (suffix + 1) n d = Created (wid W k) (numbered_slug base k) d'"
      "d' = d\<lparr>workspaces := workspaces d @ [\<lparr>wsID = wid W k, wsSlug = numbered_slug base k, wsName = name,
           wsStatus = ''ACTIVE'', wsMax = m\<rparr>]\<rparr>"
      "numbered_slug base k \<notin> wsSlug ` set (workspaces d)" "suffix + 1 \<le> k"
      "numbered_slug base ` {suffix + 1..<k} \<subseteq> wsSlug ` set (workspaces d)"
      by (elim exE conjE) (rule that)
    have "{suffix..<k} = insert suffix {suffix + 1..<k}" using k(4) by auto
    with k True assms(1) show ?thesis
      by (intro exI [of _ k] exI [of _ d']) (simp add: Let_def)
  qed
qed

lemma free_slug:
  assumes "length (workspaces d) < 1000"
  shows "\<exists>k \<in> {1..<1 + 1000}. numbered_slug base k \<notin> wsSlug ` set (workspaces d)"
proof (rule ccontr)
  assume "\<not> ?thesis"
  then have "numbered_slug base ` {1..1000} \<subseteq> wsSlug ` set (workspaces d)" by auto
  then have "card (numbered_slug base ` {1..1000}) \<le> card (wsSlug ` set (workspaces d))" by (rule card_mono [rotated]) simp
  moreover have "card (numbered_slug base ` {1..1000}) = 1000"
    using card_image [OF numbered_slug_inj [of base]] by simp
  moreover have "card (wsSlug ` set (workspaces d)) \<le> length (workspaces d)"
    using card_image_le [of "set (workspaces d)" wsSlug] card_length [of "workspaces d"] by simp
  ultimately show False using assms by simp
qed

lemma workspace_slug_nonempty: "workspace_slug i \<noteq> ''''"
  by (simp add: workspace_slug_def Let_def)

text \<open>With fewer than 1000 workspaces, and no failing statement, a product administrator's request with a
  name and a limit of at most 100000 always creates a workspace: its slug is the requested one, or
  the one derived from the name, with the first suffix that is free.\<close>

theorem workspace_created:
  assumes "\<And>k. \<not> wfail W k" and "\<And>k. wid W k \<notin> wsID ` set (workspaces d)"
    and "length (workspaces d) < 1000" and "TrimSpace (wiName i) \<noteq> ''''" and "wiMax i \<le> 100000"
  shows "\<exists>k r w. adminCreateWorkspace W (Some i) d = (r, d\<lparr>workspaces := workspaces d @ [w]\<rparr>) \<and> code r = 201 \<and>
    wsSlug w = numbered_slug (workspace_slug i) k \<and> wsSlug w \<notin> wsSlug ` set (workspaces d) \<and>
    numbered_slug (workspace_slug i) ` {1..<k} \<subseteq> wsSlug ` set (workspaces d) \<and>
    wsName w = TrimSpace (wiName i) \<and> wsStatus w = ''ACTIVE'' \<and> wsMax w = (if wiMax i \<le> 0 then 500 else wiMax i)"
proof -
  let ?m = "if wiMax i \<le> 0 then 500 else wiMax i"
  have m: "limit_ok ?m" using assms(5) by (simp add: limit_ok_def)
  obtain k d' where k: "workspace_loop W (workspace_slug i) (TrimSpace (wiName i)) ?m 1 1000 d =
      Created (wid W k) (numbered_slug (workspace_slug i) k) d'"
    "d' = d\<lparr>workspaces := workspaces d @ [\<lparr>wsID = wid W k, wsSlug = numbered_slug (workspace_slug i) k,
         wsName = TrimSpace (wiName i), wsStatus = ''ACTIVE'', wsMax = ?m\<rparr>]\<rparr>"
    "numbered_slug (workspace_slug i) k \<notin> wsSlug ` set (workspaces d)"
    "numbered_slug (workspace_slug i) ` {1..<k} \<subseteq> wsSlug ` set (workspaces d)"
    using workspace_loop_finds [OF assms(1,2) m free_slug [OF assms(3), of "workspace_slug i"], of "TrimSpace (wiName i)"]
    by (elim exE conjE) (rule that)
  have big: "\<not> ?m > 100000" using assms(5) by simp
  let ?w = "\<lparr>wsID = wid W k, wsSlug = numbered_slug (workspace_slug i) k,
         wsName = TrimSpace (wiName i), wsStatus = ''ACTIVE'', wsMax = ?m\<rparr>"
  have "adminCreateWorkspace W (Some i) d =
      (answer 201 [(''id'', JStr (wid W k)), (''slug'', JStr (numbered_slug (workspace_slug i) k)),
         (''name'', JStr (TrimSpace (wiName i))), (''max_participants'', JInt ?m), (''status'', JStr ''ACTIVE'')],
       d\<lparr>workspaces := workspaces d @ [?w]\<rparr>)"
    unfolding adminCreateWorkspace_def using assms(4) big
    by (simp only: option.case if_False Let_def k(1) attempt.case k(2))
  with k(3,4) show ?thesis
    by (intro exI [of _ k] exI [of _ "answer 201 _"] exI [of _ ?w]) simp
qed
definition sample_workspace_in :: workspace_in where
  "sample_workspace_in = \<lparr>wiName = ''Acme'', wiSlug = '''', wiMax = 0\<rparr>"

lemma sample_slug: "workspace_slug sample_workspace_in = ''acme''" "TrimSpace ''Acme'' \<noteq> ''''"
  by (code_simp, rule TrimSpace_id [THEN ssubst]) (simp_all add: space_byte_def go_spaces_def)

theorem workspace_created_witness:
  "\<exists>r w. adminCreateWorkspace fine (Some sample_workspace_in) sample_db = (r, sample_db\<lparr>workspaces := workspaces sample_db @ [w]\<rparr>) \<and>
     code r = 201 \<and> wsSlug w = ''acme-2''"
proof -
  have "\<exists>k r w. adminCreateWorkspace fine (Some sample_workspace_in) sample_db =
      (r, sample_db\<lparr>workspaces := workspaces sample_db @ [w]\<rparr>) \<and> code r = 201 \<and>
    wsSlug w = numbered_slug (workspace_slug sample_workspace_in) k \<and> wsSlug w \<notin> wsSlug ` set (workspaces sample_db) \<and>
    numbered_slug (workspace_slug sample_workspace_in) ` {1..<k} \<subseteq> wsSlug ` set (workspaces sample_db) \<and>
    wsName w = TrimSpace (wiName sample_workspace_in) \<and> wsStatus w = ''ACTIVE'' \<and>
    wsMax w = (if wiMax sample_workspace_in \<le> 0 then 500 else wiMax sample_workspace_in)"
    by (rule workspace_created) (use sample_slug(2) in \<open>simp_all add: fine_def sample_db_def sample_workspace_in_def\<close>)
  then obtain k r w where k: "adminCreateWorkspace fine (Some sample_workspace_in) sample_db =
      (r, sample_db\<lparr>workspaces := workspaces sample_db @ [w]\<rparr>)" "code r = 201"
    "wsSlug w = numbered_slug ''acme'' k" "wsSlug w \<notin> wsSlug ` set (workspaces sample_db)"
    "numbered_slug ''acme'' ` {1..<k} \<subseteq> wsSlug ` set (workspaces sample_db)"
    unfolding sample_slug by (elim exE conjE) (rule that)
  have two: "numbered_slug ''acme'' 2 = ''acme-2''" by code_simp
  have "k \<le> 2"
  proof (rule ccontr)
    assume "\<not> k \<le> 2"
    then have "numbered_slug ''acme'' 2 \<in> wsSlug ` set (workspaces sample_db)" using k(5) by force
    then show False by (simp add: two sample_db_def)
  qed
  moreover have "numbered_slug ''acme'' 0 \<in> wsSlug ` set (workspaces sample_db)"
      "numbered_slug ''acme'' 1 \<in> wsSlug ` set (workspaces sample_db)"
    by (simp_all add: numbered_slug_def sample_db_def)
  with k(3,4) have "k \<noteq> 0" "k \<noteq> 1" by metis+
  ultimately have "k = 2" by simp
  with k two show ?thesis by metis
qed

section \<open>Product administrators\<close>

lemma update_user_write_cases:
  assumes "update_user_write W hashpw opr i acc = (a, acc')"
  obtains "acc' = acc" "code a \<noteq> 200"
  | h where "acc' = acc\<lparr>operators := update_where (\<lambda>u. opID u = opr)
      (\<lambda>u. u\<lparr>opDisplay := TrimSpace (uuDisplay i), opStatus := update_status i, opPlatform := update_platform i,
             opHash := h u\<rparr>) (operators acc)\<rparr>" "code a = 200"
proof (cases "TrimSpace (uuPassword i) = ''''")
  case True
  with assms that(1) that(2) [of opHash] show ?thesis
    by (auto simp: update_user_write_def Let_def sql_exec_def split: if_splits)
next
  case False
  with assms that(1) that(2) [of "\<lambda>u. h" for h] show ?thesis
    by (auto simp: update_user_write_def Let_def sql_exec_def split: if_splits sum.splits)
qed

lemma update_check_None:
  assumes "update_user_check W now r st opr i acc = None"
  shows "\<exists>u. u \<in> set (operators acc) \<and> opID u = opr \<and>
    (product_role (opPlatform u) \<longrightarrow>
       product_role (update_platform i) \<and> update_status i = ''ACTIVE'' \<or> 2 \<le> length (active_admins acc))"
proof -
  let ?q = "query_row W 0 [u. u \<leftarrow> operators acc, opID u = opr,
     m \<leftarrow> members acc, wmOperator m = opID u \<and> wmWorkspace m = TrimSpace (wrWorkspace r)]"
  obtain u where q: "?q = Row u"
    using assms by (auto simp: update_user_check_def Let_def split: if_splits fetched_row.splits)
  have "u \<in> set (operators acc) \<and> opID u = opr"
    using query_row_in [OF q] by (auto split: if_splits)
  moreover have "product_role (opPlatform u) \<longrightarrow>
      product_role (update_platform i) \<and> update_status i = ''ACTIVE'' \<or> 2 \<le> length (active_admins acc)"
    using assms q by (auto simp: update_user_check_def Let_def split: if_splits)
  ultimately show ?thesis by blast
qed

lemma admin_stays:
  assumes "u \<in> set (active_admins acc)" and "opID u \<noteq> opr"
  shows "u \<in> set (active_admins (acc\<lparr>operators := update_where (\<lambda>u. opID u = opr) f (operators acc)\<rparr>))"
  using assms by (auto simp: active_admins_def set_update_where image_iff)

lemma other_admin:
  assumes "distinct (map opID (operators acc))" and "2 \<le> length (active_admins acc)"
  shows "\<exists>u \<in> set (active_admins acc). opID u \<noteq> opr"
proof (rule ccontr)
  assume "\<not> ?thesis"
  then have "opID ` set (active_admins acc) \<subseteq> {opr}" by blast
  moreover have "distinct (map opID (active_admins acc))"
    using assms(1) by (simp add: active_admins_def distinct_map_filter)
  ultimately have "length (active_admins acc) \<le> 1"
    by (metis card.empty card_insert_disjoint card_mono distinct_card empty_iff finite.emptyI finite.insertI
        length_map list.set_map One_nat_def)
  with assms(2) show False by simp
qed

lemma adminUpdateUser_keeps:
  assumes "adminUpdateUser W now hashpw r st opr i acc = (a, acc')" and "distinct (map opID (operators acc))"
    and "active_admins acc \<noteq> []"
  shows "active_admins acc' \<noteq> []"
proof (cases "acc' = acc")
  case False
  with assms(1) obtain j where j: "update_user_check W now r st opr j acc = None"
      "update_user_write W hashpw opr j acc = (a, acc')"
    by (auto simp: adminUpdateUser_def split: option.splits)
  obtain h where acc': "acc' = acc\<lparr>operators := update_where (\<lambda>u. opID u = opr)
      (\<lambda>u. u\<lparr>opDisplay := TrimSpace (uuDisplay j), opStatus := update_status j, opPlatform := update_platform j,
             opHash := h u\<rparr>) (operators acc)\<rparr>"
    using j(2) by (rule update_user_write_cases) (use False that in blast)+
  obtain u where u: "u \<in> set (operators acc)" "opID u = opr"
    "product_role (opPlatform u) \<longrightarrow> product_role (update_platform j) \<and> update_status j = ''ACTIVE'' \<or> 2 \<le> length (active_admins acc)"
    using update_check_None [OF j(1)] by blast
  have "\<exists>v. v \<in> set (active_admins acc')"
  proof (cases "product_role (update_platform j) \<and> update_status j = ''ACTIVE''")
    case True
    then show ?thesis using u(1,2) unfolding acc' active_admins_def by (auto simp: set_update_where)
  next
    case no: False
    show ?thesis
    proof (cases "product_role (opPlatform u)")
      case True
      then obtain v where "v \<in> set (active_admins acc)" "opID v \<noteq> opr"
        using other_admin [OF assms(2), of opr] u(3) no by blast
      then show ?thesis unfolding acc' using admin_stays by blast
    next
      case False
      obtain v where v: "v \<in> set (active_admins acc)" using assms(3) by (meson last_in_set)
      have "v \<noteq> u" using v False by (auto simp: active_admins_def)
      then have "opID v \<noteq> opr"
        using u(1,2) v assms(2) by (auto simp: active_admins_def distinct_map dest: inj_onD)
      with v show ?thesis unfolding acc' using admin_stays by blast
    qed
  qed
  then show ?thesis by auto
qed (use assms(3) in simp)

lemma adminCreateUser_keeps:
  assumes "adminCreateUser W hashpw i d acc = (a, acc')" and "u \<in> set (active_admins acc)"
  shows "u \<in> set (active_admins acc')"
proof -
  have mine: "opID u \<in> opID ` set (operators acc)" using assms(2) by (simp add: active_admins_def)
  have old: "opID u \<noteq> wid W 0 \<and> u \<in> set (active_admins acc1) \<and> u \<in> set (operators acc1)"
    if "insert_operator x acc = Some acc1" "opID x = wid W 0" for x acc1
  proof -
    have new: "acc1 = acc\<lparr>operators := operators acc @ [x]\<rparr>" "opID x \<notin> opID ` set (operators acc)"
      using that(1) by (simp_all add: insert_operator_def split: if_splits)
    with mine that(2) have "opID u \<noteq> wid W 0" by metis
    with new(1) assms(2) show ?thesis by (simp add: active_admins_def)
  qed
  consider "acc' = acc" | x acc1 m where "insert_operator x acc = Some acc1" "opID x = wid W 0"
      "acc' = acc1 \<or> acc' = delete_operator (wid W 0) acc1 \<or> insert_member d m acc1 = Some acc'"
    using assms(1)
    by (auto simp: adminCreateUser_def Let_def sql_exec_Inr sql_try_def split: option.splits if_splits sum.splits)
      (metis operator_row.select_convs(1))+
  then show ?thesis
  proof cases
    case (2 x acc1 m)
    note u = old [OF 2(1,2)]
    from 2(3) show ?thesis
    proof (elim disjE)
      assume "acc' = delete_operator (wid W 0) acc1"
      with u show ?thesis by (simp add: active_admins_def delete_operator_def)
    next
      assume "insert_member d m acc1 = Some acc'"
      then have "operators acc' = operators acc1" by (auto simp: insert_member_def split: if_splits)
      with u show ?thesis by (simp add: active_admins_def)
    qed (use u in simp)
  qed (use assms(2) in simp)
qed

text \<open>C35: no single request of a product administrator leaves the product without an active product
  administrator.\<close>

theorem last_admin_remains:
  assumes "admin W pg now hashpw r st body d acc = (a, d', acc')" and "accounts_ok acc" and "active_admins acc \<noteq> []"
  shows "active_admins acc' \<noteq> []"
proof -
  obtain u where u: "u \<in> set (active_admins acc)" using assms(3) by (meson last_in_set)
  have ops: "active_admins acc' \<noteq> []" if "operators acc' = operators acc"
    using assms(3) that by (simp add: active_admins_def)
  have ids: "distinct (map opID (operators acc))" using assms(2) by (simp add: accounts_ok_def)
  have add: "operators (snd (adminAddMember W ws i d acc)) = operators acc" for ws i
    by (auto simp: adminAddMember_def Let_def sql_exec_def save_member_def insert_member_def split: option.splits)
  have rem: "operators (snd (adminRemoveMember W ws u acc)) = operators acc" for ws u
    by (auto simp: adminRemoveMember_def Let_def sql_exec_def)
  consider "acc' = acc" | i where "adminCreateUser W hashpw i d acc = (a, acc')"
    | x i where "adminUpdateUser W now hashpw r st x i acc = (a, acc')"
    | ws i where "adminAddMember W ws i d acc = (a, acc')" | ws x where "adminRemoveMember W ws x acc = (a, acc')"
  proof -
    assume *: "acc' = acc \<Longrightarrow> thesis" "\<And>i. adminCreateUser W hashpw i d acc = (a, acc') \<Longrightarrow> thesis"
      "\<And>x i. adminUpdateUser W now hashpw r st x i acc = (a, acc') \<Longrightarrow> thesis"
      "\<And>ws i. adminAddMember W ws i d acc = (a, acc') \<Longrightarrow> thesis"
      "\<And>ws x. adminRemoveMember W ws x acc = (a, acc') \<Longrightarrow> thesis"
    show thesis
    proof (cases "admin_route (wrMethod r) (wrPath r)")
      case None
      with assms(1) show thesis using *(1) by (simp add: admin_def)
    next
      case (Some op)
      with assms(1) have "run_admin W pg now hashpw r st body op d acc = (a, d', acc')" by (simp add: admin_def)
      then show thesis by (cases op) (auto split: prod.splits intro: *)
    qed
  qed
  then show ?thesis
  proof cases
    case 2
    then show ?thesis using adminCreateUser_keeps [OF 2 u] by auto
  next
    case 3
    then show ?thesis using adminUpdateUser_keeps ids assms(3) by blast
  next
    case (4 ws i)
    then show ?thesis using add [of ws i] ops by simp
  next
    case (5 ws x)
    then show ?thesis using rem [of ws x] ops by simp
  qed (use assms(3) in simp)
qed
text \<open>A deployment with two product administrators, each with a session.\<close>

definition sample_admins :: accounts where
  "sample_admins = \<lparr>operators = [sample_operator ''root'' ''PLATFORM_OWNER'', sample_operator ''eve'' ''PLATFORM_ADMIN''],
     members = [\<lparr>wmWorkspace = ''w'', wmOperator = ''root'', wmRole = ''OWNER''\<rparr>,
       \<lparr>wmWorkspace = ''w'', wmOperator = ''eve'', wmRole = ''ADMIN''\<rparr>]\<rparr>"

definition admin_login :: "string \<Rightarrow> login_session" where
  "admin_login u = \<lparr>liExpires = 44200, liWorkspace = '''', liOperator = u, liUsername = u, liDisplay = u,
     liRole = '''', liPlatform = True\<rparr>"

definition admin_web :: web where
  "admin_web = \<lparr>customers = Map.empty, admins = [''r'' \<mapsto> admin_login ''root'', ''e'' \<mapsto> admin_login ''eve'']\<rparr>"

definition admin_request :: "string \<Rightarrow> string \<Rightarrow> web_request" where
  "admin_request c u = \<lparr>wrCustomer = None, wrAdmin = Some c, wrWorkspace = ''w'', wrMethod = ''PUT'',
     wrPath = ''/api/v1/admin/users/'' @ u\<rparr>"

definition demotion :: user_update_in where
  "demotion = \<lparr>uuDisplay = '''', uuStatus = ''ACTIVE'', uuPlatform = '''', uuPassword = ''''\<rparr>"

definition demoted :: "string \<Rightarrow> accounts \<Rightarrow> accounts" where
  "demoted u acc = acc\<lparr>operators := update_where (\<lambda>x. opID x = u)
     (\<lambda>x. x\<lparr>opPlatform := ''WORKSPACE_OPERATOR''\<rparr>) (operators acc)\<rparr>"

lemmas admin_samples = sample_admins_def admin_login_def admin_web_def admin_request_def demotion_def demoted_def
  account_samples

lemma trim_w: "TrimSpace ''w'' = ''w''"
  by (rule TrimSpace_id) (simp add: space_byte_def go_spaces_def)

lemma sample_demotion_check:
  "update_user_check fine_world (\<lambda>_. 2000) (admin_request ''r'' '''') admin_web ''eve'' demotion sample_admins = None"
  "update_user_check fine_world (\<lambda>_. 2000) (admin_request ''e'' '''') admin_web ''root'' demotion sample_admins = None"
  by (simp_all add: update_user_check_def admin_samples trim_w query_row_def currentAdminSession_def live_login_def
      update_platform_def update_status_def product_role_def active_admins_def)

lemma sample_demotion_write:
  "update_user_write fine_world (\<lambda>_. Inl '''') ''eve'' demotion sample_admins =
     (answer 200 [(''status'', JStr ''saved'')], demoted ''eve'' sample_admins)"
  "update_user_write fine_world (\<lambda>_. Inl '''') ''root'' demotion (demoted ''eve'' sample_admins) =
     (answer 200 [(''status'', JStr ''saved'')], demoted ''root'' (demoted ''eve'' sample_admins))"
  by (simp_all add: update_user_write_def Let_def admin_samples sql_exec_def update_where_def
      update_platform_def update_status_def)

lemma sample_admins_ok: "accounts_ok sample_admins"
  by (simp add: accounts_ok_def admin_samples member_roles_def)

lemma sample_admin_route: "admin_route ''PUT'' ''/api/v1/admin/users/eve'' = Some (UpdateUser ''eve'')"
  by code_simp

definition no_body :: admin_body where
  "no_body = \<lparr>abUser = None, abUserUpdate = Some demotion, abWorkspace = None, abWorkspaceUpdate = None,
     abMember = None, abRoom = None, abRoomUpdate = None, abTFN = None\<rparr>"

definition sample_pg :: pg where
  "sample_pg = \<lparr>pgLower = (\<lambda>s. s), pgCollate = (\<lambda>_. 0), pgCreated = (\<lambda>_. JNull)\<rparr>"

lemma update_user_check_path:
  "update_user_check W now (r\<lparr>wrPath := p\<rparr>) st opr i acc = update_user_check W now r st opr i acc"
  by (cases r) (simp only: update_user_check_def currentAdminSession_def web_request.update_convs web_request.select_convs)

theorem last_admin_remains_witness:
  "\<exists>a. admin fine_world sample_pg (\<lambda>_. 2000) (\<lambda>_. Inl '''') (admin_request ''r'' ''eve'') admin_web no_body sample_tenants sample_admins =
      (a, sample_tenants, demoted ''eve'' sample_admins) \<and> code a = 200 \<and>
    active_admins (demoted ''eve'' sample_admins) \<noteq> []"
proof -
  let ?r = "admin_request ''r'' ''eve''"
  have "?r = (admin_request ''r'' '''')\<lparr>wrPath := ''/api/v1/admin/users/eve''\<rparr>" by (simp add: admin_request_def)
  then have check: "update_user_check fine_world (\<lambda>_. 2000) ?r admin_web ''eve'' demotion sample_admins = None"
    by (simp only: update_user_check_path sample_demotion_check)
  have route: "admin_route (wrMethod ?r) (wrPath ?r) = Some (UpdateUser ''eve'')"
    using sample_admin_route by (simp add: admin_request_def)
  have body: "abUserUpdate no_body = Some demotion" by (simp add: no_body_def)
  have e: "admin fine_world sample_pg (\<lambda>_. 2000) (\<lambda>_. Inl '''') ?r admin_web no_body sample_tenants sample_admins =
      (answer 200 [(''status'', JStr ''saved'')], sample_tenants, demoted ''eve'' sample_admins)"
    unfolding admin_def route option.case run_admin.simps body adminUpdateUser_def check sample_demotion_write(1) prod.case ..
  have "active_admins sample_admins \<noteq> []"
    by (simp add: active_admins_def admin_samples product_role_def)
  then have "active_admins (demoted ''eve'' sample_admins) \<noteq> []"
    by (rule last_admin_remains [OF e sample_admins_ok])
  then show ?thesis
    by (intro exI [of _ "answer 200 [(''status'', JStr ''saved'')]"] conjI e code_answer)
qed

text \<open>C39: two requests that overlap can: when the only two active product administrators demote or disable
  each other and both checks run before either update, both are answered 200 and none is left.\<close>

theorem admins_race:
  assumes "update_user_check W1 now1 r1 st x i acc = None" and "update_user_check W2 now2 r2 st y j acc = None"
    and "set (map opID (active_admins acc)) = {x, y}"
    and "\<not> (product_role (update_platform i) \<and> update_status i = ''ACTIVE'')"
    and "\<not> (product_role (update_platform j) \<and> update_status j = ''ACTIVE'')"
    and "update_user_write W1 hashpw x i acc = (a1, acc1)" and "code a1 = 200"
    and "update_user_write W2 hashpw y j acc1 = (a2, acc2)" and "code a2 = 200"
  shows "active_admins acc2 = []"
proof -
  have gone: "set (map opID (active_admins e)) \<subseteq> set (map opID (active_admins d)) - {z}"
    if w: "update_user_write W hashpw z k d = (a, e)" "code a = 200"
      and no: "\<not> (product_role (update_platform k) \<and> update_status k = ''ACTIVE'')" for W z k d a e
  proof -
    have "\<exists>h. e = d\<lparr>operators := update_where (\<lambda>u. opID u = z)
      (\<lambda>u. u\<lparr>opDisplay := TrimSpace (uuDisplay k), opStatus := update_status k, opPlatform := update_platform k,
             opHash := h u\<rparr>) (operators d)\<rparr>"
      by (rule update_user_write_cases [OF w(1)]) (use w(2) in simp, rule exI)
    then obtain h where "e = d\<lparr>operators := update_where (\<lambda>u. opID u = z)
      (\<lambda>u. u\<lparr>opDisplay := TrimSpace (uuDisplay k), opStatus := update_status k, opPlatform := update_platform k,
             opHash := h u\<rparr>) (operators d)\<rparr>" ..
    then have ops: "operators e = update_where (\<lambda>u. opID u = z)
      (\<lambda>u. u\<lparr>opDisplay := TrimSpace (uuDisplay k), opStatus := update_status k, opPlatform := update_platform k,
             opHash := h u\<rparr>) (operators d)" by simp
    have "u \<in> set (active_admins d) \<and> opID u \<noteq> z" if u: "u \<in> set (active_admins e)" for u
    proof -
      obtain v where v: "v \<in> set (operators d)" "u = (if opID v = z then v\<lparr>opDisplay := TrimSpace (uuDisplay k),
          opStatus := update_status k, opPlatform := update_platform k, opHash := h v\<rparr> else v)"
        using u unfolding active_admins_def ops by (auto simp: update_where_def)
      have "opID v \<noteq> z" using u v(2) no by (auto simp: active_admins_def)
      with u v show ?thesis by (simp add: active_admins_def)
    qed
    then show ?thesis by auto
  qed
  have "set (map opID (active_admins acc2)) \<subseteq> {x, y} - {x} - {y}"
    using gone [OF assms(6,7,4)] gone [OF assms(8,9,5)] assms(3) by blast
  also have "\<dots> = {}" by blast
  finally show ?thesis by simp
qed

theorem admins_race_witness: "active_admins (demoted ''root'' (demoted ''eve'' sample_admins)) = []"
proof -
  have ids: "set (map opID (active_admins sample_admins)) = {''eve'', ''root''}"
    by (auto simp: active_admins_def admin_samples product_role_def)
  have no: "\<not> (product_role (update_platform demotion) \<and> update_status demotion = ''ACTIVE'')"
    by (simp add: demotion_def update_platform_def product_role_def)
  show ?thesis
    by (rule admins_race [OF sample_demotion_check(1,2) ids no no sample_demotion_write(1) _ sample_demotion_write(2)]) simp_all
qed
section \<open>Owners\<close>

text \<open>Removing a membership never removes an ownership, but saving one with another role takes an
  ownership away, also the last one of a workspace.\<close>

theorem owner_demoted:
  assumes "m \<in> set (members acc)" and "wmRole m = ''OWNER''"
  shows "m \<in> set (members (snd (adminRemoveMember W ws opr acc))) \<and>
    (\<not> wfail W 0 \<and> TrimSpace (wmOperator m) \<noteq> '''' \<and> role \<noteq> ''OWNER'' \<longrightarrow>
      code (fst (adminAddMember W (wmWorkspace m) (Some \<lparr>giOperator = wmOperator m, giRole = role\<rparr>) d acc)) = 200 \<and>
      filter (\<lambda>x. member_of (wmWorkspace m) (wmOperator m) x \<and> wmRole x = ''OWNER'')
        (members (snd (adminAddMember W (wmWorkspace m) (Some \<lparr>giOperator = wmOperator m, giRole = role\<rparr>) d acc))) = [])"
proof (intro conjI impI)
  show "m \<in> set (members (snd (adminRemoveMember W ws opr acc)))"
    using assms by (auto simp: adminRemoveMember_def Let_def sql_exec_def)
next
  assume h: "\<not> wfail W 0 \<and> TrimSpace (wmOperator m) \<noteq> '''' \<and> role \<noteq> ''OWNER''"
  let ?new = "\<lparr>wmWorkspace = wmWorkspace m, wmOperator = wmOperator m, wmRole = workspace_role_in role\<rparr>"
  let ?acc = "acc\<lparr>members := update_where (member_of (wmWorkspace m) (wmOperator m))
      (\<lambda>x. x\<lparr>wmRole := workspace_role_in role\<rparr>) (members acc)\<rparr>"
  have role: "workspace_role_in role \<in> set member_roles" "workspace_role_in role \<noteq> ''OWNER''"
    using h by (auto simp: workspace_role_in_def member_roles_def)
  have "\<exists>x \<in> set (members acc). member_of (wmWorkspace m) (wmOperator m) x"
    using assms(1) by (auto simp: member_of_def)
  then have "save_member d ?new acc = Some ?acc" using role(1) by (simp add: save_member_def)
  then have e: "adminAddMember W (wmWorkspace m) (Some \<lparr>giOperator = wmOperator m, giRole = role\<rparr>) d acc =
      (answer 200 [(''status'', JStr ''saved'')], ?acc)"
    using h by (simp add: adminAddMember_def Let_def sql_exec_def)
  show "code (fst (adminAddMember W (wmWorkspace m) (Some \<lparr>giOperator = wmOperator m, giRole = role\<rparr>) d acc)) = 200"
    by (simp add: e)
  show "filter (\<lambda>x. member_of (wmWorkspace m) (wmOperator m) x \<and> wmRole x = ''OWNER'')
        (members (snd (adminAddMember W (wmWorkspace m) (Some \<lparr>giOperator = wmOperator m, giRole = role\<rparr>) d acc))) = []"
    using role(2) by (simp add: e) (auto simp: update_where_def member_of_def filter_empty_conv)
qed

theorem owner_demoted_witness:
  "filter (\<lambda>x. member_of ''w'' ''ann'' x \<and> wmRole x = ''OWNER'')
     (members (snd (adminAddMember fine_world ''w'' (Some \<lparr>giOperator = ''ann'', giRole = ''VIEWER''\<rparr>) sample_tenants sample_accounts))) = []"
proof -
  let ?m = "\<lparr>wmWorkspace = ''w'', wmOperator = ''ann'', wmRole = ''OWNER''\<rparr>"
  have "TrimSpace ''ann'' = ''ann''" by (rule TrimSpace_id) (simp add: space_byte_def go_spaces_def)
  moreover have "?m \<in> set (members sample_accounts)" by (simp add: sample_accounts_def)
  ultimately show ?thesis
    using owner_demoted [of ?m sample_accounts fine_world "''w''" "''ann''" "''VIEWER''" sample_tenants]
    by (simp add: fine_world_def)
qed

section \<open>Showing a room\<close>

lemma state_loop_frame:
  "state_loop W k ws ep rows d = (js, d') \<Longrightarrow>
    bridges d' = bridges d \<and> participants d' = participants d \<and> sessions d' = sessions d \<and> requests d' = requests d \<and>
    map lgID (legs d') = map lgID (legs d)"
proof (induction rows arbitrary: k d js)
  case Nil
  then show ?case by simp
next
  case (Cons pl rows)
  obtain p l where pl: "pl = (p, l)" by (cases pl)
  let ?d = "if (case l of None \<Rightarrow> False | Some l \<Rightarrow> stale_leg ep l) then end_stale W k ws (the l) d else d"
  obtain js' where e: "state_loop W (Suc k) ws ep rows ?d = (js', d')"
    using Cons.prems unfolding pl by (auto simp: Let_def split: prod.splits)
  have "bridges ?d = bridges d \<and> participants ?d = participants d \<and> sessions ?d = sessions d \<and> requests ?d = requests d \<and>
    map lgID (legs ?d) = map lgID (legs d)"
    by (simp add: end_stale_def sql_try_def on_leg_def map_update_where)
  with Cons.IH [OF e] show ?case by (simp del: map_eq_conv)
qed

text \<open>A call stays as it is unless one of the rows shows it as stale.\<close>

lemma state_loop_legs:
  "state_loop W k ws ep rows d = (js, d') \<Longrightarrow>
   (\<And>p x. (p, Some x) \<in> set rows \<Longrightarrow> stale_leg ep x \<Longrightarrow> lgID x = lgID l \<Longrightarrow> False) \<Longrightarrow>
   l \<in> set (legs d) \<Longrightarrow> l \<in> set (legs d')"
proof (induction rows arbitrary: k d js)
  case Nil
  then show ?case by simp
next
  case (Cons pl rows)
  obtain p x where pl: "pl = (p, x)" by (cases pl)
  let ?d = "if (case x of None \<Rightarrow> False | Some l \<Rightarrow> stale_leg ep l) then end_stale W k ws (the x) d else d"
  obtain js' where e: "state_loop W (Suc k) ws ep rows ?d = (js', d')"
    using Cons.prems(1) unfolding pl by (auto simp: Let_def split: prod.splits)
  have "l \<in> set (legs ?d)"
  proof (cases "\<exists>y. x = Some y \<and> stale_leg ep y")
    case True
    then obtain y where y: "x = Some y" "stale_leg ep y" by blast
    then have "lgID y \<noteq> lgID l" using Cons.prems(2) [of p y] by (auto simp: pl)
    with y Cons.prems(3) show ?thesis
      by (auto simp: end_stale_def sql_try_def on_leg_def set_update_where image_iff intro!: bexI [of _ l])
  next
    case False
    with Cons.prems(3) show ?thesis by (auto split: option.splits)
  qed
  with Cons.IH [OF e] Cons.prems(2) show ?case by auto
qed

text \<open>Showing a room ends only calls of its participants whose node answers now with another epoch: every
  other call, and all rooms, participants, sessions and requests, stay as they are, whatever
  statements fail and also when no node answers.\<close>

theorem show_room_ends_stale:
  assumes "bridgeState W F stamp created ws br d = (r, d')"
  shows "bridges d' = bridges d \<and> participants d' = participants d \<and> sessions d' = sessions d \<and> requests d' = requests d \<and>
    (\<forall>l \<in> set (legs d). l \<in> set (legs d') \<or>
      (\<exists>ns p x. flNodes F 0 = Inr ns \<and> p \<in> set (state_rows ws br d) \<and> latest_leg ws p d = Some x \<and>
         stale_leg (current_epochs ns) x \<and> lgID x = lgID l))"
proof -
  let ?ep = "case flNodes F 0 of Inl _ \<Rightarrow> Map.empty | Inr ns \<Rightarrow> current_epochs ns"
  let ?rows = "map (\<lambda>p. (p, latest_leg ws p d)) (state_rows ws br d)"
  consider "d' = d" | js where "state_loop W 5 ws ?ep ?rows d = (js, d')"
    using assms by (auto simp: bridgeState_def Let_def query_rows_def split: fetched_row.splits sum.splits prod.splits if_splits)
  then show ?thesis
  proof cases
    case 2
    have "l \<in> set (legs d') \<or>
      (\<exists>ns p x. flNodes F 0 = Inr ns \<and> p \<in> set (state_rows ws br d) \<and> latest_leg ws p d = Some x \<and>
         stale_leg (current_epochs ns) x \<and> lgID x = lgID l)" if l: "l \<in> set (legs d)" for l
    proof (cases "\<exists>p x. (p, Some x) \<in> set ?rows \<and> stale_leg ?ep x \<and> lgID x = lgID l")
      case True
      then obtain p x where px: "(p, Some x) \<in> set ?rows" "stale_leg ?ep x" "lgID x = lgID l" by blast
      from px(1) have "p \<in> set (state_rows ws br d)" "latest_leg ws p d = Some x" by auto
      moreover note px(2,3)
      moreover from px(2) have "\<exists>ns. flNodes F 0 = Inr ns \<and> stale_leg (current_epochs ns) x"
        by (auto simp: stale_leg_def split: sum.splits option.splits)
      ultimately show ?thesis by blast
    next
      case False
      with state_loop_legs [OF 2 _ l] show ?thesis by blast
    qed
    with state_loop_frame [OF 2] show ?thesis by blast
  qed simp
qed
definition sample_stale :: db where
  "sample_stale = sample_db\<lparr>legs := [\<lparr>lgID = ''c1'', lgWorkspace = ''w1'', lgParticipant = ''p2'', lgBridge = ''r1'',
     lgNode = ''core-1'', lgEpoch = 6, lgMember = None, lgPBXCall = None, lgSIPCall = None, lgState = ''ANSWERED'',
     lgMute = True, lgError = None, lgAnswered = Some 900, lgEnded = None\<rparr>]\<rparr>"

theorem show_room_ends_stale_witness:
  "bridges (snd (bridgeState fine sample_fleet (\<lambda>_. JNull) (\<lambda>_. JNull) ''w1'' ''r1'' sample_stale)) = bridges sample_db \<and>
   map lgState (legs (snd (bridgeState fine sample_fleet (\<lambda>_. JNull) (\<lambda>_. JNull) ''w1'' ''r1'' sample_stale))) = [''ENDED'']"
proof
  obtain r d' where e: "bridgeState fine sample_fleet (\<lambda>_. JNull) (\<lambda>_. JNull) ''w1'' ''r1'' sample_stale = (r, d')" by fastforce
  show "bridges (snd (bridgeState fine sample_fleet (\<lambda>_. JNull) (\<lambda>_. JNull) ''w1'' ''r1'' sample_stale)) = bridges sample_db"
    using show_room_ends_stale [OF e, THEN conjunct1] unfolding e snd_conv by (simp add: sample_stale_def)
  show "map lgState (legs (snd (bridgeState fine sample_fleet (\<lambda>_. JNull) (\<lambda>_. JNull) ''w1'' ''r1'' sample_stale))) = [''ENDED'']"
    by code_simp
qed

end
