(* ===== verification/HostWait.thy ===== *)
theory HostWait
  imports StopProps
begin

text \<open>
  The goroutine that waits for the host of a started room as a whole (activateRoomAfterHost): its loop
  with the deadline of 90 seconds and half a second of sleep, and whatever the rest of the system does
  to the tables meanwhile. The loop ends, and with it the starting of the session.
\<close>

section \<open>The loop\<close>

text \<open>One pass: the clock at the test of the deadline, the outcomes of its statements, the fleet, and what
  all others do to the tables while the goroutine sleeps.\<close>

record wait_pass =
  psClock :: int
  psWorld :: world
  psFleet :: fleet
  psOthers :: "db \<Rightarrow> db"

text \<open>The first argument bounds the passes; \<open>None\<close> means that they did not suffice.\<close>

fun activate_loop ::
  "nat \<Rightarrow> (nat \<Rightarrow> wait_pass) \<Rightarrow> int \<Rightarrow> nat \<Rightarrow> activation \<Rightarrow> db \<Rightarrow> (sidecar_post list \<times> db) option" where
  "activate_loop 0 E deadline i a d = None"
| "activate_loop (Suc n) E deadline i a d =
     (if psClock (E i) < deadline then
        (case activate_tick (psWorld (E i)) (psFleet (E i)) a d of
           (Finished, ps, d) \<Rightarrow> Some (ps, d)
         | (Waiting, ps, d) \<Rightarrow> activate_loop n E deadline (Suc i) a (psOthers (E i) d))
      else Some ([], activate_timeout (psWorld (E i)) a d))"

definition wait_limit :: int where
  "wait_limit = 90 * 1000000000"

definition activateRoomAfterHost ::
  "nat \<Rightarrow> (nat \<Rightarrow> wait_pass) \<Rightarrow> int \<Rightarrow> activation \<Rightarrow> db \<Rightarrow> (sidecar_post list \<times> db) option" where
  "activateRoomAfterHost n E begun a d = activate_loop n E (begun + wait_limit) 0 a d"

section \<open>The session is decided\<close>

definition decided :: "activation \<Rightarrow> db \<Rightarrow> bool" where
  "decided a d \<longleftrightarrow> (\<forall>s \<in> set (sessions d). seID s = acSession a \<longrightarrow> seStatus s \<noteq> ''STARTING'')"

lemma decided_sessions: "sessions d' = sessions d \<Longrightarrow> decided a d' = decided a d"
  by (simp add: decided_def)

lemma decided_update:
  assumes "\<And>s. seID (f s) = seID s" and "\<And>s. seStatus (f s) \<noteq> ''STARTING''"
  shows "decided a (on_session (\<lambda>s. seID s = acSession a \<and> seStatus s = ''STARTING'') f d)"
  using assms by (auto simp: decided_def on_session_def update_where_def)

lemma dispatch_all_sessions: "sessions (snd (dispatch_all W F i a ids d)) = sessions d"
proof (induction ids arbitrary: i d)
  case Nil
  then show ?case by simp
next
  case (Cons p ids)
  obtain r ps d1 where "dispatchExistingParticipant W (10 + 5 * i) F i (acWorkspace a) (acBridge a) p (acSession a) d = (r, ps, d1)"
    by (metis prod_cases3)
  moreover obtain qs d2 where "dispatch_all W F (Suc i) a ids d1 = (qs, d2)" by fastforce
  ultimately show ?case using dispatch_sessions Cons [of "Suc i" d1] by simp
qed

lemma failed_decided: "\<not> wfail W k \<Longrightarrow> decided a (activation_failed W k a d)"
proof -
  assume "\<not> wfail W k"
  moreover have "sessions (sql_try W (k + 1) (on_room (acWorkspace a) (acBridge a) f) d) = sessions d" for f d
    by (simp add: sql_try_def on_room_def)
  ultimately show ?thesis
    unfolding activation_failed_def Let_def
    by (subst decided_sessions) (auto simp: sql_try_def intro: decided_update)
qed

lemma tick_decided:
  assumes "activate_tick W F a d = (Finished, ps, d')" and "\<forall>k. \<not> wfail W k"
  shows "decided a d'"
proof -
  let ?d1 = "on_session (\<lambda>s. seID s = acSession a \<and> seStatus s = ''STARTING'') (\<lambda>s. s\<lparr>seStatus := ''RUNNING''\<rparr>) d"
  let ?d2 = "sql_try W 2 (\<lambda>d. d\<lparr>bridges := update_where
    (\<lambda>b. brID b = acBridge a \<and> brWorkspace b = acWorkspace a \<and> brState b = ''STARTING'')
    (\<lambda>b. b\<lparr>brState := ''RUNNING''\<rparr>) (bridges d)\<rparr>) ?d1"
  have run: "decided a ?d1" by (rule decided_update) simp_all
  consider "d' = ?d1" | ids qs where "dispatch_all W F 0 a ids ?d2 = (qs, d')" | "d' = activation_failed W 1 a d"
    using assms by (auto simp: activate_tick_def Let_def split: fetched_row.splits if_splits prod.splits)
  then show ?thesis
  proof cases
    case 2
    then have "sessions d' = sessions ?d2" using dispatch_all_sessions [of W F 0 a ids ?d2] by simp
    then have "sessions d' = sessions ?d1" by (simp add: sql_try_def)
    with run decided_sessions show ?thesis by blast
  qed (use run failed_decided assms(2) in auto)
qed

text \<open>C11: the wait for a host ends: when every pass takes at least the half second it sleeps, the
  goroutine makes at most 180 of them, whatever happens to the tables meanwhile and whatever
  statements fail; and unless a statement fails, its session is then no longer starting.\<close>

theorem host_wait_ends:
  assumes "begun \<le> psClock (E 0)" and "\<forall>i. psClock (E i) + 500000000 \<le> psClock (E (Suc i))" and "180 < n"
  shows "\<exists>ps d'. activateRoomAfterHost n E begun a d = Some (ps, d') \<and>
    ((\<forall>i k. \<not> wfail (psWorld (E i)) k) \<longrightarrow>
      (\<forall>s \<in> set (sessions d'). seID s = acSession a \<longrightarrow> seStatus s \<noteq> ''STARTING''))"
proof -
  let ?fine = "\<forall>i k. \<not> wfail (psWorld (E i)) k"
  have clock: "begun + int i * 500000000 \<le> psClock (E i)" for i
  proof (induction i)
    case 0
    with assms(1) show ?case by simp
  next
    case (Suc i)
    with assms(2) [rule_format, of i] show ?case by (simp add: algebra_simps)
  qed
  have "\<exists>ps d'. activate_loop m E (begun + wait_limit) i a d = Some (ps, d') \<and> (?fine \<longrightarrow> decided a d')"
    if "i \<le> 180" "180 < i + m" for m i d
    using that
  proof (induction m arbitrary: i d)
    case 0
    then show ?case by simp
  next
    case (Suc m)
    obtain w ps d1 where t: "activate_tick (psWorld (E i)) (psFleet (E i)) a d = (w, ps, d1)" by (metis prod_cases3)
    show ?case
    proof (cases "psClock (E i) < begun + wait_limit")
      case False
      then show ?thesis using failed_decided [of "psWorld (E i)" 0 a d] by (simp add: activate_timeout_def)
    next
      case True
      show ?thesis
      proof (cases w)
        case Finished
        with t True tick_decided [of "psWorld (E i)" "psFleet (E i)" a d ps d1] show ?thesis by simp
      next
        case Waiting
        have "int i * 500000000 < 180 * 500000000" using clock [of i] True by (simp add: wait_limit_def)
        then have "Suc i \<le> 180" by simp
        from Suc.IH [OF this, of "psOthers (E i) d1"] Suc.prems(2) show ?thesis using True t Waiting by simp
      qed
    qed
  qed
  from this [of 0 n d] assms(3) show ?thesis by (simp add: activateRoomAfterHost_def decided_def)
qed

definition calm :: "nat \<Rightarrow> wait_pass" where
  "calm i = \<lparr>psClock = int i * 500000000, psWorld = fine, psFleet = sample_fleet, psOthers = id\<rparr>"

theorem host_wait_ends_witness:
  "\<exists>ps d'. activateRoomAfterHost 181 calm 0 sample_activation sample_started = Some (ps, d') \<and>
     filter (\<lambda>s. seID s = ''id4'' \<and> seStatus s = ''STARTING'') (sessions d') = [] \<and>
     map seStatus (sessions sample_started) = [''STARTING'']"
proof -
  have "\<forall>i k. \<not> wfail (psWorld (calm i)) k" using fine_fine by (simp add: calm_def all_fine_def)
  with host_wait_ends [of 0 calm 181 sample_activation sample_started]
  have "\<exists>ps d'. activateRoomAfterHost 181 calm 0 sample_activation sample_started = Some (ps, d') \<and>
      (\<forall>s \<in> set (sessions d'). seID s = acSession sample_activation \<longrightarrow> seStatus s \<noteq> ''STARTING'')"
    by (simp add: calm_def)
  then obtain ps d' where w: "activateRoomAfterHost 181 calm 0 sample_activation sample_started = Some (ps, d')"
    "\<forall>s \<in> set (sessions d'). seID s = ''id4'' \<longrightarrow> seStatus s \<noteq> ''STARTING''" by (auto simp: sample_activation_def)
  have "map seStatus (sessions sample_started) = [''STARTING'']" by code_simp
  with w show ?thesis by (intro exI [of _ ps] exI [of _ d']) (auto simp: filter_empty_conv)
qed

end
