(* ===== verification/Equivalences.thy ===== *)
theory Equivalences
  imports ControlNodes
begin

text \<open>
  Routines against reference definitions: the placement of a call against a stable sort of the usable
  nodes, and the three parsers of target lists against each other.
\<close>

section \<open>Placement\<close>

definition least_loaded :: "node list \<Rightarrow> node option" where
  "least_loaded ns = (case sort_key LoadScore ns of [] \<Rightarrow> None | n # _ \<Rightarrow> Some n)"

definition better :: "node option \<Rightarrow> node option \<Rightarrow> node option" where
  "better best m =
     (case best of None \<Rightarrow> m
      | Some b \<Rightarrow> (case m of None \<Rightarrow> Some b | Some n \<Rightarrow> if LoadScore n < LoadScore b then Some n else Some b))"

lemma least_loaded_Cons: "least_loaded (n # ns) = better (Some n) (least_loaded ns)"
proof (cases "sort_key LoadScore ns")
  case Nil
  then have "ns = []" by (metis length_0_conv length_sort)
  then show ?thesis by (simp add: least_loaded_def better_def)
next
  case (Cons m ms)
  then show ?thesis by (auto simp: least_loaded_def better_def)
qed

lemma better_assoc: "better (better a b) c = better a (better b c)"
  by (auto simp: better_def split: option.splits)

lemma chooseNode_loop_least:
  "chooseNode_loop r best ns = better best (least_loaded (filter (can_host r) ns))"
proof (induction ns arbitrary: best)
  case Nil
  then show ?case by (simp add: better_def least_loaded_def split: option.split)
next
  case (Cons n ns)
  have "chooseNode_loop r best (n # ns) = (if can_host r n then chooseNode_loop r (better best (Some n)) ns else chooseNode_loop r best ns)"
    by (auto simp: chooseNode_loop_step better_def split: option.splits)
  then show ?case by (simp add: Cons least_loaded_Cons better_assoc)
qed

text \<open>C40: placing a call is the same as sorting the usable nodes by load, stably, and taking the first:
  of equally loaded nodes the one listed first gets the call, and the placement is refused exactly when
  no node is usable.\<close>

theorem placement_by_sorting:
  "chooseNode ns callRole =
     (case sort_key LoadScore (filter (can_host callRole) ns) of
        [] \<Rightarrow> Inl ''no available PBX sidecar'' | n # _ \<Rightarrow> Inr n)"
  by (simp add: chooseNode_def chooseNode_loop_least better_def least_loaded_def split: list.split)

section \<open>Target lists\<close>

lemma uniq_map_uniq: "f ` A \<subseteq> S \<Longrightarrow> uniq S (map f (uniq A xs)) = uniq S (map f xs)"
proof (induction xs arbitrary: A S)
  case Nil
  then show ?case by simp
next
  case (Cons x xs)
  have "uniq S (map f (uniq (insert x A) xs)) = uniq S (map f xs)" if "f x \<in> S"
    using Cons that by (intro Cons.IH) simp
  moreover have "uniq (insert (f x) S) (map f (uniq (insert x A) xs)) = uniq (insert (f x) S) (map f xs)"
    using Cons.prems by (intro Cons.IH) auto
  ultimately show ?case using Cons by auto
qed

text \<open>The three parsers of comma-separated targets agree on every value: the sidecar's and the standalone
  utility's are equal, and the control API's, which normalises every entry before it looks for
  duplicates, is the others' result with its entries normalised and the new duplicates left out.\<close>

theorem target_parsers_agree:
  "heartbeat_targets value = splitTargets value \<and>
   httpTargets value = uniq {} (map httpBase (splitTargets value))"
proof
  show "heartbeat_targets value = splitTargets value"
    by (simp add: heartbeat_targets_def splitTargets_def heartbeat_targets_loop_eq splitTargets_loop_eq)
  show "httpTargets value = uniq {} (map httpBase (splitTargets value))"
    by (simp add: httpTargets_def splitTargets_def httpTargets_loop_eq splitTargets_loop_eq uniq_map_uniq)
qed

end
