(* ===== verification/Heartbeat.thy ===== *)
theory Heartbeat
  imports Sidecar GoFormat RedisStore
begin

text \<open>
  How a PBX core tells the SIP edges that it lives: the configuration, heartbeat loop and shutdown
  of the sidecar (components/phonarch-pbx-sidecar, cmd/pbx-sidecar/main.go: \<open>loadConfig\<close>,
  \<open>sendOptions\<close>, \<open>heartbeat\<close>, \<open>deregister\<close>, the client of the local engine and the routes), and the
  standalone heartbeat utility (components/phonarch-rustpbx/heartbeat/main.go). A heartbeat is one
  UDP datagram with the text of a SIP OPTIONS request; what the process sends is the list of its
  datagrams.
\<close>

section \<open>The text of a SIP request without a body\<close>

definition crlf :: string where
  "crlf = [CHR 0x0D, CHR 0x0A]"

definition header_line :: "string \<times> string \<Rightarrow> string" where
  "header_line = (\<lambda>(name, v). name @ '': '' @ v @ crlf)"

definition sip_text :: "string \<Rightarrow> (string \<times> string) list \<Rightarrow> string" where
  "sip_text start hs = start @ crlf @ concat (map header_line hs) @ crlf"

section \<open>Configuration of the sidecar\<close>

record config =
  cfNodeID :: string
  cfPrivateIP :: string
  cfMediaPublicIP :: string
  cfRedisAddr :: string
  cfSIPUDPPort :: int
  cfSIPTCPPort :: int
  cfControlURL :: string
  cfSIPGoTargets :: "string list"
  cfEventURL :: string
  cfRustPBXURL :: string
  cfListen :: string
  cfCapacity :: int
  cfRole :: string
  cfDrainState :: string
  cfHeartbeatEvery :: int

text \<open>\<open>getenvDuration\<close>: the text of the fallback parses back to it, so it is not printed here. A
  duration that parses is taken as it is, also when it is not positive.\<close>

definition getenvDuration :: "(string \<Rightarrow> string) \<Rightarrow> string \<Rightarrow> int \<Rightarrow> int" where
  "getenvDuration environ k fallback =
     (if environ k = '''' then fallback
      else case ParseDuration (environ k) of None \<Rightarrow> fallback | Some d \<Rightarrow> d)"

definition derived_node_id :: "string \<Rightarrow> string" where
  "derived_node_id ip = ''core-'' @ replace_chars [(CHR ''.'', CHR ''-''), (CHR '':'', CHR ''-'')] ip"

definition loadConfig :: "(string \<Rightarrow> string) \<Rightarrow> config" where
  "loadConfig environ =
     (let privateIP = getenv environ ''PRIVATE_IP'' ''127.0.0.1'';
          nid = getenv environ ''NODE_ID'' '''';
          nid = (if nid = '''' then derived_node_id privateIP else nid);
          targets = splitTargets (getenv environ ''SIDECAR_HEARTBEAT_TARGETS''
                      (getenv environ ''SIDECAR_HEARTBEAT_TARGET'' ''''))
      in \<lparr>cfNodeID = nid, cfPrivateIP = privateIP,
          cfMediaPublicIP = getenv environ ''MEDIA_PUBLIC_IP'' '''',
          cfRedisAddr = getenv environ ''REDIS_ADDR'' ''127.0.0.1:6379'',
          cfSIPUDPPort = getenvInt environ ''SIP_UDP_PORT'' 5060,
          cfSIPTCPPort = getenvInt environ ''SIP_TCP_PORT'' 5060,
          cfControlURL = getenv environ ''SIDECAR_CONTROL_URL'' ''http://127.0.0.1:9443'',
          cfSIPGoTargets = targets,
          cfEventURL = getenv environ ''SIDECAR_EVENT_URL'' ''http://127.0.0.1:8081/internal/v1/events'',
          cfRustPBXURL = getenv environ ''RUSTPBX_CONTROL_URL'' ''http://127.0.0.1:9090'',
          cfListen = getenv environ ''SIDECAR_LISTEN'' ''127.0.0.1:9443'',
          cfCapacity = getenvInt environ ''NODE_CAPACITY'' 500,
          cfRole = getenv environ ''NODE_ROLE'' ''listener'',
          cfDrainState = getenv environ ''NODE_DRAIN_STATE'' ''READY'',
          cfHeartbeatEvery = getenvDuration environ ''SIDECAR_HEARTBEAT_INTERVAL'' 2000000000\<rparr>)"

section \<open>The heartbeat of the sidecar\<close>

definition options_start :: "string \<Rightarrow> string" where
  "options_start target = ''OPTIONS sip:phonarch-sipgo@'' @ target @ '' SIP/2.0''"

text \<open>The headers that carry the node, in the order of the format string.\<close>

definition node_headers :: "(string \<Rightarrow> string) \<Rightarrow> config \<Rightarrow> sidecar \<Rightarrow> (string \<times> string) list" where
  "node_headers environ cfg s =
     (let (calls, bridges, score) = load environ s in
      [(''X-PhonArch-Node-ID'', cfNodeID cfg),
       (''X-PhonArch-Private-IP'', cfPrivateIP cfg),
       (''X-PhonArch-Media-Public-IP'', cfMediaPublicIP cfg),
       (''X-PhonArch-Control-URL'', cfControlURL cfg),
       (''X-PhonArch-SIP-UDP-Port'', Itoa (cfSIPUDPPort cfg)),
       (''X-PhonArch-SIP-TCP-Port'', Itoa (cfSIPTCPPort cfg)),
       (''X-PhonArch-Role'', cfRole cfg),
       (''X-PhonArch-Drain-State'', cfDrainState cfg),
       (''X-PhonArch-Capacity'', Itoa (cfCapacity cfg)),
       (''X-PhonArch-Active-Calls'', Itoa calls),
       (''X-PhonArch-Active-RTP-Sessions'', Itoa calls),
       (''X-PhonArch-RTP-Packets-Per-Second'', Itoa (calls * 50)),
       (''X-PhonArch-Active-Speakers'', Itoa 0),
       (''X-PhonArch-Active-Bridges'', Itoa bridges),
       (''X-PhonArch-Load-Score'', FormatF6 score),
       (''X-PhonArch-Node-Epoch'', Itoa (sEpoch s)),
       (''Content-Length'', ''0'')])"

definition options_headers :: "(string \<Rightarrow> string) \<Rightarrow> config \<Rightarrow> sidecar \<Rightarrow> int \<Rightarrow> (string \<times> string) list" where
  "options_headers environ cfg s sq =
     [(''Via'', ''SIP/2.0/UDP '' @ cfPrivateIP cfg @ '':'' @ Itoa (cfSIPUDPPort cfg) @ '';branch=z9hG4bK-'' @
         sInstance s @ ''-'' @ Itoa sq),
      (''From'', ''<sip:'' @ cfNodeID cfg @ ''@phonarch>;tag='' @ sInstance s),
      (''To'', ''<sip:phonarch-sipgo@phonarch>''),
      (''Call-ID'', ''phonarch-heartbeat-'' @ cfNodeID cfg),
      (''CSeq'', Itoa sq @ '' OPTIONS''),
      (''Max-Forwards'', ''1'')] @ node_headers environ cfg s"

type_synonym datagram = "string \<times> string"

text \<open>\<open>sendOptions\<close>: \<open>up\<close> says of a target whether its address resolves and a socket can be opened.\<close>

definition sendOptions ::
  "(string \<Rightarrow> string) \<Rightarrow> (string \<Rightarrow> bool) \<Rightarrow> config \<Rightarrow> sidecar \<Rightarrow> string \<Rightarrow> int \<Rightarrow> datagram list" where
  "sendOptions environ up cfg s target sq =
     (if up target then [(target, sip_text (options_start target) (options_headers environ cfg s sq))] else [])"

text \<open>\<open>deregister\<close>: \<open>None\<close> is a sidecar without a Redis client.\<close>

definition deregister :: "('r, 'v) redis_client option \<Rightarrow> bool \<Rightarrow> config \<Rightarrow> 'r \<Rightarrow> 'r" where
  "deregister client ok cfg r =
     (case client of
        None \<Rightarrow> r
      | Some R \<Rightarrow> if ok then rdel R r (''active-pbx:'' @ cfNodeID cfg) else r)"

text \<open>The loop of \<open>heartbeat\<close> as a run over its events: a timer tick with the outcome of the
  discovery and the state of the sidecar when the datagram for the i-th target is formatted, or
  the end of the process. \<open>wok\<close> says whether Redis executes the deletion.\<close>

datatype heartbeat_event =
    Tick "(bool \<times> (string \<times> int) option list) option" "nat \<Rightarrow> sidecar"
  | Shutdown bool

fun heartbeat ::
  "(string \<Rightarrow> string) \<Rightarrow> (string \<Rightarrow> bool) \<Rightarrow> ('r, 'v) redis_client option \<Rightarrow> config \<Rightarrow> int \<Rightarrow>
     heartbeat_event list \<Rightarrow> 'r \<Rightarrow> datagram list \<times> 'r" where
  "heartbeat environ up client cfg sq [] r = ([], r)"
| "heartbeat environ up client cfg sq (Shutdown wok # es) r = ([], deregister client wok cfg r)"
| "heartbeat environ up client cfg sq (Tick scan st # es) r =
     (let ds = concat (map (\<lambda>(i, target). sendOptions environ up cfg (st i) target sq)
                (enumerate 0 (discoverSIPGoTargets (cfSIPGoTargets cfg) scan)));
          (ds', r') = heartbeat environ up client cfg (sq + 1) es r
      in (ds @ ds', r'))"

section \<open>The client of the local engine\<close>

text \<open>What becomes of an HTTP request: it cannot be built, not be delivered, or is answered with a
  status and a body that decodes or does not.\<close>

datatype 'a http_outcome =
    BadRequest string
  | NoAnswer string
  | Answered nat string "string + 'a"

definition pbx_url :: "config \<Rightarrow> string \<Rightarrow> string" where
  "pbx_url cfg path = TrimRight (cfRustPBXURL cfg) ''/'' @ path"

text \<open>\<open>post\<close> with a response to fill, and \<open>get\<close>, treat the outcome alike.\<close>

fun pbx_result :: "'a http_outcome \<Rightarrow> string + 'a" where
  "pbx_result (BadRequest e) = Inl e"
| "pbx_result (NoAnswer e) = Inl e"
| "pbx_result (Answered status text body) =
     (if status \<ge> 300 then Inl (''rustpbx returned '' @ text) else body)"

text \<open>The headers of a reported event.\<close>

definition event_headers :: "(string \<Rightarrow> string) \<Rightarrow> (string \<times> string) list" where
  "event_headers environ =
     (''Content-Type'', ''application/json'') #
     (if environ ''PHONARCH_INTERNAL_TOKEN'' \<noteq> ''''
      then [(''X-PhonArch-Internal-Token'', environ ''PHONARCH_INTERNAL_TOKEN'')] else [])"

section \<open>The routes of the sidecar\<close>

datatype sidecar_op = Healthz | Readyz | OriginateOp | ParticipantOp | RoomOp | CallOp

definition sidecar_route :: "string \<Rightarrow> sidecar_op option" where
  "sidecar_route path =
     (if path = ''/healthz'' then Some Healthz
      else if path = ''/readyz'' then Some Readyz
      else if path = ''/v1/calls/originate'' then Some OriginateOp
      else if HasPrefix path ''/v1/participants/'' then Some ParticipantOp
      else if HasPrefix path ''/v1/rooms/'' then Some RoomOp
      else if HasPrefix path ''/v1/calls/'' then Some CallOp
      else None)"

definition sidecar_health :: "config \<Rightarrow> sidecar \<Rightarrow> response" where
  "sidecar_health cfg s =
     answer 200 [(''node_id'', JStr (cfNodeID cfg)), (''epoch'', JInt (sEpoch s)), (''instance'', JStr (sInstance s))]"

section \<open>The standalone heartbeat\<close>

record tool_config =
  tcNodeID :: string
  tcPrivateIP :: string
  tcMediaIP :: string
  tcControlURL :: string
  tcSIPPort :: string
  tcTCPPort :: string
  tcRole :: string
  tcDrain :: string
  tcCapacity :: int
  tcTargets :: "string list"
  tcInterval :: int
  tcInstance :: string

definition load_tool :: "(string \<Rightarrow> string) \<Rightarrow> int \<Rightarrow> tool_config" where
  "load_tool environ start =
     (let privateIP = getenv environ ''PRIVATE_IP'' ''127.0.0.1'';
          nid = getenv environ ''NODE_ID'' '''';
          interval = (case ParseDuration (getenv environ ''HEARTBEAT_INTERVAL'' ''2s'') of None \<Rightarrow> 0 | Some d \<Rightarrow> d);
          capacity = atoi_value (getenv environ ''NODE_CAPACITY'' ''500'');
          port = getenv environ ''SIP_UDP_PORT'' ''5060''
      in \<lparr>tcNodeID = (if nid = '''' then derived_node_id privateIP else nid), tcPrivateIP = privateIP,
          tcMediaIP = getenv environ ''MEDIA_PUBLIC_IP'' '''', tcControlURL = getenv environ ''SIDECAR_CONTROL_URL'' '''',
          tcSIPPort = port, tcTCPPort = getenv environ ''SIP_TCP_PORT'' port,
          tcRole = getenv environ ''NODE_ROLE'' ''listener'', tcDrain = getenv environ ''NODE_DRAIN_STATE'' ''READY'',
          tcCapacity = (if capacity \<le> 0 then 500 else capacity),
          tcTargets = heartbeat_targets (getenv environ ''SIPGO_HEARTBEAT_TARGETS''
                        (getenv environ ''SIPGO_HEARTBEAT_TARGET'' '''')),
          tcInterval = (if interval \<le> 0 then 2000000000 else interval), tcInstance = Itoa start\<rparr>)"

text \<open>The node epoch of a message is the time at which it is formatted.\<close>

definition tool_headers :: "tool_config \<Rightarrow> int \<Rightarrow> int \<Rightarrow> (string \<times> string) list" where
  "tool_headers c sq now =
     [(''Via'', ''SIP/2.0/UDP '' @ tcPrivateIP c @ '':'' @ tcSIPPort c),
      (''From'', ''<sip:'' @ tcNodeID c @ ''@phonarch>;tag='' @ tcInstance c),
      (''To'', ''<sip:phonarch-sipgo@phonarch>''),
      (''Call-ID'', ''heartbeat-'' @ tcNodeID c @ ''-'' @ Itoa sq),
      (''CSeq'', Itoa sq @ '' OPTIONS''),
      (''Max-Forwards'', ''1''),
      (''X-PhonArch-Node-ID'', tcNodeID c),
      (''X-PhonArch-Private-IP'', tcPrivateIP c),
      (''X-PhonArch-Media-Public-IP'', tcMediaIP c),
      (''X-PhonArch-Control-URL'', tcControlURL c),
      (''X-PhonArch-SIP-UDP-Port'', tcSIPPort c),
      (''X-PhonArch-SIP-TCP-Port'', tcTCPPort c),
      (''X-PhonArch-Role'', tcRole c),
      (''X-PhonArch-Drain-State'', tcDrain c),
      (''X-PhonArch-Capacity'', Itoa (tcCapacity c)),
      (''X-PhonArch-Active-Calls'', ''0''),
      (''X-PhonArch-Active-Bridges'', ''0''),
      (''X-PhonArch-Load-Score'', ''0''),
      (''X-PhonArch-Node-Epoch'', Itoa now),
      (''Content-Length'', ''0'')]"

text \<open>One round: a datagram for every target that can be reached; \<open>clock i\<close> is the time at which
  the one for the i-th target is formatted. The rounds number their messages from 1.\<close>

definition tool_round :: "(string \<Rightarrow> bool) \<Rightarrow> tool_config \<Rightarrow> int \<Rightarrow> (nat \<Rightarrow> int) \<Rightarrow> datagram list" where
  "tool_round up c sq clock =
     concat (map (\<lambda>(i, target). if up target then [(target, sip_text (options_start target) (tool_headers c sq (clock i)))] else [])
       (enumerate 0 (tcTargets c)))"

fun tool_loop :: "(string \<Rightarrow> bool) \<Rightarrow> tool_config \<Rightarrow> int \<Rightarrow> (nat \<Rightarrow> int) list \<Rightarrow> datagram list" where
  "tool_loop up c sq [] = []"
| "tool_loop up c sq (clock # rest) = tool_round up c sq clock @ tool_loop up c (sq + 1) rest"

end
