(* ===== verification/LabEngine.thy ===== *)
theory LabEngine
  imports Heartbeat EdgeDtmf
begin

text \<open>
  The double of the media engine that the lab runs beside each sidecar
  (components/phonarch-rustpbx-lab, main.go): its table of calls with the goroutines that advance
  them, its HTTP handlers, and its SIP server, a function from the datagram it receives to those it
  answers with.
\<close>

section \<open>Calls\<close>

record lab_call =
  lcCallID :: string
  lcMember :: string
  lcState :: string
  lcMuted :: bool
  lcVolume :: rat

definition zero_call :: lab_call where
  "zero_call = \<lparr>lcCallID = '''', lcMember = '''', lcState = '''', lcMuted = False, lcVolume = 0\<rparr>"

text \<open>The calls, the counter of members, and the goroutines that still have states to set: the call
  id and the states, oldest goroutine first.\<close>

record lab =
  labCalls :: "string \<rightharpoonup> lab_call"
  labSeq :: int
  labTimers :: "(string \<times> string list) list"

definition lab_start :: lab where
  "lab_start = \<lparr>labCalls = Map.empty, labSeq = 0, labTimers = []\<rparr>"

text \<open>\<open>update\<close>: a call that is not in the table is created from the zero value.\<close>

definition lab_update :: "string \<Rightarrow> (lab_call \<Rightarrow> lab_call) \<Rightarrow> lab \<Rightarrow> lab" where
  "lab_update k f s =
     s\<lparr>labCalls := (labCalls s)(k \<mapsto> f (case labCalls s k of None \<Rightarrow> zero_call | Some c \<Rightarrow> c))\<rparr>"

record lab_originate_in =
  loCallID :: string
  loDesiredMute :: bool

definition member_id :: "int \<Rightarrow> string" where
  "member_id n = ''mock-member-'' @ Itoa n"

definition lab_originate :: "lab_originate_in option \<Rightarrow> lab \<Rightarrow> response \<times> lab" where
  "lab_originate input s =
     (case input of
        None \<Rightarrow> (\<lparr>code = 400, doc = Some (JStr ''call_id required'')\<rparr>, s)
      | Some i \<Rightarrow>
          if loCallID i = '''' then (\<lparr>code = 400, doc = Some (JStr ''call_id required'')\<rparr>, s)
          else (let n = labSeq s + 1 in
            (answer 200 [(''pbx_member_id'', JStr (member_id n))],
             s\<lparr>labSeq := n,
               labCalls := (labCalls s)(loCallID i \<mapsto>
                 \<lparr>lcCallID = loCallID i, lcMember = member_id n, lcState = ''DISPATCHED'',
                  lcMuted = loDesiredMute i, lcVolume = - 18\<rparr>),
               labTimers := labTimers s @ [(loCallID i, [''RINGING'', ''ANSWERED'', ''IN_BRIDGE''])]\<rparr>)))"

text \<open>One goroutine wakes up and sets its next state.\<close>

definition lab_advance :: "nat \<Rightarrow> lab \<Rightarrow> lab" where
  "lab_advance k s =
     (if k < length (labTimers s) then
        (case labTimers s ! k of
           (callID, st # sts) \<Rightarrow>
             lab_update callID (\<lambda>c. c\<lparr>lcState := st\<rparr>) (s\<lparr>labTimers := (labTimers s)[k := (callID, sts)]\<rparr>)
         | _ \<Rightarrow> s)
      else s)"

definition lab_call_json :: "lab_call \<Rightarrow> (string \<times> json) list" where
  "lab_call_json c =
     [(''call_id'', JStr (lcCallID c)), (''pbx_member_id'', JStr (lcMember c)), (''state'', JStr (lcState c)),
      (''muted'', JBool (lcMuted c)), (''volume_db'', JNum (lcVolume c))]"

definition lab_get :: "string \<Rightarrow> lab \<Rightarrow> response" where
  "lab_get path s =
     (case labCalls s (TrimPrefix path ''/v1/calls/'') of
        None \<Rightarrow> \<lparr>code = 404, doc = Some (JStr ''not found'')\<rparr>
      | Some c \<Rightarrow> answer 200 (lab_call_json c))"

text \<open>The call id is what the decoder has put into the field; its error is ignored.\<close>

definition lab_participants :: "string \<Rightarrow> string \<Rightarrow> lab \<Rightarrow> response \<times> lab" where
  "lab_participants path callID s =
     (if HasSuffix path ''/mute'' then
        (answer 200 [(''status'', JStr ''ok''), (''muted'', JBool True)], lab_update callID (\<lambda>c. c\<lparr>lcMuted := True\<rparr>) s)
      else if HasSuffix path ''/unmute'' then
        (answer 200 [(''status'', JStr ''ok''), (''muted'', JBool False)], lab_update callID (\<lambda>c. c\<lparr>lcMuted := False\<rparr>) s)
      else if HasSuffix path ''/drop'' then
        (answer 200 [(''status'', JStr ''ok'')], lab_update callID (\<lambda>c. c\<lparr>lcState := ''ENDED''\<rparr>) s)
      else (\<lparr>code = 404, doc = Some (JStr ''unknown action'')\<rparr>, s))"

text \<open>The lab engine as a system: requests and goroutines interleave, each handler runs at once.\<close>

inductive lab_step :: "lab \<Rightarrow> lab \<Rightarrow> bool" where
  originates: "lab_originate i s = (r, s') \<Longrightarrow> lab_step s s'"
| advances: "lab_advance k s = s' \<Longrightarrow> lab_step s s'"
| acts: "lab_participants path callID s = (r, s') \<Longrightarrow> lab_step s s'"

section \<open>The SIP server\<close>

text \<open>\<open>strings.Split\<close> at CR LF.\<close>

fun split_crlf :: "string \<Rightarrow> string list" where
  "split_crlf [] = [[]]"
| "split_crlf (c # cs) =
     (if c = CHR 0x0D \<and> take 1 cs = [CHR 0x0A] then [] # split_crlf (drop 1 cs)
      else (case split_crlf cs of [] \<Rightarrow> [[c]] | y # ys \<Rightarrow> (c # y) # ys))"

definition after_colon :: "string \<Rightarrow> string" where
  "after_colon line = drop 1 (dropWhile (\<lambda>c. c \<noteq> CHR '':'') line)"

definition sipHeader :: "string \<Rightarrow> string \<Rightarrow> string" where
  "sipHeader message name =
     (case List.find (\<lambda>line. HasPrefix (lower_ascii line) (lower_ascii name @ '':'')) (split_crlf message) of
        None \<Rightarrow> ''''
      | Some line \<Rightarrow> TrimSpace (after_colon line))"

definition tagged :: "nat \<Rightarrow> string \<Rightarrow> string" where
  "tagged status to = (if contains to '';tag='' then to else to @ '';tag=mock-'' @ Itoa (int status))"

definition responseTo :: "nat \<Rightarrow> string \<Rightarrow> string \<Rightarrow> string \<Rightarrow> string \<Rightarrow> string \<Rightarrow> string \<Rightarrow> string" where
  "responseTo status reason via from_hdr to callID cseq =
     sip_text (''SIP/2.0 '' @ Itoa (int status) @ '' '' @ reason)
       [(''Via'', via), (''From'', from_hdr), (''To'', tagged status to), (''Call-ID'', callID), (''CSeq'', cseq),
        (''Content-Length'', ''0'')]"

text \<open>\<open>strings.Fields(line)[0]\<close>, with \<open>[]\<close> for a line without fields, and \<open>strings.ToUpper\<close>, with the
  two code points beyond ASCII whose upper case is ASCII (U+0131, U+017F).\<close>

fun until_space :: "string \<Rightarrow> string" where
  "until_space [] = []"
| "until_space (c # cs) = (if \<exists>p \<in> set go_spaces. HasPrefix (c # cs) p then [] else c # until_space cs)"

definition first_field :: "string \<Rightarrow> string" where
  "first_field s = until_space (strip go_spaces s)"

fun upper_ascii :: "string \<Rightarrow> string" where
  "upper_ascii [] = []"
| "upper_ascii (c # cs) =
     (if c = CHR 0xC4 \<and> take 1 cs = [CHR 0xB1] then CHR ''I'' # upper_ascii (drop 1 cs)
      else if c = CHR 0xC5 \<and> take 1 cs = [CHR 0xBF] then CHR ''S'' # upper_ascii (drop 1 cs)
      else upper_char c # upper_ascii cs)"

text \<open>The answers to a datagram, each with the milliseconds slept before it is sent.\<close>

definition sipServer :: "string \<Rightarrow> (nat \<times> string) list" where
  "sipServer message =
     (let first = hd (split_crlf message) in
      if HasPrefix first ''SIP/2.0'' then []
      else if first_field first = [] then []
      else let meth = upper_ascii (first_field first);
               reply = (\<lambda>status reason. responseTo status reason (sipHeader message ''Via'') (sipHeader message ''From'')
                  (sipHeader message ''To'') (sipHeader message ''Call-ID'') (sipHeader message ''CSeq''))
           in if meth = ''INVITE''
              then [(0, reply 100 ''Trying''), (150, reply 180 ''Ringing''), (250, reply 200 ''OK'')]
              else if meth = ''BYE'' \<or> meth = ''CANCEL'' then [(0, reply 200 ''OK'')]
              else [])"

end
