(* ===== verification/Probe.thy ===== *)
theory Probe
  imports LabEngine
begin

text \<open>
  The SIP probe of the lab (components/phonarch-sip-probe, main.go): it sends an INVITE to the
  edge, reads up to four responses until one is a 200, answers with ACK and BYE in the dialog that
  the response names, and reads the answer to the BYE.
\<close>

definition probe_header :: "string \<Rightarrow> string \<Rightarrow> string" where
  "probe_header message name =
     (case List.find (\<lambda>line. HasPrefix (lower_ascii line) (lower_ascii name @ '':'')) (split_crlf message) of
        None \<Rightarrow> ''''
      | Some line \<Rightarrow> TrimSpace (after_colon line))"

definition probe_via :: string where
  "probe_via = ''SIP/2.0/UDP 127.0.0.1:5099;branch=z9hG4bK-probe''"

definition probe_from :: string where
  "probe_from = ''<sip:probe@lab>;tag=probe-1''"

definition probe_call_id :: "int \<Rightarrow> string" where
  "probe_call_id now = ''probe-'' @ Itoa now @ ''@lab''"

definition probe_invite :: "int \<Rightarrow> string" where
  "probe_invite now = sip_text ''INVITE sip:+15550123@127.0.0.1:5060 SIP/2.0''
     [(''Via'', probe_via), (''From'', probe_from), (''To'', ''<sip:+15550123@provider>''),
      (''Call-ID'', probe_call_id now), (''CSeq'', ''1 INVITE''), (''Max-Forwards'', ''70''),
      (''Contact'', ''<sip:probe@127.0.0.1:5099>''), (''Content-Length'', ''0'')]"

definition probe_in_dialog :: "string \<Rightarrow> string \<Rightarrow> int \<Rightarrow> string \<Rightarrow> string" where
  "probe_in_dialog meth sq now to = sip_text (meth @ '' sip:+15550123@127.0.0.1:5060 SIP/2.0'')
     [(''Via'', probe_via), (''From'', probe_from), (''To'', to), (''Call-ID'', probe_call_id now),
      (''CSeq'', sq @ '' '' @ meth), (''Max-Forwards'', ''70''), (''Content-Length'', ''0'')]"

definition status_line :: "string \<Rightarrow> string" where
  "status_line response = hd (split_crlf response)"

text \<open>What is read is \<open>None\<close> when the read fails (three seconds without a datagram), which panics.\<close>

datatype awaited = Got string | ReadPanic | NoOk

text \<open>The loop over at most \<open>n\<close> reads: the 200 response, the lines printed and the reads left.\<close>

fun await_ok :: "nat \<Rightarrow> string option list \<Rightarrow> awaited \<times> string list \<times> string option list" where
  "await_ok 0 reads = (NoOk, [], reads)"
| "await_ok (Suc n) [] = (ReadPanic, [], [])"
| "await_ok (Suc n) (None # reads) = (ReadPanic, [], reads)"
| "await_ok (Suc n) (Some response # reads) =
     (if HasPrefix response ''SIP/2.0 200'' then (Got response, [''response: '' @ status_line response], reads)
      else (case await_ok n reads of (a, out, rest) \<Rightarrow> (a, (''response: '' @ status_line response) # out, rest)))"

record probe_run =
  prSent :: "string list"
  prPrinted :: "string list"
  prPanic :: bool

definition probe :: "int \<Rightarrow> string option list \<Rightarrow> probe_run" where
  "probe now reads =
     (case await_ok 4 reads of
        (Got ok, out, rest) \<Rightarrow>
          (let to = probe_header ok ''To'';
               sent = [probe_invite now, probe_in_dialog ''ACK'' ''1'' now to, probe_in_dialog ''BYE'' ''2'' now to]
           in case rest of
                Some response # _ \<Rightarrow>
                  \<lparr>prSent = sent, prPrinted = out @ [''bye: '' @ status_line response], prPanic = False\<rparr>
              | _ \<Rightarrow> \<lparr>prSent = sent, prPrinted = out, prPanic = True\<rparr>)
      | (_, out, _) \<Rightarrow> \<lparr>prSent = [probe_invite now], prPrinted = out, prPanic = True\<rparr>)"

end
