(* ===== verification/SipText.thy ===== *)
theory SipText
  imports LabEngine
begin

text \<open>
  Reading back the header fields of a SIP text, and the contract of the SIP library's parser on the
  messages of this system as the locale \<open>sip_parser\<close>. The library is not part of the repository; the
  header reader of the lab double satisfies the contract.
\<close>

section \<open>Lines\<close>

definition no_crlf :: "string \<Rightarrow> bool" where
  "no_crlf s \<longleftrightarrow> CHR 0x0D \<notin> set s \<and> CHR 0x0A \<notin> set s"

definition header_name :: "string \<Rightarrow> bool" where
  "header_name n \<longleftrightarrow> n \<noteq> [] \<and> (\<forall>c \<in> set n. char_code c < 128 \<and> c \<noteq> CHR '':'' \<and> c \<noteq> CHR '' '') \<and> no_crlf n"

definition clean :: "string \<Rightarrow> bool" where
  "clean v \<longleftrightarrow> no_crlf v \<and> TrimSpace v = v"

text \<open>A start line has a space before its first colon.\<close>

definition start_line :: "string \<Rightarrow> bool" where
  "start_line s \<longleftrightarrow> no_crlf s \<and> (\<exists>a b. s = a @ b \<and> CHR '' '' \<in> set a \<and>
     (\<forall>c \<in> set a. char_code c < 128 \<and> c \<noteq> CHR '':'') \<and> (b = [] \<or> hd b = CHR '':''))"

definition lookup_header :: "(string \<times> string) list \<Rightarrow> string \<Rightarrow> string" where
  "lookup_header hs n =
     (case List.find (\<lambda>(m, v). map lower_char m = map lower_char n) hs of None \<Rightarrow> '''' | Some (m, v) \<Rightarrow> v)"

lemma no_crlf_append [simp]: "no_crlf (a @ b) \<longleftrightarrow> no_crlf a \<and> no_crlf b"
  by (auto simp: no_crlf_def)

lemma no_crlf_Nil [simp]: "no_crlf []"
  by (simp add: no_crlf_def)

lemma no_crlf_Cons [simp]: "no_crlf (c # s) \<longleftrightarrow> c \<noteq> CHR 0x0D \<and> c \<noteq> CHR 0x0A \<and> no_crlf s"
  by (auto simp: no_crlf_def)

lemma split_crlf_line: "no_crlf a \<Longrightarrow> split_crlf (a @ crlf @ b) = a # split_crlf b"
  by (induction a) (simp_all add: crlf_def)

lemma split_crlf_headers:
  "\<forall>(n, v) \<in> set hs. no_crlf n \<and> no_crlf v \<Longrightarrow>
     split_crlf (concat (map header_line hs) @ b) = map (\<lambda>(n, v). n @ '': '' @ v) hs @ split_crlf b"
proof (induction hs)
  case Nil
  then show ?case by simp
next
  case (Cons h hs)
  obtain n v where h: "h = (n, v)" by (cases h)
  have "no_crlf (n @ '': '' @ v)" using Cons.prems h by simp
  from split_crlf_line [OF this, of "concat (map header_line hs) @ b"] Cons
  show ?case by (simp add: h header_line_def)
qed

lemma split_sip_text:
  assumes "no_crlf start" and "\<forall>(n, v) \<in> set hs. no_crlf n \<and> no_crlf v"
  shows "split_crlf (sip_text start hs) = start # map (\<lambda>(n, v). n @ '': '' @ v) hs @ [[], []]"
proof -
  have "split_crlf crlf = [[], []]" by (simp add: crlf_def)
  then show ?thesis
    using assms by (simp add: sip_text_def split_crlf_line split_crlf_headers)
qed

section \<open>Letter case\<close>

lemma lower_ascii_append: "\<forall>c \<in> set a. char_code c < 128 \<Longrightarrow> lower_ascii (a @ b) = map lower_char a @ lower_ascii b"
proof (induction a)
  case Nil
  then show ?case by simp
next
  case (Cons c a)
  then have "c \<noteq> CHR 0xC4" "c \<noteq> CHR 0xE2" by (auto simp: char_code_def)
  with Cons show ?case by simp
qed

lemma lower_char_colon: "lower_char c = CHR '':'' \<longleftrightarrow> c = CHR '':''"
proof (cases "65 \<le> char_code c \<and> char_code c \<le> 90")
  case True
  then have "char_code (lower_char c) = char_code c + 32" by (simp add: lower_char_def char_code_of)
  moreover have "char_code CHR '':'' = 58" by (simp add: char_code_def)
  ultimately have "lower_char c \<noteq> CHR '':''" "c \<noteq> CHR '':''" using True by auto
  then show ?thesis by simp
next
  case False
  then have "lower_char c = c" by (simp only: lower_char_def if_False)
  then show ?thesis by simp
qed

lemma lower_char_space: "lower_char CHR '' '' = CHR '' ''" "lower_char c = CHR '' '' \<Longrightarrow> c = CHR '' ''"
proof -
  show "lower_char CHR '' '' = CHR '' ''" by (simp add: lower_char_def char_code_def)
  assume a: "lower_char c = CHR '' ''"
  show "c = CHR '' ''"
  proof (cases "65 \<le> char_code c \<and> char_code c \<le> 90")
    case True
    then have "char_code (lower_char c) = char_code c + 32" by (simp add: lower_char_def char_code_of)
    moreover have "char_code CHR '' '' = 32" by (simp add: char_code_def)
    ultimately show ?thesis using True a by auto
  next
    case False
    then have "lower_char c = c" by (simp only: lower_char_def if_False)
    with a show ?thesis by simp
  qed
qed

text \<open>The test of the header readers, on a line whose text before the first colon is ASCII.\<close>

lemma prefix_key:
  assumes "x \<notin> set a" and "x \<notin> set m"
  shows "HasPrefix (a @ x # b) (m @ [x]) \<longleftrightarrow> a = m"
proof
  assume "HasPrefix (a @ x # b) (m @ [x])"
  then obtain t where "a @ x # b = m @ x # t" by (auto simp: HasPrefix_iff)
  then have "takeWhile (\<lambda>c. c \<noteq> x) (a @ x # b) = takeWhile (\<lambda>c. c \<noteq> x) (m @ x # t)" by simp
  moreover have "takeWhile (\<lambda>c. c \<noteq> x) (u @ x # v) = u" if "x \<notin> set u" for u v
    using that by (subst takeWhile_append2) auto
  ultimately show "a = m" using assms by simp
qed (simp add: HasPrefix_iff)

lemma lower_plain:
  assumes "\<forall>c \<in> set a. char_code c < 128 \<and> c \<noteq> CHR '':''"
  shows "CHR '':'' \<notin> set (map lower_char a)" and "lower_ascii a = map lower_char a"
    and "lower_ascii (a @ CHR '':'' # b) = map lower_char a @ CHR '':'' # lower_ascii b"
proof -
  show "CHR '':'' \<notin> set (map lower_char a)" using assms lower_char_colon by (metis (no_types, lifting) imageE list.set_map)
  show "lower_ascii a = map lower_char a" using lower_ascii_append [of a "[]"] assms by simp
  have "lower_ascii (CHR '':'' # b) = CHR '':'' # lower_ascii b" by (simp add: lower_char_colon)
  then show "lower_ascii (a @ CHR '':'' # b) = map lower_char a @ CHR '':'' # lower_ascii b"
    using lower_ascii_append [of a "CHR '':'' # b"] assms by simp
qed

lemma header_nameD: "header_name n \<Longrightarrow> \<forall>c \<in> set n. char_code c < 128 \<and> c \<noteq> CHR '':''"
  by (simp add: header_name_def)

lemma line_matches:
  assumes "header_name m" and "header_name n"
  shows "HasPrefix (lower_ascii (m @ '': '' @ v)) (lower_ascii n @ '':'') \<longleftrightarrow> map lower_char m = map lower_char n"
proof -
  have "m @ '': '' @ v = m @ CHR '':'' # (CHR '' '' # v)" by simp
  then show ?thesis
    using prefix_key [OF lower_plain(1) [OF header_nameD [OF assms(1)]] lower_plain(1) [OF header_nameD [OF assms(2)]]]
      lower_plain(3) [OF header_nameD [OF assms(1)], of "CHR '' '' # v"] lower_plain(2) [OF header_nameD [OF assms(2)]]
    by metis
qed

lemma start_line_no_match:
  assumes "start_line s" and "header_name n"
  shows "\<not> HasPrefix (lower_ascii s) (lower_ascii n @ '':'')"
proof
  assume h: "HasPrefix (lower_ascii s) (lower_ascii n @ '':'')"
  obtain a b where s: "s = a @ b" "CHR '' '' \<in> set a" "\<forall>c \<in> set a. char_code c < 128 \<and> c \<noteq> CHR '':''"
    "b = [] \<or> hd b = CHR '':''" using assms(1) by (auto simp: start_line_def)
  note n = lower_plain [OF header_nameD [OF assms(2)]]
  have sp: "CHR '' '' \<notin> set (map lower_char n)"
    using assms(2) lower_char_space(2) by (fastforce simp: header_name_def)
  have spa: "CHR '' '' \<in> set (map lower_char a)" using s(2) lower_char_space(1) by force
  show False
  proof (cases b)
    case Nil
    have "CHR '':'' \<in> set (lower_ascii s)"
      using h unfolding HasPrefix_iff by (elim exE) (simp only:, simp)
    then have "CHR '':'' \<in> set (map lower_char a)"
      using lower_plain(2) [OF s(3)] s(1) Nil by (simp only: append_Nil2)
    with lower_plain(1) [OF s(3)] show False by simp
  next
    case (Cons c b')
    then have "lower_ascii s = map lower_char a @ CHR '':'' # lower_ascii b'"
      using lower_plain(3) [OF s(3), of b'] s(1,4) by simp
    with h have "map lower_char a = map lower_char n"
      using prefix_key [OF lower_plain(1) [OF s(3)] n(1)] n(2) by metis
    with sp spa show False by metis
  qed
qed

section \<open>Header fields\<close>

lemma TrimSpace_blank: "TrimSpace (CHR '' '' # v) = TrimSpace v"
proof -
  have "List.find (\<lambda>p. p \<noteq> [] \<and> HasPrefix (CHR '' '' # v) p) go_spaces = Some '' ''"
    by (simp add: go_spaces_def HasPrefix_def)
  from strip_step [OF this] show ?thesis by (simp add: TrimSpace_def)
qed

lemma after_colon_line: "CHR '':'' \<notin> set m \<Longrightarrow> after_colon (m @ '': '' @ v) = CHR '' '' # v"
proof -
  assume "CHR '':'' \<notin> set m"
  then have "dropWhile (\<lambda>c. c \<noteq> CHR '':'') (m @ CHR '':'' # CHR '' '' # v) = CHR '':'' # CHR '' '' # v"
    by (subst dropWhile_append2) auto
  then show ?thesis by (simp add: after_colon_def)
qed

lemma find_lines:
  assumes "header_name n" and "\<forall>(m, v) \<in> set hs. header_name m \<and> clean v"
  shows "(case List.find (\<lambda>line. HasPrefix (lower_ascii line) (lower_ascii n @ '':''))
              (map (\<lambda>(m, v). m @ '': '' @ v) hs @ [[], []]) of
            None \<Rightarrow> '''' | Some line \<Rightarrow> TrimSpace (after_colon line)) = lookup_header hs n"
  using assms(2)
proof (induction hs)
  case Nil
  have "\<not> HasPrefix [] (lower_ascii n @ '':'')" by (simp add: HasPrefix_iff)
  then show ?case by (simp add: lookup_header_def)
next
  case (Cons h hs)
  obtain m v where h: "h = (m, v)" by (cases h)
  with Cons.prems have m: "header_name m" "clean v" by auto
  then have "CHR '':'' \<notin> set m" by (auto simp: header_name_def)
  with m have "TrimSpace (after_colon (m @ '': '' @ v)) = v"
    by (metis after_colon_line TrimSpace_blank clean_def)
  with Cons line_matches [OF m(1) assms(1), of v] show ?case
    by (simp add: h lookup_header_def)
qed

definition clean_headers :: "(string \<times> string) list \<Rightarrow> bool" where
  "clean_headers hs \<longleftrightarrow> (\<forall>(m, v) \<in> set hs. header_name m \<and> clean v)"

lemma start_lineD: "start_line s \<Longrightarrow> no_crlf s"
  by (simp add: start_line_def)

lemma clean_headersD: "clean_headers hs \<Longrightarrow> \<forall>(m, v) \<in> set hs. no_crlf m \<and> no_crlf v"
  by (auto simp: clean_headers_def header_name_def clean_def)

text \<open>Reading a header of a message gives the value it was built with.\<close>

lemma sipHeader_text:
  assumes "start_line start" and "clean_headers hs" and "header_name n"
  shows "sipHeader (sip_text start hs) n = lookup_header hs n"
proof -
  from split_sip_text [OF start_lineD [OF assms(1)] clean_headersD [OF assms(2)]] show ?thesis
    using start_line_no_match [OF assms(1,3)] find_lines [OF assms(3), of hs] assms(2)
    by (simp add: sipHeader_def clean_headers_def)
qed

section \<open>The parser of the SIP library\<close>

text \<open>What the edge relies on: in a message that the library accepts, the method is the first word of
  the start line, and an extension header has the value that was sent.\<close>

definition extension_header :: "string \<Rightarrow> bool" where
  "extension_header n \<longleftrightarrow> header_name n \<and> HasPrefix n ''X-''"

locale sip_parser =
  fixes parse :: "string \<Rightarrow> sip_request option"
  assumes parse_method: "parse (sip_text start hs) = Some req \<Longrightarrow> start_line start \<Longrightarrow> clean_headers hs \<Longrightarrow>
      reqMethod req = first_field start"
    and parse_header: "parse (sip_text start hs) = Some req \<Longrightarrow> start_line start \<Longrightarrow> clean_headers hs \<Longrightarrow>
      extension_header n \<Longrightarrow> headerValue req n = lookup_header hs n"

text \<open>The reader of the lab double as such a parser.\<close>

definition tag_params :: "string \<Rightarrow> string \<rightharpoonup> string" where
  "tag_params v =
     (case List.find (\<lambda>p. HasPrefix p ''tag='') (split_on CHR '';'' v) of
        None \<Rightarrow> Map.empty | Some p \<Rightarrow> [''tag'' \<mapsto> drop 4 p])"

definition lab_parse :: "string \<Rightarrow> sip_request option" where
  "lab_parse text =
     (let field = first_field (hd (split_crlf text)) in
      if field = '''' then None
      else Some \<lparr>reqMethod = field,
        GetHeaders = (\<lambda>n. let v = sipHeader text n in if v = '''' then [] else [v]),
        CallID = Some (sipHeader text ''Call-ID''), FromParams = Some (tag_params (sipHeader text ''From'')),
        ToParams = Some (tag_params (sipHeader text ''To'')), Body = ''''\<rparr>)"

lemma header_name_lower: "header_name n \<Longrightarrow> lookup_header hs (map lower_char n) = lookup_header hs n"
proof -
  have "map lower_char (map lower_char n) = map lower_char n"
    by (simp add: lower_char_def char_code_of)
  then show ?thesis by (simp add: lookup_header_def del: map_map)
qed

lemma lower_char_plain:
  assumes "char_code c < 128 \<and> c \<noteq> CHR '':'' \<and> c \<noteq> CHR '' '' \<and> c \<noteq> CHR 0x0D \<and> c \<noteq> CHR 0x0A"
  shows "char_code (lower_char c) < 128 \<and> lower_char c \<noteq> CHR '':'' \<and> lower_char c \<noteq> CHR '' '' \<and>
    lower_char c \<noteq> CHR 0x0D \<and> lower_char c \<noteq> CHR 0x0A"
proof (cases "65 \<le> char_code c \<and> char_code c \<le> 90")
  case True
  then have l: "char_code (lower_char c) = char_code c + 32" by (simp add: lower_char_def char_code_of)
  have "char_code CHR '':'' = 58" "char_code CHR '' '' = 32" "char_code CHR 0x0D = 13" "char_code CHR 0x0A = 10"
    by (simp_all add: char_code_def)
  then have "lower_char c \<noteq> CHR '':''" "lower_char c \<noteq> CHR '' ''" "lower_char c \<noteq> CHR 0x0D" "lower_char c \<noteq> CHR 0x0A"
    using l True by fastforce+
  then show ?thesis using l True by simp
next
  case False
  then have "lower_char c = c" by (simp only: lower_char_def if_False)
  with assms show ?thesis by simp
qed

lemma header_name_map_lower: "header_name n \<Longrightarrow> header_name (map lower_char n)"
  using lower_char_plain by (fastforce simp: header_name_def no_crlf_def)

interpretation lab_sip: sip_parser lab_parse
proof
  fix start hs req n
  assume p: "lab_parse (sip_text start hs) = Some req" and s: "start_line start" and c: "clean_headers hs"
  have f: "hd (split_crlf (sip_text start hs)) = start"
    using split_sip_text [OF start_lineD [OF s] clean_headersD [OF c]] by simp
  show "reqMethod req = first_field start"
    using p by (auto simp: lab_parse_def Let_def f split: if_splits)
  assume "extension_header n"
  then have n: "header_name n" by (simp add: extension_header_def)
  have "GetHeaders req = (\<lambda>n. let v = sipHeader (sip_text start hs) n in if v = '''' then [] else [v])"
    using p by (auto simp: lab_parse_def Let_def split: if_splits)
  then show "headerValue req n = lookup_header hs n"
    using sipHeader_text [OF s c n] sipHeader_text [OF s c header_name_map_lower [OF n]] header_name_lower [OF n, of hs]
    by (simp add: headerValue_def Let_def)
qed

end
