(* ===== verification/Fleet.thy ===== *)
theory Fleet
  imports EdgeIntake SipText ControlNodes "HOL-Library.Monad_Syntax"
begin

text \<open>
  The components around the registry of nodes together: a heartbeat of the sidecar or of the
  standalone utility is a SIP text that the edge's OPTIONS handler takes in; the edge lists its nodes
  as a JSON document that the control API decodes; an edge's advertisement in Redis is what the
  control API and the sidecars find it by.
\<close>

section \<open>What a heartbeat says\<close>

text \<open>The node that a heartbeat of the sidecar stands for.\<close>

definition core_node :: "(string \<Rightarrow> string) \<Rightarrow> config \<Rightarrow> sidecar \<Rightarrow> pbx_node" where
  "core_node environ cfg s =
     \<lparr>pnNodeID = cfNodeID cfg, pnPrivateIP = cfPrivateIP cfg, pnMediaPublicIP = cfMediaPublicIP cfg,
      pnSIPUDPPort = cfSIPUDPPort cfg, pnSIPTCPPort = cfSIPTCPPort cfg, pnControlURL = cfControlURL cfg,
      pnRole = cfRole cfg, pnDrainState = cfDrainState cfg, pnCapacity = cfCapacity cfg,
      pnActiveCalls = sActive s, pnActiveBridges = sBridges s, pnActiveRTP = sActive s,
      pnRTPPacketsPerSecond = sActive s * 50, pnActiveSpeakers = 0,
      pnLoadScore = sent_score (snd (snd (load environ s))), pnNodeEpoch = sEpoch s, pnLastSeenUnix = 0\<rparr>"

text \<open>Texts without line breaks and without white space at the ends, as identifiers and addresses are.\<close>

definition neat :: "string \<Rightarrow> bool" where
  "neat v \<longleftrightarrow> no_crlf v \<and> (v = [] \<or> \<not> space_byte (hd v) \<and> \<not> space_byte (last v))"

definition neat_config :: "config \<Rightarrow> bool" where
  "neat_config cfg \<longleftrightarrow>
     neat (cfNodeID cfg) \<and> neat (cfPrivateIP cfg) \<and> neat (cfMediaPublicIP cfg) \<and> neat (cfControlURL cfg) \<and>
     neat (cfRole cfg) \<and> neat (cfDrainState cfg) \<and> cfNodeID cfg \<noteq> '''' \<and>
     cfSIPUDPPort cfg \<in> {1..<2 ^ 63} \<and> cfSIPTCPPort cfg \<in> {1..<2 ^ 63} \<and> cfCapacity cfg \<in> {1..<2 ^ 63}"

definition neat_sidecar :: "sidecar \<Rightarrow> bool" where
  "neat_sidecar s \<longleftrightarrow> neat (sInstance s) \<and> sInstance s \<noteq> '''' \<and> \<bar>sActive s\<bar> < 2 ^ 50 \<and>
     sBridges s \<in> int64_range \<and> sEpoch s \<in> int64_range"

section \<open>The node listing as the control API reads it\<close>

text \<open>Decoding the JSON object of a node: a missing or null field is the zero value, a value of
  another kind is an error.\<close>

definition str_field :: "string \<Rightarrow> json \<Rightarrow> string option" where
  "str_field k j = (case json_field k j of None \<Rightarrow> Some '''' | Some JNull \<Rightarrow> Some '''' | Some (JStr s) \<Rightarrow> Some s | _ \<Rightarrow> None)"

definition int_field :: "string \<Rightarrow> json \<Rightarrow> int option" where
  "int_field k j = (case json_field k j of None \<Rightarrow> Some 0 | Some JNull \<Rightarrow> Some 0 | Some (JInt i) \<Rightarrow> Some i | _ \<Rightarrow> None)"

definition num_field :: "string \<Rightarrow> json \<Rightarrow> rat option" where
  "num_field k j =
     (case json_field k j of None \<Rightarrow> Some 0 | Some JNull \<Rightarrow> Some 0 | Some (JInt i) \<Rightarrow> Some (f64 (of_int i))
      | Some (JNum q) \<Rightarrow> Some q | _ \<Rightarrow> None)"

definition decode_node :: "json \<Rightarrow> node option" where
  "decode_node j =
     do {
       a \<leftarrow> str_field ''node_id'' j; b \<leftarrow> str_field ''control_url'' j; c \<leftarrow> str_field ''private_ip'' j;
       d \<leftarrow> str_field ''media_public_ip'' j; e \<leftarrow> str_field ''role'' j; f \<leftarrow> str_field ''drain_state'' j;
       g \<leftarrow> int_field ''capacity'' j; h \<leftarrow> int_field ''active_calls'' j; i \<leftarrow> int_field ''active_rtp_sessions'' j;
       k \<leftarrow> int_field ''rtp_packets_per_second'' j; l \<leftarrow> int_field ''active_speakers'' j;
       m \<leftarrow> num_field ''load_score'' j; n \<leftarrow> int_field ''node_epoch'' j;
       Some \<lparr>NodeID = a, ControlURL = b, PrivateIP = c, MediaPublicIP = d, Role = e, DrainState = f, Capacity = g,
             ActiveCalls = h, ActiveRTP = i, RTPPacketsPerSecond = k, ActiveSpeakers = l, LoadScore = m, NodeEpoch = n\<rparr>
     }"

definition control_view :: "pbx_node \<Rightarrow> node" where
  "control_view n =
     \<lparr>NodeID = pnNodeID n, ControlURL = pnControlURL n, PrivateIP = pnPrivateIP n, MediaPublicIP = pnMediaPublicIP n,
      Role = pnRole n, DrainState = pnDrainState n, Capacity = pnCapacity n, ActiveCalls = pnActiveCalls n,
      ActiveRTP = pnActiveRTP n, RTPPacketsPerSecond = pnRTPPacketsPerSecond n, ActiveSpeakers = pnActiveSpeakers n,
      LoadScore = pnLoadScore n, NodeEpoch = pnNodeEpoch n\<rparr>"

text \<open>The answer of an edge as \<open>nodes\<close> treats it; \<open>st\<close> is the status text, \<open>err\<close> the decoder's error.\<close>

definition fetched_of :: "string \<Rightarrow> string \<Rightarrow> response \<Rightarrow> fetched" where
  "fetched_of st err r =
     (if code r \<ge> 300 then ErrorStatus st
      else case doc r of
          Some JNull \<Rightarrow> NodeList []
        | Some (JArr js) \<Rightarrow>
            (if \<exists>j \<in> set js. decode_node j = None then BadBody err else NodeList (List.map_filter decode_node js))
        | _ \<Rightarrow> BadBody err)"

section \<open>Finding the edges\<close>

text \<open>The scans of the control API and of the sidecar over the advertisements: what each reads of an
  entry, \<open>None\<close> when it cannot be read or is of another kind.\<close>

definition advert_entry :: "'r client \<Rightarrow> int \<Rightarrow> redis_faults \<Rightarrow> 'r \<Rightarrow> string \<Rightarrow> sipgo_advertisement option" where
  "advert_entry R now F r k =
     (if get_ok F k then (case rget R r now k of Some (AdvertValue a) \<Rightarrow> Some a | _ \<Rightarrow> None) else None)"

definition api_scan :: "'r client \<Rightarrow> int \<Rightarrow> redis_faults \<Rightarrow> 'r \<Rightarrow> string option list" where
  "api_scan R now F r = map (\<lambda>k. map_option avHTTPURL (advert_entry R now F r k)) (rscan R r now ''active-sipgo:'')"

definition sidecar_scan :: "'r client \<Rightarrow> int \<Rightarrow> redis_faults \<Rightarrow> 'r \<Rightarrow> bool \<times> (string \<times> int) option list" where
  "sidecar_scan R now F r =
     (\<not> scan_ok F,
      map (\<lambda>k. map_option (\<lambda>a. (avPrivateIP a, avSIPUDPPort a)) (advert_entry R now F r k)) (rscan R r now ''active-sipgo:''))"

section \<open>The header lines of a heartbeat\<close>

lemma neat_clean: "neat v \<Longrightarrow> clean v"
  using TrimSpace_id by (auto simp: neat_def clean_def)

lemma neat_append:
  assumes "no_crlf a" "no_crlf b" "a \<noteq> []" "b \<noteq> []" "\<not> space_byte (hd a)" "\<not> space_byte (last b)"
  shows "neat (a @ b)"
  using assms by (simp add: neat_def)

lemma neat_no_crlf: "neat v \<Longrightarrow> no_crlf v"
  by (simp add: neat_def)

lemma digit_plain: "is_digit c \<Longrightarrow> c \<noteq> CHR 0x0D \<and> c \<noteq> CHR 0x0A"
  by (auto simp: is_digit_def char_code_def)

lemma no_crlf_digits: "list_all is_digit s \<Longrightarrow> no_crlf s"
  using digit_plain by (auto simp: no_crlf_def list_all_iff)

lemma no_crlf_Itoa [simp]: "no_crlf (Itoa n)"
  using no_crlf_digits by (simp add: Itoa_def)

lemma Itoa_neq_Nil [simp]: "Itoa n \<noteq> []"
  by (simp add: Itoa_def)

lemma minus_not_space: "\<not> space_byte CHR ''-''"
  by (simp add: space_byte_def go_spaces_def)

lemma last_digits: "list_all is_digit s \<Longrightarrow> s \<noteq> [] \<Longrightarrow> \<not> space_byte (last s)"
  using is_digit_not_space by (auto simp: list_all_iff)

lemma last_Itoa [simp]: "\<not> space_byte (last (Itoa n))"
  using last_digits [OF nat_digits_digits nat_digits_neq_Nil] by (simp add: Itoa_def)

lemma hd_Itoa [simp]: "\<not> space_byte (hd (Itoa n))"
  using nat_digits_hd [of "nat n"] is_digit_not_space by (auto simp: Itoa_def minus_not_space)

lemma neat_Itoa [simp]: "neat (Itoa n)"
  by (simp add: neat_def)

lemma neat_F6: "neat (FormatF6 x)"
proof -
  have chars: "\<not> space_byte c \<and> c \<noteq> CHR 0x0D \<and> c \<noteq> CHR 0x0A" if "c \<in> set (FormatF6 x)" for c
    using FormatF6_chars [OF that]
  proof (elim disjE)
    assume "is_digit c"
    then show ?thesis using is_digit_not_space digit_plain by blast
  qed (simp_all add: space_byte_def go_spaces_def)
  have "FormatF6 x \<noteq> []" by (simp add: FormatF6_def)
  then show ?thesis
    using chars [OF hd_in_set] chars [OF last_in_set] chars by (auto simp: neat_def no_crlf_def)
qed

definition option_names :: "string list" where
  "option_names =
     [''Via'', ''From'', ''To'', ''Call-ID'', ''CSeq'', ''Max-Forwards'', ''X-PhonArch-Node-ID'', ''X-PhonArch-Private-IP'',
      ''X-PhonArch-Media-Public-IP'', ''X-PhonArch-Control-URL'', ''X-PhonArch-SIP-UDP-Port'', ''X-PhonArch-SIP-TCP-Port'',
      ''X-PhonArch-Role'', ''X-PhonArch-Drain-State'', ''X-PhonArch-Capacity'', ''X-PhonArch-Active-Calls'',
      ''X-PhonArch-Active-RTP-Sessions'', ''X-PhonArch-RTP-Packets-Per-Second'', ''X-PhonArch-Active-Speakers'',
      ''X-PhonArch-Active-Bridges'', ''X-PhonArch-Load-Score'', ''X-PhonArch-Node-Epoch'', ''Content-Length'']"

lemma option_names_header: "list_all header_name option_names"
  by (simp add: option_names_def header_name_def no_crlf_def char_code_def)

lemma option_names_distinct: "distinct (map (map lower_char) option_names)"
  by (simp add: option_names_def lower_char_def char_code_def)

lemma option_names_fst: "map fst (options_headers environ cfg s sq) = option_names"
  by (simp add: options_headers_def node_headers_def option_names_def split: prod.split)

lemma lookup_nth:
  assumes "distinct (map (map lower_char) (map fst hs))" and "i < length hs" and "fst (hs ! i) = n"
  shows "lookup_header hs n = snd (hs ! i)"
  using assms
proof (induction hs arbitrary: i)
  case Nil
  then show ?case by simp
next
  case (Cons h hs)
  obtain m v where h: "h = (m, v)" by (cases h)
  show ?case
  proof (cases i)
    case 0
    with Cons.prems show ?thesis by (simp add: h lookup_header_def)
  next
    case (Suc j)
    with Cons.prems have j: "j < length hs" "fst (hs ! j) = n" by auto
    then have "map lower_char n \<in> set (map (map lower_char) (map fst hs))" by force
    moreover have "map lower_char m \<notin> set (map (map lower_char) (map fst hs))"
      using Cons.prems(1) by (simp only: h list.map fst_conv distinct.simps simp_thms)
    ultimately have "map lower_char m \<noteq> map lower_char n" by metis
    then show ?thesis using Cons Suc j by (simp add: h lookup_header_def)
  qed
qed

lemma clean_headers_parts:
  "clean_headers hs \<longleftrightarrow> list_all header_name (map fst hs) \<and> list_all clean (map snd hs)"
  by (auto simp: clean_headers_def list_all_iff)

lemma lt_gt_plain: "\<not> space_byte CHR ''<''" "\<not> space_byte CHR ''>''" "\<not> space_byte CHR ''S''" "\<not> space_byte CHR ''p''"
  "\<not> space_byte CHR ''1''" "\<not> space_byte CHR ''h''"  "\<not> space_byte CHR ''0''"
  by (simp_all add: space_byte_def go_spaces_def)

lemma options_start_line: "no_crlf target \<Longrightarrow> start_line (options_start target)"
  unfolding start_line_def
proof
  assume t: "no_crlf target"
  show "no_crlf (options_start target)" using t by (simp add: options_start_def)
  show "\<exists>a b. options_start target = a @ b \<and> CHR '' '' \<in> set a \<and>
      (\<forall>c \<in> set a. char_code c < 128 \<and> c \<noteq> CHR '':'') \<and> (b = [] \<or> hd b = CHR '':'')"
    by (rule exI [of _ "''OPTIONS sip''"], rule exI [of _ "'':phonarch-sipgo@'' @ target @ '' SIP/2.0''"])
      (simp add: options_start_def char_code_def)
qed

lemma options_clean:
  assumes "neat_config cfg" and "neat_sidecar s"
  shows "clean_headers (options_headers environ cfg s sq)"
proof -
  have n: "neat (cfNodeID cfg)" "neat (cfPrivateIP cfg)" "neat (sInstance s)" "cfNodeID cfg \<noteq> ''''" "sInstance s \<noteq> ''''"
    using assms by (simp_all add: neat_config_def neat_sidecar_def)
  have "list_all neat (map snd (options_headers environ cfg s sq))"
    using n assms neat_F6 by (simp add: options_headers_def node_headers_def neat_config_def lt_gt_plain neat_def split: prod.split)
  then have "list_all clean (map snd (options_headers environ cfg s sq))"
    using neat_clean by (auto simp: list_all_iff)
  then show ?thesis
    using option_names_header by (simp add: clean_headers_parts option_names_fst)
qed

end
