(* ===== verification/LabProps.thy ===== *)
theory LabProps
  imports Probe Fleet
begin

text \<open>
  Properties of the lab: the probe completes a call with the engine's double, and the goroutine of a
  call in the double sets its states whatever has happened to the call since.
\<close>

section \<open>What the double answers\<close>

lemma header_read_probe: "probe_header = sipHeader"
  by (intro ext) (simp add: probe_header_def sipHeader_def)

definition answer_headers :: "nat \<Rightarrow> (string \<times> string) list \<Rightarrow> (string \<times> string) list" where
  "answer_headers status hs =
     [(''Via'', lookup_header hs ''Via''), (''From'', lookup_header hs ''From''),
      (''To'', tagged status (lookup_header hs ''To'')), (''Call-ID'', lookup_header hs ''Call-ID''),
      (''CSeq'', lookup_header hs ''CSeq''), (''Content-Length'', ''0'')]"

lemma answer_names: "list_all header_name [''Via'', ''From'', ''To'', ''Call-ID'', ''CSeq'', ''Content-Length'']"
  by (simp add: header_name_def no_crlf_def char_code_def)

lemma server_answers:
  assumes "start_line start" and "clean_headers hs" and "\<not> HasPrefix start ''SIP/2.0''"
  shows "sipServer (sip_text start hs) =
    (let meth = upper_ascii (first_field start);
         reply = (\<lambda>status reason. sip_text (''SIP/2.0 '' @ Itoa (int status) @ '' '' @ reason) (answer_headers status hs))
     in if first_field start = [] then []
        else if meth = ''INVITE'' then [(0, reply 100 ''Trying''), (150, reply 180 ''Ringing''), (250, reply 200 ''OK'')]
        else if meth = ''BYE'' \<or> meth = ''CANCEL'' then [(0, reply 200 ''OK'')] else [])"
proof -
  have h: "hd (split_crlf (sip_text start hs)) = start"
    using split_sip_text [OF start_lineD [OF assms(1)] clean_headersD [OF assms(2)]] by simp
  have n: "header_name ''Via''" "header_name ''From''" "header_name ''To''" "header_name ''Call-ID''" "header_name ''CSeq''"
    using answer_names by simp_all
  show ?thesis
    using assms(3) unfolding sipServer_def h Let_def
    by (simp add: responseTo_def answer_headers_def sipHeader_text [OF assms(1,2)] n)
qed

section \<open>The probe and the double\<close>

lemma Itoa_small: "Itoa 100 = ''100''" "Itoa 180 = ''180''" "Itoa 200 = ''200''"
  by (simp_all add: Itoa_def nat_digits.simps [of 100] nat_digits.simps [of 180] nat_digits.simps [of 200]
      nat_digits.simps [of 10] nat_digits.simps [of 18] nat_digits.simps [of 20] nat_digits.simps [of "Suc 0"]
      nat_digits.simps [of 2] digit_char_def char_of_def bit_Suc_0_iff)

lemma status_lines:
  "start_line ''SIP/2.0 100 Trying''" "start_line ''SIP/2.0 180 Ringing''" "start_line ''SIP/2.0 200 OK''"
proof -
  have s: "start_line s" if "no_crlf s" "CHR '' '' \<in> set s" "list_all (\<lambda>c. char_code c < 128 \<and> c \<noteq> CHR '':'') s" for s
    unfolding start_line_def using that by (intro conjI exI [of _ s] exI [of _ "[]"]) (simp_all add: list_all_iff)
  show "start_line ''SIP/2.0 100 Trying''" by (rule s) (simp_all add: char_code_def)
  show "start_line ''SIP/2.0 180 Ringing''" by (rule s) (simp_all add: char_code_def)
  show "start_line ''SIP/2.0 200 OK''" by (rule s) (simp_all add: char_code_def)
qed

definition probe_headers :: "string \<Rightarrow> string \<Rightarrow> int \<Rightarrow> (string \<times> string) list" where
  "probe_headers to cseq now =
     [(''Via'', probe_via), (''From'', probe_from), (''To'', to), (''Call-ID'', probe_call_id now), (''CSeq'', cseq)]"

lemma neat_call_id: "neat (probe_call_id now)"
  by (simp add: probe_call_id_def neat_def space_byte_def go_spaces_def)

lemma neat_probe: "neat probe_via" "neat probe_from" "neat ''<sip:+15550123@provider>''"
  "neat ''<sip:+15550123@provider>;tag=mock-200''" "neat ''1 INVITE''" "neat ''2 BYE''" "neat ''1 ACK''" "neat ''70''" "neat ''0''"
  "neat ''<sip:probe@127.0.0.1:5099>''"
  by (simp_all add: probe_via_def probe_from_def neat_def space_byte_def go_spaces_def)

lemma probe_names: "list_all header_name [''Via'', ''From'', ''To'', ''Call-ID'', ''CSeq'', ''Max-Forwards'', ''Contact'', ''Content-Length'']"
  by (simp add: header_name_def no_crlf_def char_code_def)
lemma lookup_probe:
  "map fst hs = [''Via'', ''From'', ''To'', ''Call-ID'', ''CSeq''] \<Longrightarrow>
    lookup_header (hs @ rest) ''Via'' = snd (hs ! 0) \<and> lookup_header (hs @ rest) ''From'' = snd (hs ! 1) \<and>
    lookup_header (hs @ rest) ''To'' = snd (hs ! 2) \<and> lookup_header (hs @ rest) ''Call-ID'' = snd (hs ! 3) \<and>
    lookup_header (hs @ rest) ''CSeq'' = snd (hs ! 4)"
proof -
  assume n: "map fst hs = [''Via'', ''From'', ''To'', ''Call-ID'', ''CSeq'']"
  then obtain a b c d e where "hs = [(''Via'', a), (''From'', b), (''To'', c), (''Call-ID'', d), (''CSeq'', e)]"
    by (auto simp: map_eq_Cons_conv)
  then show ?thesis by (simp add: lookup_header_def lower_char_def char_code_def)
qed

lemma invite_parts:
  "probe_invite now = sip_text ''INVITE sip:+15550123@127.0.0.1:5060 SIP/2.0''
     (probe_headers ''<sip:+15550123@provider>'' ''1 INVITE'' now @
      [(''Max-Forwards'', ''70''), (''Contact'', ''<sip:probe@127.0.0.1:5099>''), (''Content-Length'', ''0'')])"
  "probe_in_dialog meth sq now to = sip_text (meth @ '' sip:+15550123@127.0.0.1:5060 SIP/2.0'')
     (probe_headers to (sq @ '' '' @ meth) now @ [(''Max-Forwards'', ''70''), (''Content-Length'', ''0'')])"
  by (simp_all add: probe_invite_def probe_in_dialog_def probe_headers_def)

lemma probe_lookups:
  "lookup_header (probe_headers to cseq now @ rest) ''Via'' = probe_via"
  "lookup_header (probe_headers to cseq now @ rest) ''From'' = probe_from"
  "lookup_header (probe_headers to cseq now @ rest) ''To'' = to"
  "lookup_header (probe_headers to cseq now @ rest) ''Call-ID'' = probe_call_id now"
  "lookup_header (probe_headers to cseq now @ rest) ''CSeq'' = cseq"
  using lookup_probe [of "probe_headers to cseq now" rest] by (simp_all add: probe_headers_def)

lemma probe_clean:
  assumes "neat to" and "neat cseq"
  shows "clean_headers (probe_headers to cseq now @ [(''Max-Forwards'', ''70''), (''Contact'', ''<sip:probe@127.0.0.1:5099>''), (''Content-Length'', ''0'')])"
    and "clean_headers (probe_headers to cseq now @ [(''Max-Forwards'', ''70''), (''Content-Length'', ''0'')])"
  using probe_names neat_probe neat_call_id [of now] assms
  by (simp_all add: clean_headers_parts probe_headers_def neat_clean)

lemma request_lines:
  "start_line ''INVITE sip:+15550123@127.0.0.1:5060 SIP/2.0''"
  "start_line ''ACK sip:+15550123@127.0.0.1:5060 SIP/2.0''" "start_line ''BYE sip:+15550123@127.0.0.1:5060 SIP/2.0''"
proof -
  have s: "start_line (m @ '' sip'' @ b)"
    if "no_crlf (m @ '' sip'' @ b)" "list_all (\<lambda>c. char_code c < 128 \<and> c \<noteq> CHR '':'') m" "b \<noteq> []" "hd b = CHR '':''" for m b
    unfolding start_line_def using that
    by (intro conjI exI [of _ "m @ '' sip''"] exI [of _ b]) (simp_all add: list_all_iff char_code_def)
  show "start_line ''INVITE sip:+15550123@127.0.0.1:5060 SIP/2.0''"
    using s [of "''INVITE''" "'':+15550123@127.0.0.1:5060 SIP/2.0''"] by (simp add: char_code_def)
  show "start_line ''ACK sip:+15550123@127.0.0.1:5060 SIP/2.0''"
    using s [of "''ACK''" "'':+15550123@127.0.0.1:5060 SIP/2.0''"] by (simp add: char_code_def)
  show "start_line ''BYE sip:+15550123@127.0.0.1:5060 SIP/2.0''"
    using s [of "''BYE''" "'':+15550123@127.0.0.1:5060 SIP/2.0''"] by (simp add: char_code_def)
qed

lemma first_field_plain:
  assumes "\<forall>c \<in> set (a # m). \<not> space_byte c"
  shows "first_field (a # m @ CHR '' '' # b) = a # m"
proof -
  have s: "\<not> (\<exists>p \<in> set go_spaces. HasPrefix (c # cs) p)" if "\<not> space_byte c" for c cs
    using that by (auto simp: space_byte_def go_spaces_def HasPrefix_def)
  have "strip go_spaces (a # m @ CHR '' '' # b) = a # m @ CHR '' '' # b"
    using s [of a] assms by (intro strip_fixed) (simp add: find_None_iff)
  moreover have "until_space (m' @ CHR '' '' # b) = m'" if "\<forall>c \<in> set m'. \<not> space_byte c" for m'
    using that
  proof (induction m')
    case Nil
    have "'' '' \<in> set go_spaces" by (simp add: go_spaces_def)
    moreover have "HasPrefix (CHR '' '' # b) '' ''" by (simp add: HasPrefix_def)
    ultimately have "\<exists>p \<in> set go_spaces. HasPrefix (CHR '' '' # b) p" by (rule rev_bexI)
    then show ?case by simp
  next
    case (Cons c m')
    with s [of c] show ?case by simp
  qed
  from this [of "a # m"] have "until_space (a # m @ CHR '' '' # b) = a # m" using assms by simp
  ultimately show ?thesis by (simp add: first_field_def)
qed

lemma first_words:
  "upper_ascii (first_field ''INVITE sip:+15550123@127.0.0.1:5060 SIP/2.0'') = ''INVITE''"
  "upper_ascii (first_field ''ACK sip:+15550123@127.0.0.1:5060 SIP/2.0'') = ''ACK''"
  "upper_ascii (first_field ''BYE sip:+15550123@127.0.0.1:5060 SIP/2.0'') = ''BYE''"
  using first_field_plain [of "CHR ''I''" "''NVITE''" "''sip:+15550123@127.0.0.1:5060 SIP/2.0''"]
    first_field_plain [of "CHR ''A''" "''CK''" "''sip:+15550123@127.0.0.1:5060 SIP/2.0''"]
    first_field_plain [of "CHR ''B''" "''YE''" "''sip:+15550123@127.0.0.1:5060 SIP/2.0''"]
  by (simp_all add: space_byte_def go_spaces_def upper_char_def char_code_def)

text \<open>The probe and the engine's double complete a call, at any time: of the double's answers to the
  INVITE the probe takes the 200, acknowledges it and hangs up in the dialog of its To tag, the double
  answers the BYE and keeps silent on the ACK, and the probe does not panic.\<close>

theorem probe_completes:
  "let bye = probe_in_dialog ''BYE'' ''2'' now ''<sip:+15550123@provider>;tag=mock-200'';
       ack = probe_in_dialog ''ACK'' ''1'' now ''<sip:+15550123@provider>;tag=mock-200'' in
   sipServer ack = [] \<and>
   probe now (map (Some \<circ> snd) (sipServer (probe_invite now) @ sipServer bye)) =
     \<lparr>prSent = [probe_invite now, ack, bye],
      prPrinted = [''response: SIP/2.0 100 Trying'', ''response: SIP/2.0 180 Ringing'', ''response: SIP/2.0 200 OK'',
        ''bye: SIP/2.0 200 OK''], prPanic = False\<rparr>"
proof -
  let ?to = "''<sip:+15550123@provider>;tag=mock-200''"
  let ?answer = "\<lambda>line status to cseq. sip_text line (answer_headers status (probe_headers to cseq now))"
  have ans: "answer_headers status (probe_headers to cseq now @ rest) = answer_headers status (probe_headers to cseq now)"
    for status to cseq rest using probe_lookups [of to cseq now "[]"] by (simp add: answer_headers_def probe_lookups)
  have inv: "sipServer (probe_invite now) =
     [(0, ?answer ''SIP/2.0 100 Trying'' 100 ''<sip:+15550123@provider>'' ''1 INVITE''),
      (150, ?answer ''SIP/2.0 180 Ringing'' 180 ''<sip:+15550123@provider>'' ''1 INVITE''),
      (250, ?answer ''SIP/2.0 200 OK'' 200 ''<sip:+15550123@provider>'' ''1 INVITE'')]"
    unfolding invite_parts(1)
    by (subst server_answers [OF request_lines(1) probe_clean(1) [OF neat_probe(3,5)]])
      (use first_words(1) in \<open>auto simp: HasPrefix_def ans Itoa_small Let_def\<close>)
  have bye: "sipServer (probe_in_dialog ''BYE'' ''2'' now ?to) = [(0, ?answer ''SIP/2.0 200 OK'' 200 ?to ''2 BYE'')]"
    unfolding invite_parts(2)
    using server_answers [OF request_lines(3) probe_clean(2) [OF neat_probe(4,6)]] first_words(3)
    by (auto simp: HasPrefix_def ans Itoa_small Let_def)
  have ack: "sipServer (probe_in_dialog ''ACK'' ''1'' now ?to) = []"
    unfolding invite_parts(2)
    using server_answers [OF request_lines(2) probe_clean(2) [OF neat_probe(4,7)]] first_words(2)
    by (auto simp: HasPrefix_def ans Itoa_small Let_def)
  have to: "tagged 100 ''<sip:+15550123@provider>'' = ''<sip:+15550123@provider>;tag=mock-100''"
    "tagged 180 ''<sip:+15550123@provider>'' = ''<sip:+15550123@provider>;tag=mock-180''"
    "tagged 200 ''<sip:+15550123@provider>'' = ?to" "tagged 200 ?to = ?to"
    by (simp_all add: tagged_def HasPrefix_def Itoa_small)
  have clean: "clean_headers (answer_headers status (probe_headers to cseq now))" if "neat (tagged status to)" "neat cseq" for status to cseq
    using that answer_names neat_probe neat_call_id [of now] probe_lookups [of to cseq now "[]"]
    by (simp add: clean_headers_parts answer_headers_def neat_clean)
  have line: "status_line (sip_text s hs) = s" if "start_line s" "clean_headers hs" for s hs
    using split_sip_text [OF start_lineD [OF that(1)] clean_headersD [OF that(2)]] by (simp add: status_line_def)
  have neat: "neat ''<sip:+15550123@provider>;tag=mock-100''" "neat ''<sip:+15550123@provider>;tag=mock-180''"
    by (simp_all add: neat_def space_byte_def go_spaces_def)
  have lines: "status_line (?answer ''SIP/2.0 100 Trying'' 100 ''<sip:+15550123@provider>'' ''1 INVITE'') = ''SIP/2.0 100 Trying''"
    "status_line (?answer ''SIP/2.0 180 Ringing'' 180 ''<sip:+15550123@provider>'' ''1 INVITE'') = ''SIP/2.0 180 Ringing''"
    "status_line (?answer ''SIP/2.0 200 OK'' 200 ''<sip:+15550123@provider>'' ''1 INVITE'') = ''SIP/2.0 200 OK''"
    "status_line (?answer ''SIP/2.0 200 OK'' 200 ?to ''2 BYE'') = ''SIP/2.0 200 OK''"
    using line [OF status_lines(1) clean] line [OF status_lines(2) clean] line [OF status_lines(3) clean] neat neat_probe
    by (simp_all add: to)
  have "probe_header (?answer ''SIP/2.0 200 OK'' 200 ''<sip:+15550123@provider>'' ''1 INVITE'') ''To'' = ?to"
    using sipHeader_text [OF status_lines(3) clean, of 200 "''<sip:+15550123@provider>''" "''1 INVITE''" "''To''"] answer_names neat_probe
    by (simp add: header_read_probe to) (simp add: answer_headers_def lookup_header_def lower_char_def char_code_def
        probe_headers_def to)
  moreover have "HasPrefix (sip_text (''SIP/2.0 200'' @ s) hs) ''SIP/2.0 200''"
    "\<not> HasPrefix (sip_text (''SIP/2.0 1'' @ s) hs) ''SIP/2.0 200''" for s hs
    by (simp_all add: sip_text_def HasPrefix_def)
  from this(1) [of "'' OK''"] this(2) [of "''00 Trying''"] this(2) [of "''80 Ringing''"]
  have "HasPrefix (sip_text ''SIP/2.0 200 OK'' hs) ''SIP/2.0 200''" "\<not> HasPrefix (sip_text ''SIP/2.0 100 Trying'' hs) ''SIP/2.0 200''"
    "\<not> HasPrefix (sip_text ''SIP/2.0 180 Ringing'' hs) ''SIP/2.0 200''" for hs by simp_all
  moreover have four: "await_ok 4 = await_ok (Suc (Suc (Suc (Suc 0))))" by (simp add: eval_nat_numeral)
  ultimately show ?thesis
    by (simp add: inv bye ack probe_def lines four Let_def)
qed
section \<open>The goroutine of a call\<close>

text \<open>The \<open>n\<close> next states that the k-th goroutine sets.\<close>

fun wake :: "nat \<Rightarrow> nat \<Rightarrow> lab \<Rightarrow> lab" where
  "wake k 0 s = s"
| "wake k (Suc n) s = wake k n (lab_advance k s)"

lemma wake_add: "wake k (m + n) s = wake k n (wake k m s)"
  by (induction m arbitrary: s) simp_all

lemma wake_timers:
  assumes "k < length (labTimers s)" and "labTimers s ! k = (c, sts)" and "n \<le> length sts"
  shows "labTimers (wake k n s) ! k = (c, drop n sts) \<and> k < length (labTimers (wake k n s))"
  using assms
proof (induction n arbitrary: s sts)
  case 0
  then show ?case by simp
next
  case (Suc n)
  then obtain st rest where sts: "sts = st # rest" by (cases sts) auto
  have "k < length (labTimers (lab_advance k s))" "labTimers (lab_advance k s) ! k = (c, rest)"
    using Suc.prems by (simp_all add: lab_advance_def lab_update_def sts)
  from Suc.IH [OF this] Suc.prems(3) show ?case by (simp add: sts)
qed

lemma wake_state:
  assumes "k < length (labTimers s)" and "labTimers s ! k = (c, sts)" and "0 < n" and "n \<le> length sts"
  shows "\<exists>x. labCalls (wake k n s) c = Some x \<and> lcState x = sts ! (n - 1)"
proof -
  obtain m where n: "n = Suc m" using assms(3) by (cases n) auto
  let ?s = "wake k m s"
  have t: "labTimers ?s ! k = (c, drop m sts)" "k < length (labTimers ?s)"
    using wake_timers [OF assms(1,2), of m] assms(4) n by simp_all
  have d: "drop m sts = sts ! m # drop (Suc m) sts" using assms(4) n by (simp add: Cons_nth_drop_Suc)
  have "wake k n s = lab_advance k ?s" using wake_add [of k m 1 s] by (simp add: n)
  then show ?thesis using t by (simp add: d lab_advance_def lab_update_def n)
qed

text \<open>In the engine's double a dropped call comes back: unless its goroutine has already set the last
  of the three states, a drop is answered 200 and sets the call to ENDED, and the states that the
  goroutine sets after it bring the call to IN_BRIDGE all the same.\<close>

theorem lab_drop_undone:
  assumes "lab_originate (Some i) s0 = (r, s1)" and "code r = 200" and "j < 3"
    and "HasSuffix path ''/drop''"
    and "lab_participants path (loCallID i) (wake (length (labTimers s0)) j s1) = (r', s2)"
  shows "code r' = 200 \<and> (\<exists>x. labCalls s2 (loCallID i) = Some x \<and> lcState x = ''ENDED'') \<and>
    (\<exists>x. labCalls (wake (length (labTimers s0)) (3 - j) s2) (loCallID i) = Some x \<and> lcState x = ''IN_BRIDGE'')"
proof -
  let ?k = "length (labTimers s0)" and ?c = "loCallID i" and ?sts = "[''RINGING'', ''ANSWERED'', ''IN_BRIDGE'']"
  have s1: "?k < length (labTimers s1)" "labTimers s1 ! ?k = (?c, ?sts)"
    using assms(1,2) by (auto simp: lab_originate_def Let_def split: if_splits)
  have m: "labTimers (wake ?k j s1) ! ?k = (?c, drop j ?sts)" "?k < length (labTimers (wake ?k j s1))"
    using wake_timers [OF s1, of j] assms(3) by simp_all
  have no: "\<not> HasSuffix path ''/mute''" "\<not> HasSuffix path ''/unmute''"
    using assms(4) by (auto simp: HasSuffix_def HasPrefix_iff)
  have s2: "s2 = lab_update ?c (\<lambda>c. c\<lparr>lcState := ''ENDED''\<rparr>) (wake ?k j s1)" "code r' = 200"
    using assms(4,5) no by (auto simp: lab_participants_def answer_def)
  have t: "?k < length (labTimers s2)" "labTimers s2 ! ?k = (?c, drop j ?sts)"
    using m by (simp_all add: s2 lab_update_def)
  have "\<exists>x. labCalls (wake ?k (3 - j) s2) ?c = Some x \<and> lcState x = drop j ?sts ! (3 - j - 1)"
    using wake_state [OF t, of "3 - j"] assms(3) by simp
  moreover have "drop j ?sts ! (3 - j - 1) = ''IN_BRIDGE''" using assms(3) by (auto simp: numeral_3_eq_3 less_Suc_eq)
  ultimately show ?thesis using s2 by (simp add: lab_update_def)
qed

theorem lab_drop_undone_witness:
  "\<exists>x. labCalls (wake 0 2 (snd (lab_participants ''/v1/participants/p1/drop'' ''c1'' (wake 0 1
      (snd (lab_originate (Some \<lparr>loCallID = ''c1'', loDesiredMute = False\<rparr>) lab_start)))))) ''c1'' = Some x \<and>
     lcState x = ''IN_BRIDGE''"
proof -
  let ?i = "\<lparr>loCallID = ''c1'', loDesiredMute = False\<rparr>"
  obtain r s1 where o: "lab_originate (Some ?i) lab_start = (r, s1)" by fastforce
  obtain r' s2 where p: "lab_participants ''/v1/participants/p1/drop'' ''c1'' (wake 0 1 s1) = (r', s2)" by fastforce
  have "code (fst (lab_originate (Some ?i) lab_start)) = 200" by (simp add: lab_originate_def answer_def Let_def)
  then have "code r = 200" by (simp add: o)
  moreover have "HasSuffix ''/v1/participants/p1/drop'' ''/drop''" by (simp add: HasSuffix_def HasPrefix_iff)
  ultimately show ?thesis
    using lab_drop_undone [OF o, of 1 "''/v1/participants/p1/drop''" r' s2] o p by (simp add: lab_start_def numeral_2_eq_2)
qed

end
