(* ===== verification/FleetProps.thy ===== *)
theory FleetProps
  imports Fleet EdgeProps
begin

text \<open>
  Properties of the registry of nodes across its components: the round trip of a heartbeat, the way
  from a heartbeat to the placement of a call, the advertisements of the edges, and the kinds of
  values in the shared Redis store.
\<close>

section \<open>A heartbeat arrives as it was meant\<close>

lemma option_extension: "6 \<le> i \<Longrightarrow> i < 22 \<Longrightarrow> extension_header (option_names ! i)"
proof -
  assume i: "6 \<le> i" "i < 22"
  have "list_all (\<lambda>n. HasPrefix n ''X-'') (take 16 (drop 6 option_names))" by code_simp
  moreover have l: "length option_names = 23" by (simp add: option_names_def)
  have "take 16 (drop 6 option_names) ! (i - 6) = option_names ! i"
    and "i - 6 < length (take 16 (drop 6 option_names))"
    using i l by simp_all
  ultimately have "HasPrefix (option_names ! i) ''X-''" by (metis list_all_length)
  moreover have "header_name (option_names ! i)"
    using option_names_header i l by (simp add: list_all_length)
  ultimately show ?thesis by (simp add: extension_header_def)
qed

lemma header_read:
  assumes "sip_parser parse" and "parse (sip_text start hs) = Some req" and "start_line start" and "clean_headers hs"
    and "distinct (map (map lower_char) (map fst hs))" and "i < length hs" and "extension_header (fst (hs ! i))"
  shows "headerValue req (fst (hs ! i)) = snd (hs ! i)"
  using sip_parser.parse_header [OF assms(1-4,7)] lookup_nth [OF assms(5,6) refl] by simp

lemma heartbeat_values:
  assumes "sip_parser parse"
    and "parse (sip_text (options_start target) (options_headers environ cfg s sq)) = Some req"
    and "no_crlf target" and "neat_config cfg" and "neat_sidecar s"
  shows "headerValue req ''X-PhonArch-Node-ID'' = cfNodeID cfg"
    and "headerValue req ''X-PhonArch-Private-IP'' = cfPrivateIP cfg"
    and "headerValue req ''X-PhonArch-Media-Public-IP'' = cfMediaPublicIP cfg"
    and "headerValue req ''X-PhonArch-Control-URL'' = cfControlURL cfg"
    and "headerValue req ''X-PhonArch-SIP-UDP-Port'' = Itoa (cfSIPUDPPort cfg)"
    and "headerValue req ''X-PhonArch-SIP-TCP-Port'' = Itoa (cfSIPTCPPort cfg)"
    and "headerValue req ''X-PhonArch-Role'' = cfRole cfg"
    and "headerValue req ''X-PhonArch-Drain-State'' = cfDrainState cfg"
    and "headerValue req ''X-PhonArch-Capacity'' = Itoa (cfCapacity cfg)"
    and "headerValue req ''X-PhonArch-Active-Calls'' = Itoa (sActive s)"
    and "headerValue req ''X-PhonArch-Active-RTP-Sessions'' = Itoa (sActive s)"
    and "headerValue req ''X-PhonArch-RTP-Packets-Per-Second'' = Itoa (sActive s * 50)"
    and "headerValue req ''X-PhonArch-Active-Speakers'' = Itoa 0"
    and "headerValue req ''X-PhonArch-Active-Bridges'' = Itoa (sBridges s)"
    and "headerValue req ''X-PhonArch-Load-Score'' = FormatF6 (snd (snd (load environ s)))"
    and "headerValue req ''X-PhonArch-Node-Epoch'' = Itoa (sEpoch s)"
proof -
  let ?hs = "options_headers environ cfg s sq"
  have fst: "fst (?hs ! i) = option_names ! i" and len: "length ?hs = 23" if "i < 23" for i
  proof -
    have n: "length (map fst ?hs) = 23" unfolding option_names_fst by (simp add: option_names_def)
    then show "length ?hs = 23" by simp
    with that show "fst (?hs ! i) = option_names ! i" unfolding option_names_fst [of environ cfg s sq, symmetric] by simp
  qed
  have h: "headerValue req (option_names ! i) = snd (?hs ! i)" if i: "6 \<le> i" "i < 22" for i
    using header_read [OF assms(1,2) options_start_line [OF assms(3)] options_clean [OF assms(4,5)]
        option_names_distinct [folded option_names_fst [of environ cfg s sq]], of i] option_extension [OF i] fst [of i] len [of i] i
    by simp
  note eval = option_names_def options_headers_def node_headers_def load_def Let_def
  show "headerValue req ''X-PhonArch-Node-ID'' = cfNodeID cfg" using h [of 6] by (simp add: eval)
  show "headerValue req ''X-PhonArch-Private-IP'' = cfPrivateIP cfg" using h [of 7] by (simp add: eval)
  show "headerValue req ''X-PhonArch-Media-Public-IP'' = cfMediaPublicIP cfg" using h [of 8] by (simp add: eval)
  show "headerValue req ''X-PhonArch-Control-URL'' = cfControlURL cfg" using h [of 9] by (simp add: eval)
  show "headerValue req ''X-PhonArch-SIP-UDP-Port'' = Itoa (cfSIPUDPPort cfg)" using h [of 10] by (simp add: eval)
  show "headerValue req ''X-PhonArch-SIP-TCP-Port'' = Itoa (cfSIPTCPPort cfg)" using h [of 11] by (simp add: eval)
  show "headerValue req ''X-PhonArch-Role'' = cfRole cfg" using h [of 12] by (simp add: eval)
  show "headerValue req ''X-PhonArch-Drain-State'' = cfDrainState cfg" using h [of 13] by (simp add: eval)
  show "headerValue req ''X-PhonArch-Capacity'' = Itoa (cfCapacity cfg)" using h [of 14] by (simp add: eval)
  show "headerValue req ''X-PhonArch-Active-Calls'' = Itoa (sActive s)" using h [of 15] by (simp add: eval)
  show "headerValue req ''X-PhonArch-Active-RTP-Sessions'' = Itoa (sActive s)" using h [of 16] by (simp add: eval)
  show "headerValue req ''X-PhonArch-RTP-Packets-Per-Second'' = Itoa (sActive s * 50)" using h [of 17] by (simp add: eval)
  show "headerValue req ''X-PhonArch-Active-Speakers'' = Itoa 0" using h [of 18] by (simp add: eval)
  show "headerValue req ''X-PhonArch-Active-Bridges'' = Itoa (sBridges s)" using h [of 19] by (simp add: eval)
  show "headerValue req ''X-PhonArch-Load-Score'' = FormatF6 (snd (snd (load environ s)))" using h [of 20] by (simp add: eval)
  show "headerValue req ''X-PhonArch-Node-Epoch'' = Itoa (sEpoch s)" using h [of 21] by (simp add: eval)
qed

text \<open>The load that a sidecar reports is far from the largest double.\<close>

lemma getenvInt_pos: "0 < d \<Longrightarrow> 0 < getenvInt environ k d"
  by (simp add: getenvInt_def Let_def)

lemma load_small:
  assumes "\<bar>sActive s\<bar> < 2 ^ 50"
  shows "\<bar>snd (snd (load environ s))\<bar> \<le> 2 ^ 50"
proof -
  let ?c = "getenvInt environ ''NODE_CAPACITY'' 500"
  have "(1::rat) \<le> of_int ?c" using getenvInt_pos [of 500 environ "''NODE_CAPACITY''"] by simp
  then have c: "1 \<le> f64 (of_int ?c)" using f64_mono [of 1 "of_int ?c"] f64_power2 [of 0] by simp
  have "\<bar>sActive s\<bar> \<le> 2 ^ 50" using assms by simp
  then have "(of_int \<bar>sActive s\<bar> :: rat) \<le> of_int (2 ^ 50)" by (simp only: of_int_le_iff)
  then have "\<bar>of_int (sActive s)\<bar> \<le> (2::rat) ^ 50" by simp
  then have n: "\<bar>f64 (of_int (sActive s))\<bar> \<le> 2 ^ 50" by (rule f64_abs_le)
  have "\<bar>f64 (of_int (sActive s)) / f64 (of_int ?c)\<bar> = \<bar>f64 (of_int (sActive s))\<bar> / f64 (of_int ?c)"
    using c by (simp add: abs_divide)
  also have "\<dots> \<le> \<bar>f64 (of_int (sActive s))\<bar> / 1" using c by (intro divide_left_mono) simp_all
  also have "\<dots> \<le> 2 ^ 50" using n by simp
  finally show ?thesis unfolding load_def Let_def f64_div_def snd_conv by (rule f64_abs_le)
qed

lemma options_taken_in:
  assumes "sip_parser parse"
    and "sendOptions environ up cfg s target sq = [(target, msg)]" and "parse msg = Some req"
    and "no_crlf target" and "neat_config cfg" and "neat_sidecar s"
  shows "optionsHandler hex R now F ttl req e =
    (case registry_upsert R now F ttl (core_node environ cfg s) (rdb e) of
       (ok, r) \<Rightarrow> if ok then ([Respond 200 ''OK''], e\<lparr>rdb := r\<rparr>) else ([Respond 503 ''Redis Unavailable''], e))"
proof -
  have msg: "msg = sip_text (options_start target) (options_headers environ cfg s sq)"
    using assms(2) by (simp add: sendOptions_def split: if_splits)
  note v = heartbeat_values [OF assms(1) assms(3) [unfolded msg] assms(4-6)]
  have range: "cfSIPUDPPort cfg \<in> int64_range" "cfSIPTCPPort cfg \<in> int64_range" "cfCapacity cfg \<in> int64_range"
    "sActive s \<in> int64_range" "sActive s * 50 \<in> int64_range" "sBridges s \<in> int64_range" "sEpoch s \<in> int64_range"
    "0 \<in> int64_range" "cfSIPUDPPort cfg \<noteq> 0" "cfSIPTCPPort cfg \<noteq> 0"
    using assms(5,6) by (auto simp: neat_config_def neat_sidecar_def int64_range_def)
  have node: "(options_node req)\<lparr>pnLoadScore := sent_score (snd (snd (load environ s)))\<rparr> = core_node environ cfg s"
    using range by (simp add: options_node_def core_node_def v)
  have "\<bar>snd (snd (load environ s))\<bar> \<le> 2 ^ 59"
    using load_small [of s environ] assms(6) by (simp add: neat_sidecar_def)
  then have "ParseFloat hex (headerValue req ''X-PhonArch-Load-Score'') = Some (sent_score (snd (snd (load environ s))))"
    unfolding v by (rule ParseFloat_F6)
  moreover have "cfNodeID cfg \<noteq> ''''" using assms(5) by (simp add: neat_config_def)
  ultimately show ?thesis by (simp add: optionsHandler_def v node)
qed

text \<open>C15: a heartbeat arrives as it was meant: the edge's OPTIONS handler reads out of the sidecar's
  message, whatever edge it was sent to and however the SIP library parses it, exactly the node of the
  sidecar's configuration and state, its load rounded to six decimals, and answers 200 when the store
  takes it.\<close>

theorem heartbeat_roundtrip:
  assumes "sip_parser parse"
    and "sendOptions environ up cfg s target sq = [(target, msg)]" and "parse msg = Some req"
    and "no_crlf target" and "neat_config cfg" and "neat_sidecar s"
  shows "optionsHandler hex R now F ttl req e =
    (case registry_upsert R now F ttl (core_node environ cfg s) (rdb e) of
       (ok, r) \<Rightarrow> if ok then ([Respond 200 ''OK''], e\<lparr>rdb := r\<rparr>) else ([Respond 503 ''Redis Unavailable''], e))"
  using assms by (rule options_taken_in)

text \<open>A sidecar with the default configuration.\<close>

definition sample_cfg :: config where
  "sample_cfg = loadConfig (\<lambda>_. '''')"

definition sample_core :: sidecar where
  "sample_core = newStore ''core-127-0-0-1'' 7 ''i1''"

lemma sample_cfg_eq: "sample_cfg =
   \<lparr>cfNodeID = ''core-127-0-0-1'', cfPrivateIP = ''127.0.0.1'', cfMediaPublicIP = '''', cfRedisAddr = ''127.0.0.1:6379'',
    cfSIPUDPPort = 5060, cfSIPTCPPort = 5060, cfControlURL = ''http://127.0.0.1:9443'', cfSIPGoTargets = [],
    cfEventURL = ''http://127.0.0.1:8081/internal/v1/events'', cfRustPBXURL = ''http://127.0.0.1:9090'',
    cfListen = ''127.0.0.1:9443'', cfCapacity = 500, cfRole = ''listener'', cfDrainState = ''READY'',
    cfHeartbeatEvery = 2000000000\<rparr>"
  by (simp add: sample_cfg_def loadConfig_def getenv_def getenvInt_def getenvDuration_def int64_range_def
      derived_node_id_def replace_chars_def splitTargets_def)

lemma sample_neat: "neat_config sample_cfg" "neat_sidecar sample_core"
  by (simp_all add: sample_cfg_eq neat_config_def neat_sidecar_def sample_core_def newStore_def neat_def space_byte_def
      go_spaces_def int64_range_def)

definition no_hex :: "string \<Rightarrow> rat option" where
  "no_hex = (\<lambda>_. None)"

lemma first_field_nonempty:
  assumes "s \<noteq> []" and "\<not> space_byte (hd s)"
  shows "first_field s \<noteq> []"
proof -
  obtain c cs where s: "s = c # cs" using assms(1) by (cases s) auto
  then have c: "c \<notin> set (map hd go_spaces)" using assms(2) by (auto simp: space_byte_def)
  then have "List.find (\<lambda>p. p \<noteq> [] \<and> HasPrefix s p) go_spaces = None" using c by (intro find_hd_None) (auto simp: s)
  then have no: "\<not> (p \<noteq> [] \<and> HasPrefix s p)" if "p \<in> set go_spaces" for p
    using that by (simp add: find_None_all)
  have "[] \<notin> set go_spaces" by (simp add: go_spaces_def)
  with no have "\<not> (\<exists>p \<in> set go_spaces. HasPrefix (c # cs) p)" by (auto simp: s)
  moreover have "strip go_spaces s = s" using c by (intro strip_fixed find_hd_None) (auto simp: s)
  ultimately show ?thesis by (simp add: first_field_def s)
qed

lemma lab_parse_accepts: "start_line start \<Longrightarrow> clean_headers hs \<Longrightarrow> start \<noteq> [] \<Longrightarrow> \<not> space_byte (hd start) \<Longrightarrow>
    \<exists>req. lab_parse (sip_text start hs) = Some req"
  using split_sip_text [OF start_lineD clean_headersD] first_field_nonempty [of start]
  by (simp add: lab_parse_def Let_def)

definition sample_heartbeat :: string where
  "sample_heartbeat = sip_text (options_start ''127.0.0.1:5060'') (options_headers (\<lambda>_. '''') sample_cfg sample_core 1)"

lemma sample_target: "no_crlf ''127.0.0.1:5060''"
  by (simp add: no_crlf_def)

lemma sample_heartbeat_parses: "\<exists>req. lab_parse sample_heartbeat = Some req"
  unfolding sample_heartbeat_def
  by (rule lab_parse_accepts [OF options_start_line [OF sample_target] options_clean [OF sample_neat]])
    (simp_all add: options_start_def space_byte_def go_spaces_def)

definition empty_edge :: "redis_value ttl_map edge" where
  "empty_edge = \<lparr>cursor = 0, affinity = Map.empty, rdb = []\<rparr>"

lemma sample_sends: "sendOptions (\<lambda>_. '''') (\<lambda>_. True) sample_cfg sample_core ''127.0.0.1:5060'' 1 =
    [(''127.0.0.1:5060'', sample_heartbeat)]"
  by (simp add: sendOptions_def sample_heartbeat_def)

theorem heartbeat_roundtrip_witness:
  "\<exists>req e'. lab_parse sample_heartbeat = Some req \<and>
     optionsHandler no_hex ttl_client 0 redis_up 7000000000 req empty_edge = ([Respond 200 ''OK''], e') \<and>
     map fst (rdb e') = [''active-pbx:core-127-0-0-1'']"
proof -
  obtain req where req: "lab_parse sample_heartbeat = Some req" using sample_heartbeat_parses by blast
  from heartbeat_roundtrip [OF lab_sip.sip_parser_axioms sample_sends req sample_target sample_neat,
      of no_hex ttl_client 0 redis_up 7000000000 empty_edge]
  have "\<exists>e'. optionsHandler no_hex ttl_client 0 redis_up 7000000000 req empty_edge = ([Respond 200 ''OK''], e') \<and>
     map fst (rdb e') = [''active-pbx:core-127-0-0-1'']"
    by (simp add: registry_upsert_def redis_up_def ttl_client_def ttl_set_def empty_edge_def core_node_def
        pbx_key_def sample_cfg_eq Let_def)
  then obtain e' where "optionsHandler no_hex ttl_client 0 redis_up 7000000000 req empty_edge = ([Respond 200 ''OK''], e')"
    "map fst (rdb e') = [''active-pbx:core-127-0-0-1'']" by (elim exE conjE) (rule that)
  with req show ?thesis by (intro exI [of _ req] exI [of _ e'] conjI)
qed

section \<open>From the heartbeat to the placement of a call\<close>

lemma decode_node_json [simp]: "decode_node (node_json n) = Some (control_view n)"
  by (simp add: decode_node_def node_json_def control_view_def str_field_def int_field_def num_field_def)

lemma fetched_nodes:
  "registry_list R u F (rdb e) = Inr ns \<Longrightarrow> fetched_of st err (edge_nodes R u F x e) = NodeList (map control_view ns)"
proof -
  assume "registry_list R u F (rdb e) = Inr ns"
  moreover have "List.map_filter decode_node (map node_json ns) = map control_view ns"
    by (induction ns) (simp_all add: map_filter_simps)
  ultimately show ?thesis by (auto simp: edge_nodes_def fetched_of_def)
qed

text \<open>C14: a core that reports itself with free capacity, not draining and with a control URL, can be
  given calls while its lease lasts: the edge lists it, the control API decodes the listing, and the
  placement of a call succeeds with a node that is no more loaded than this one.\<close>

theorem heartbeat_placed:
  assumes "redis_store R" and "sip_parser parse"
    and "sendOptions environ up cfg s target sq = [(target, msg)]" and "parse msg = Some req"
    and "no_crlf target" and "neat_config cfg" and "neat_sidecar s"
    and "exec_ok F" and "0 < ttl" and "now \<le> u" and "u < now + ttl"
    and "scan_ok F'" and "get_ok F' (pbx_key (cfNodeID cfg))"
    and "cfPrivateIP cfg \<noteq> ''''" and "can_host callRole (control_view (core_node environ cfg s))"
  shows "\<exists>e' ns n. optionsHandler hex R now F ttl req e = ([Respond 200 ''OK''], e') \<and>
    fetched_of st err (edge_nodes R u F' x e') = NodeList ns \<and> control_view (core_node environ cfg s) \<in> set ns \<and>
    chooseNode ns callRole = Inr n \<and> n \<in> set ns \<and> LoadScore n \<le> sent_score (snd (snd (load environ s)))"
proof -
  have st: "edge_store R" using assms(1) by (simp add: edge_store_def)
  let ?n = "core_node environ cfg s"
  let ?n' = "?n\<lparr>pnLastSeenUnix := now div 1000000000\<rparr>"
  obtain r where up: "registry_upsert R now F ttl ?n (rdb e) = (True, r)"
    using assms(8) by (simp add: registry_upsert_def Let_def)
  have id: "pnNodeID ?n = cfNodeID cfg" by (simp add: core_node_def)
  have wf: "well_formed_node ?n"
    using assms(6,14) by (auto simp: well_formed_node_def core_node_def neat_config_def)
  obtain ns where ns: "registry_list R u F' r = Inr ns" "?n' \<in> set ns"
    using edge_store.listed_after_upsert [OF st up assms(9-11) wf assms(12)] assms(13) unfolding id by blast
  let ?ms = "map control_view ns" and ?m = "control_view ?n"
  have "control_view ?n' = ?m" by (simp add: control_view_def)
  with ns(2) have m: "?m \<in> set ?ms" by (metis image_eqI list.set_map)
  obtain n where n: "chooseNode ?ms callRole = Inr n"
    using control_placement.pick_total [OF m assms(15)] chooseNode_Inr by blast
  have "LoadScore n \<le> LoadScore ?m"
    using control_placement.pick_load [OF n [unfolded chooseNode_Inr] m assms(15)] .
  moreover have "LoadScore ?m = sent_score (snd (snd (load environ s)))" by (simp add: control_view_def core_node_def)
  moreover have "optionsHandler hex R now F ttl req e = ([Respond 200 ''OK''], e\<lparr>rdb := r\<rparr>)"
    using options_taken_in [OF assms(2-7), of hex R now F ttl e] by (simp add: up)
  moreover have "fetched_of st err (edge_nodes R u F' x (e\<lparr>rdb := r\<rparr>)) = NodeList ?ms"
    using fetched_nodes [of R u F' "e\<lparr>rdb := r\<rparr>" ns st err x] ns(1) by simp
  ultimately show ?thesis using m n chooseNode_can_host [OF n] by metis
qed
lemma sample_can_host: "can_host ''LISTENER'' (control_view (core_node (\<lambda>_. '''') sample_cfg sample_core))"
proof -
  have "\<not> root_node (control_view (core_node (\<lambda>_. '''') sample_cfg sample_core))"
    by (simp add: root_node_def control_view_def core_node_def sample_cfg_eq EqualFold_def lower_char_def char_code_def)
  then show ?thesis
    by (simp add: can_host_def control_view_def core_node_def sample_cfg_eq sample_core_def newStore_def)
qed

theorem heartbeat_placed_witness:
  "\<exists>req e' ns n. lab_parse sample_heartbeat = Some req \<and>
     optionsHandler no_hex ttl_client 0 redis_up 7000000000 req empty_edge = ([Respond 200 ''OK''], e') \<and>
     fetched_of '''' '''' (edge_nodes ttl_client 6999999999 redis_up '''' e') = NodeList ns \<and>
     chooseNode ns ''LISTENER'' = Inr n"
proof -
  obtain req where req: "lab_parse sample_heartbeat = Some req" using sample_heartbeat_parses by blast
  have "cfPrivateIP sample_cfg \<noteq> ''''" by (simp add: sample_cfg_eq)
  from heartbeat_placed [OF ttl_store.redis_store_axioms lab_sip.sip_parser_axioms sample_sends req sample_target
      sample_neat _ _ _ _ _ _ this sample_can_host, of redis_up 7000000000 0 6999999999 redis_up no_hex empty_edge "''''" "''''" "''''"]
  obtain e' ns n where "optionsHandler no_hex ttl_client 0 redis_up 7000000000 req empty_edge = ([Respond 200 ''OK''], e')"
    "fetched_of '''' '''' (edge_nodes ttl_client 6999999999 redis_up '''' e') = NodeList ns"
    "chooseNode ns ''LISTENER'' = Inr n"
    by (auto simp: redis_up_def)
  with req show ?thesis by (intro exI [of _ req] exI [of _ e'] exI [of _ ns] exI [of _ n] conjI)
qed

section \<open>Edges are found while they advertise themselves\<close>

text \<open>A series of writes, each with its time and outcome.\<close>

definition advert_writes :: "'r client \<Rightarrow> int \<Rightarrow> sipgo_advertisement \<Rightarrow> (int \<times> bool) list \<Rightarrow> 'r \<Rightarrow> 'r" where
  "advert_writes R lease adv ws r = foldl (\<lambda>r (t, ok). advert_write R lease adv t ok r) r ws"

lemma advert_writes_get:
  assumes "redis_store R" and "0 < lease" and "sorted (map fst ws)" and "(t, True) \<in> set ws" and "u < t + lease"
    and "\<forall>w \<in> set ws. fst w \<le> u"
  shows "\<exists>seen. rget R (advert_writes R lease adv ws r) u (sipgo_key (avNodeID adv)) =
    Some (AdvertValue (adv\<lparr>avLastSeenUnix := seen\<rparr>))"
  using assms(3-)
proof (induction ws rule: rev_induct)
  case Nil
  then show ?case by simp
next
  case (snoc w ws)
  obtain t' ok where w: "w = (t', ok)" by (cases w)
  have step: "advert_writes R lease adv (ws @ [w]) r = advert_write R lease adv t' ok (advert_writes R lease adv ws r)"
    by (simp add: advert_writes_def w)
  show ?case
  proof (cases ok)
    case True
    have "t \<le> t'" using snoc.prems(1,2) w by (auto simp: sorted_append)
    moreover have "t' \<le> u" using snoc.prems(4) w by simp
    ultimately show ?thesis
      using redis_store.get_set [OF assms(1,2), of t' u] snoc.prems(3) True
      by (auto simp: step advert_write_def)
  next
    case False
    then have "(t, True) \<in> set ws" using snoc.prems(2) w by auto
    with snoc False show ?thesis by (simp add: step advert_write_def sorted_append)
  qed
qed

text \<open>The events of a process that goes on running: the ticks of its timer and their outcomes.\<close>

definition ticks :: "int \<Rightarrow> int \<Rightarrow> bool list \<Rightarrow> advert_event list" where
  "ticks interval t0 oks = map (\<lambda>(k, ok). AdvertTick (t0 + (int k + 1) * interval) ok) (enumerate 0 oks)"

definition tick_times :: "int \<Rightarrow> int \<Rightarrow> bool list \<Rightarrow> (int \<times> bool) list" where
  "tick_times interval t0 oks = map (\<lambda>(k, ok). (t0 + int k * interval, ok)) (enumerate 0 oks)"

lemma advert_loop_writes:
  "advert_loop R lease adv (map (\<lambda>(t, ok). AdvertTick t ok) ws) r = advert_writes R lease adv ws r"
  by (induction ws arbitrary: r) (auto simp: advert_writes_def)

lemma enumerate_Suc: "enumerate (Suc n) xs = map (\<lambda>(k, x). (Suc k, x)) (enumerate n xs)"
  by (induction xs arbitrary: n) simp_all

lemma register_writes:
  "registerAdvertisement environ R lease t0 ok (ticks interval t0 oks) r =
     advert_writes R lease (advertisement environ t0) (tick_times interval t0 (ok # oks)) r"
proof -
  have t: "ticks interval t0 oks =
      map (\<lambda>(t, ok). AdvertTick t ok) (map (\<lambda>(k, ok). (t0 + (int k + 1) * interval, ok)) (enumerate 0 oks))"
    by (simp add: ticks_def case_prod_beta o_def)
  have "tick_times interval t0 (ok # oks) = (t0, ok) # map (\<lambda>(k, ok). (t0 + (int k + 1) * interval, ok)) (enumerate 0 oks)"
    by (simp add: tick_times_def enumerate_Suc case_prod_beta o_def algebra_simps)
  then show ?thesis
    unfolding registerAdvertisement_def Let_def t advert_loop_writes by (simp add: advert_writes_def)
qed

lemma tick_times_nth: "k < length oks \<Longrightarrow> tick_times i t0 oks ! k = (t0 + int k * i, oks ! k)"
  by (simp add: tick_times_def nth_enumerate_eq)

lemma length_tick_times [simp]: "length (tick_times i t0 oks) = length oks"
  by (simp add: tick_times_def)

lemma sorted_tick_times: "0 \<le> i \<Longrightarrow> sorted (map fst (tick_times i t0 oks))"
  by (auto simp: sorted_iff_nth_mono tick_times_nth mult_right_mono)

lemma sipPort_pos: "0 < fallback \<Longrightarrow> 0 < sipPort value fallback"
  by (auto simp: sipPort_def split: option.splits num_result.splits)

lemma sipgo_targets_loop_mem:
  "Some (ip, p) \<in> set es \<Longrightarrow> ip \<noteq> '''' \<Longrightarrow> 0 < p \<Longrightarrow> seen \<subseteq> set ts \<Longrightarrow>
     ip @ '':'' @ Itoa p \<in> set (sipgo_targets_loop seen ts es)"
proof (induction seen ts es rule: sipgo_targets_loop.induct)
  case (3 seen ts ip' port rest)
  have mono: "set ts \<subseteq> set (sipgo_targets_loop seen ts es)" for seen ts es
    by (induction seen ts es rule: sipgo_targets_loop.induct) (auto simp: Let_def)
  show ?case
  proof (cases "ip' = '''' \<or> port \<le> 0")
    case True
    with 3 show ?thesis by auto
  next
    case False
    let ?a = "ip' @ '':'' @ Itoa port"
    show ?thesis
    proof (cases "?a \<in> seen")
      case True
      with False "3.prems" "3.IH"(2) [OF False refl] mono [of ts seen rest] show ?thesis by (auto simp: Let_def)
    next
      case new: False
      have "?a \<in> set (sipgo_targets_loop (insert ?a seen) (ts @ [?a]) rest)"
        using mono [of "ts @ [?a]" "insert ?a seen" rest] by auto
      moreover have "insert ?a seen \<subseteq> set (ts @ [?a])" using "3.prems"(4) by auto
      ultimately show ?thesis
        using False new "3.prems" "3.IH"(3) [OF False refl new] by (auto simp: Let_def)
    qed
  qed
qed auto

lemma httpBase_neq_Nil: "httpBase v \<noteq> []"
proof -
  have "TrimRight v ''/'' \<noteq> []" if "c \<in> set v" "c \<noteq> CHR ''/''" for c
    using that by (auto simp: TrimRight_def)
  from this [of "CHR ''h''"] show ?thesis by (auto simp: httpBase_def HasPrefix_iff)
qed

lemma advertisement_fields:
  "avPrivateIP (advertisement environ t) \<noteq> ''''" "0 < avSIPUDPPort (advertisement environ t)"
  "avHTTPURL (advertisement environ t) \<noteq> ''''"
  by (simp_all add: advertisement_def edge_env_def sipPort_pos httpBase_neq_Nil Let_def)

lemma advert_scanned:
  assumes "redis_store R" and "get_ok F (sipgo_key (avNodeID adv))"
    and "rget R r u (sipgo_key (avNodeID adv)) = Some (AdvertValue (adv\<lparr>avLastSeenUnix := seen\<rparr>))"
  shows "Some (avHTTPURL adv) \<in> set (api_scan R u F r)"
    and "Some (avPrivateIP adv, avSIPUDPPort adv) \<in> set (snd (sidecar_scan R u F r))"
proof -
  have "HasPrefix (sipgo_key (avNodeID adv)) ''active-sipgo:''"
    unfolding sipgo_key_def by (rule HasPrefix_append)
  then have k: "sipgo_key (avNodeID adv) \<in> set (rscan R r u ''active-sipgo:'')"
    using assms(3) by (simp add: redis_store.scan_keys [OF assms(1)])
  have e: "advert_entry R u F r (sipgo_key (avNodeID adv)) = Some (adv\<lparr>avLastSeenUnix := seen\<rparr>)"
    using assms(2,3) by (simp add: advert_entry_def)
  show "Some (avHTTPURL adv) \<in> set (api_scan R u F r)"
    unfolding api_scan_def set_map by (rule image_eqI [OF _ k]) (simp add: e)
  show "Some (avPrivateIP adv, avSIPUDPPort adv) \<in> set (snd (sidecar_scan R u F r))"
    unfolding sidecar_scan_def snd_conv set_map by (rule image_eqI [OF _ k]) (simp add: e)
qed

text \<open>C18: an edge stays discoverable through failing writes. With a lease of at least three seconds, as
  long as the process runs and one of its last three writes to Redis succeeded, the control API finds
  its base URL and every sidecar its SIP address, whatever else is in the store.\<close>

theorem edge_stays_discoverable:
  assumes "redis_store R" and "3 * second \<le> lease" and "True \<in> set (take 3 (rev (ok # oks)))"
    and "t0 + int (length oks) * advert_interval lease \<le> u"
    and "u < t0 + (int (length oks) + 1) * advert_interval lease"
    and "scan_ok F" and "get_ok F (sipgo_key (avNodeID (advertisement environ t0)))"
    and "r' = registerAdvertisement environ R lease t0 ok (ticks (advert_interval lease) t0 oks) r"
  shows "httpBase (avHTTPURL (advertisement environ t0)) \<in> set (discoveredSipgoURLs (Some (api_scan R u F r'))) \<and>
    avPrivateIP (advertisement environ t0) @ '':'' @ Itoa (avSIPUDPPort (advertisement environ t0))
      \<in> set (discoverSIPGoTargets configured (Some (sidecar_scan R u F r')))"
proof -
  let ?i = "advert_interval lease" and ?adv = "advertisement environ t0" and ?n = "length oks"
  have i: "0 < ?i" "3 * ?i \<le> lease" "0 < lease"
    using assms(2) by (auto simp: advert_interval_def second_def Let_def)
  obtain j where "j < length (take 3 (rev (ok # oks)))" "take 3 (rev (ok # oks)) ! j"
    using assms(3) by (metis (full_types) in_set_conv_nth)
  then have j: "j < 3" "j < length (ok # oks)" "rev (ok # oks) ! j" by (simp_all del: rev.simps)
  define k where "k = ?n - j"
  have k: "k < length (ok # oks)" "(ok # oks) ! k" "?n \<le> k + 2" "k \<le> ?n"
    using j by (auto simp: k_def rev_nth simp del: rev.simps)
  define t where "t = t0 + int k * ?i"
  have mem: "(t, True) \<in> set (tick_times ?i t0 (ok # oks))"
    using tick_times_nth [OF k(1), of ?i t0] k(1,2) by (metis (full_types) length_tick_times nth_mem t_def)
  have "(int ?n + 1) * ?i \<le> (int k + 3) * ?i" using k(3) i(1) by (intro mult_right_mono) auto
  then have ut: "u < t + lease" using assms(5) i(2) by (simp add: t_def algebra_simps)
  have "fst w \<le> u" if w: "w \<in> set (tick_times ?i t0 (ok # oks))" for w
  proof -
    obtain m where m: "m < length (ok # oks)" "tick_times ?i t0 (ok # oks) ! m = w"
      using w unfolding in_set_conv_nth length_tick_times by (elim exE conjE) (rule that)
    have "fst w = t0 + int m * ?i" unfolding m(2) [symmetric] tick_times_nth [OF m(1)] by simp
    moreover have "int m * ?i \<le> int ?n * ?i" using m(1) i(1) by (intro mult_right_mono) simp_all
    ultimately show ?thesis using assms(4) by linarith
  qed
  then have "\<exists>seen. rget R r' u (sipgo_key (avNodeID ?adv)) = Some (AdvertValue (?adv\<lparr>avLastSeenUnix := seen\<rparr>))"
    unfolding assms(8) register_writes
    by (intro advert_writes_get [OF assms(1) i(3) sorted_tick_times mem ut]) (use i(1) in auto)
  then obtain seen where "rget R r' u (sipgo_key (avNodeID ?adv)) = Some (AdvertValue (?adv\<lparr>avLastSeenUnix := seen\<rparr>))" ..
  note scans = advert_scanned [OF assms(1,7) this]
  have "avHTTPURL ?adv \<in> set (map (\<lambda>a. case a of None \<Rightarrow> [] | Some u \<Rightarrow> u) (api_scan R u F r'))"
    using scans(1) by force
  then have "httpBase (avHTTPURL ?adv) \<in> set (discoveredSipgoURLs (Some (api_scan R u F r')))"
    using advertisement_fields(3) [of environ t0] by (auto simp: discoveredSipgoURLs_def)
  moreover have "avPrivateIP ?adv @ '':'' @ Itoa (avSIPUDPPort ?adv) \<in> set (sipgo_targets_loop {} [] (snd (sidecar_scan R u F r')))"
    using sipgo_targets_loop_mem [OF scans(2)] advertisement_fields [of environ t0] by simp
  ultimately show ?thesis
    using assms(6) by (auto simp: discoverSIPGoTargets_def sidecar_scan_def Let_def)
qed
theorem edge_stays_discoverable_witness:
  "httpBase (avHTTPURL (advertisement (\<lambda>_. '''') 0)) \<in> set (discoveredSipgoURLs (Some (api_scan ttl_client 5000000000 redis_up
     (registerAdvertisement (\<lambda>_. '''') ttl_client 7000000000 0 True (ticks (advert_interval 7000000000) 0 [False, False]) []))))"
  using edge_stays_discoverable [OF ttl_store.redis_store_axioms, of 7000000000 True "[False, False]" 0 5000000000 redis_up
      "\<lambda>_. ''''" _ "[]"]
  by (simp add: second_def advert_interval_def redis_up_def)

section \<open>The kinds of values in the shared store\<close>

text \<open>Every key has a prefix that tells what is stored under it, and the value carries the same id: an affinity
  entry lies under the key of its Call-ID, or under that of its Call-ID and tags.\<close>

fun kind_ok :: "string \<Rightarrow> redis_value \<Rightarrow> bool" where
  "kind_ok k (NodeValue n) = (k = pbx_key (pnNodeID n))"
| "kind_ok k (AffinityValue a) =
     (k = base_key (aeCallID a) \<or> aeCallID a \<noteq> '''' \<and> k = dialogKey (aeCallID a) (aeFromTag a) (aeToTag a))"
| "kind_ok k (AdvertValue a) = (k = sipgo_key (avNodeID a))"

definition typed_store :: "'r client \<Rightarrow> int \<Rightarrow> 'r \<Rightarrow> bool" where
  "typed_store R now r \<longleftrightarrow> (\<forall>u \<ge> now. \<forall>k v. rget R r u k = Some v \<longrightarrow> kind_ok k v)"

text \<open>What edges and sidecars do to the store at a time \<open>now\<close>, and the passing of time. An edge keeps
  its own memory from one request to the next; here it is whatever it may be.\<close>

inductive store_step :: "'r client \<Rightarrow> int \<times> 'r \<Rightarrow> int \<times> 'r \<Rightarrow> bool" for R where
  edge_handles: "edge_request hex R now F ttl tx req e = Some (acts, e') \<Longrightarrow> 0 < ttl \<Longrightarrow>
     store_step R (now, rdb e) (now, rdb e')"
| edge_deregisters: "edge_deregister R F body e = (resp, e') \<Longrightarrow> store_step R (now, rdb e) (now, rdb e')"
| edge_advertises: "0 < lease \<Longrightarrow> store_step R (now, r) (now, advert_write R lease adv now ok r)"
| edge_stops: "store_step R (now, r) (now, advert_loop R lease adv [AdvertStop ok] r)"
| core_deregisters: "store_step R (now, r) (now, deregister (Some R) ok cfg r)"
| time_passes: "now \<le> later \<Longrightarrow> store_step R (now, r) (later, r)"

lemma typed_set:
  assumes "redis_store R" and "typed_store R now r" and "0 < ttl" and "kind_ok k v"
  shows "typed_store R now (rset R r now k v ttl)"
  unfolding typed_store_def
proof (intro allI impI)
  fix u j w
  assume u: "now \<le> u" and w: "rget R (rset R r now k v ttl) u j = Some w"
  show "kind_ok j w"
  proof (cases "j = k")
    case True
    show ?thesis
    proof (cases "u < now + ttl")
      case True
      then show ?thesis using redis_store.get_set [OF assms(1,3) u] w assms(4) \<open>j = k\<close> by simp
    next
      case False
      then show ?thesis using redis_store.get_set_expired [OF assms(1,3)] w \<open>j = k\<close> by simp
    qed
  next
    case False
    then show ?thesis
      using redis_store.get_set_other [OF assms(1)] w assms(2) u by (simp add: typed_store_def)
  qed
qed

lemma typed_del: "redis_store R \<Longrightarrow> typed_store R now r \<Longrightarrow> typed_store R now (rdel R r k)"
  by (auto simp: typed_store_def redis_store.get_del)

lemma typed_bind:
  assumes "redis_store R" and "typed_store R now (rdb e)" and "bind_dialog R now F req dst ep e = (ok, e')"
  shows "typed_store R now (rdb e')"
  using assms
  by (auto simp: bind_dialog_def Let_def dialogKey_def intro!: typed_set split: prod.splits if_splits)

lemma typed_unbind: "redis_store R \<Longrightarrow> typed_store R now (rdb e) \<Longrightarrow> typed_store R now (rdb (unbind_dialog R F c e))"
  by (auto simp: unbind_dialog_def Let_def intro: typed_del)

lemma typed_invite:
  assumes "redis_store R" and "typed_store R now (rdb e)" and "invite R now F tx req e = (acts, e')"
  shows "typed_store R now (rdb e')"
proof (cases "snd (dialogTags req) = ''''")
  case False
  then show ?thesis using assms destination_cursor [of R now F req e] by (auto simp: invite_def split: prod.splits if_splits)
next
  case True
  obtain sel c where s: "selectNode (registry_list R now F (rdb e)) (cursor e) = (sel, c)" by fastforce
  show ?thesis
  proof (cases sel)
    case (Selected n)
    obtain ok e2 where b: "bind_dialog R now F req (node_destination n) (pnNodeEpoch n) (e\<lparr>cursor := c\<rparr>) = (ok, e2)" by fastforce
    have "typed_store R now (rdb e2)" by (rule typed_bind [OF assms(1) _ b]) (simp add: assms(2))
    then show ?thesis using assms(3) True s Selected b by (auto simp: invite_def split: if_splits)
  qed (use assms True s in \<open>auto simp: invite_def\<close>)
qed

lemma typed_inDialog:
  assumes "redis_store R" and "typed_store R now (rdb e)" and "inDialog R now F tx req e = (acts, e')"
  shows "typed_store R now (rdb e')"
proof -
  obtain d e1 where d: "destination R now F req e = (d, e1)" by fastforce
  then have "typed_store R now (rdb e1)" using destination_cursor [OF d] assms(2) by simp
  then show ?thesis
    using assms d typed_unbind by (auto simp: inDialog_def split: option.splits if_splits)
qed

lemma typed_request:
  assumes "redis_store R" and "typed_store R now (rdb e)" and "0 < ttl"
    and "edge_request hex R now F ttl tx req e = Some (acts, e')"
  shows "typed_store R now (rdb e')"
proof -
  consider "optionsHandler hex R now F ttl req e = (acts, e')" | "invite R now F tx req e = (acts, e')"
    | "inDialog R now F tx req e = (acts, e')" | "info_handler R now F tx req e = (acts, e')"
    using assms(4) by (auto simp: edge_request_def split: if_splits)
  then show ?thesis
  proof cases
    case 1
    then show ?thesis
      using assms(2)
      by (auto simp: optionsHandler_def registry_upsert_def Let_def
          intro!: typed_set [OF assms(1-3)] split: if_splits option.splits)
  next
    case 2
    with typed_invite [OF assms(1,2)] show ?thesis by blast
  next
    case 3
    with typed_inDialog [OF assms(1,2)] show ?thesis by blast
  next
    case 4
    obtain d e1 where d: "destination R now F req e = (d, e1)" by fastforce
    with 4 destination_cursor [OF d] assms(1,2) show ?thesis
      by (auto simp: info_handler_def Let_def split: if_splits dest: typed_inDialog)
  qed
qed

lemma typed_step:
  assumes "redis_store R" and "store_step R x y" and "typed_store R (fst x) (snd x)"
  shows "typed_store R (fst y) (snd y)"
  using assms(2,3)
proof cases
  case (edge_handles hex now F ttl tx req e acts e')
  with typed_request [OF assms(1)] assms(3) show ?thesis by fastforce
next
  case (edge_deregisters F body e resp e' now)
  then show ?thesis
    using assms(3) typed_del [OF assms(1)] by (auto simp: edge_deregister_def registry_remove_def split: option.splits if_splits)
next
  case (edge_advertises lease now r adv ok)
  then show ?thesis using assms(3) typed_set [OF assms(1)] by (auto simp: advert_write_def)
next
  case (edge_stops now r lease adv ok)
  then show ?thesis using assms(3) typed_del [OF assms(1)] by auto
next
  case (core_deregisters now r ok cfg)
  then show ?thesis using assms(3) typed_del [OF assms(1)] by (auto simp: deregister_def)
next
  case (time_passes now later r)
  then have "typed_store R now r" using assms(3) by simp
  then have "typed_store R later r"
    unfolding typed_store_def using order_trans [OF time_passes(3)] by blast
  then show ?thesis using time_passes by simp
qed

text \<open>C19: whatever edges and sidecars do to the Redis store they share, and whichever commands fail, a key
  holds the kind of value that its prefix says, under the id that the value carries: a scan for nodes
  meets only nodes under their own node ids, a lookup of a dialog only affinity entries that carry the Call-ID
  of the key, or the Call-ID and the tags, a scan for edges only advertisements under their own ids.\<close>

theorem shared_store_typed:
  assumes "redis_store R" and "(store_step R)\<^sup>*\<^sup>* (t0, r0) (t, r)" and "typed_store R t0 r0" and "rget R r t k = Some v"
  shows "(HasPrefix k ''active-pbx:'' \<longrightarrow> (\<exists>n. v = NodeValue n \<and> k = pbx_key (pnNodeID n))) \<and>
    (HasPrefix k ''sip-dialog:'' \<longrightarrow> (\<exists>a. v = AffinityValue a \<and>
       (k = base_key (aeCallID a) \<or> aeCallID a \<noteq> '''' \<and> k = dialogKey (aeCallID a) (aeFromTag a) (aeToTag a)))) \<and>
    (HasPrefix k ''active-sipgo:'' \<longrightarrow> (\<exists>a. v = AdvertValue a \<and> k = sipgo_key (avNodeID a)))"
proof -
  have "typed_store R (fst y) (snd y)" if "(store_step R)\<^sup>*\<^sup>* x y" "typed_store R (fst x) (snd x)" for x y
    using that by (induction rule: rtranclp_induct) (auto dest: typed_step [OF assms(1)])
  from this [OF assms(2)] assms(3) have "typed_store R t r" by simp
  then have "kind_ok k v" using assms(4) by (auto simp: typed_store_def)
  then show ?thesis
    by (cases v) (auto simp: pbx_key_def sipgo_key_def HasPrefix_iff base_key_def dialogKey_def)
qed

text \<open>The store of an edge with one live node after an INVITE.\<close>

theorem shared_store_typed_witness:
  "\<exists>a. rget ttl_client (rdb bound_edge) 0 (base_key ''call-1'') = Some (AffinityValue a) \<and> aeCallID a = ''call-1'' \<and>
     aeDestination a = ''10.0.0.5:5060''"
proof -
  let ?req = "sip_tags ''INVITE'' ''call-1'' ''a'' ''''"
  have "edge_request (\<lambda>_. None) ttl_client 0 redis_up 7000000000 True ?req idle_edge =
      Some ([Forward ''10.0.0.5:5060''], bound_edge)"
    by (simp add: edge_request_def sample_invite)
  then have "store_step ttl_client (0, rdb idle_edge) (0, rdb bound_edge)" by (rule edge_handles) simp
  then have run: "(store_step ttl_client)\<^sup>*\<^sup>* (0, rdb idle_edge) (0, rdb bound_edge)" by blast
  have typed: "typed_store ttl_client 0 (rdb idle_edge)"
    by (simp add: typed_store_def ttl_client_def ttl_get_def idle_edge_def pbx_key_def idle_pbx_def)
  let ?b = "bind_dialog ttl_client 0 redis_up ?req (node_destination idle_pbx) (pnNodeEpoch idle_pbx) (idle_edge\<lparr>cursor := 1\<rparr>)"
  have up: "fst ?b" by (simp add: bind_dialog_def redis_up_def Let_def)
  then have "snd ?b = bound_edge"
    by (simp add: bound_edge_def invite_def sample_selection Let_def split: prod.split)
  with up have b: "?b = (True, bound_edge)" by (simp add: prod_eq_iff)
  have "node_destination idle_pbx = ''10.0.0.5:5060''" by code_simp
  with ttl_edge.bind_base_get [OF b, of 0] obtain v where v: "rget ttl_client (rdb bound_edge) 0 (base_key ''call-1'') = Some v"
    "\<And>a. v = AffinityValue a \<Longrightarrow> aeDestination a = ''10.0.0.5:5060''" by auto
  have "HasPrefix (base_key ''call-1'') ''sip-dialog:''" by code_simp
  with shared_store_typed [OF ttl_store.redis_store_axioms run typed v(1)] obtain a where a: "v = AffinityValue a"
    "base_key ''call-1'' = base_key (aeCallID a) \<or> base_key ''call-1'' = dialogKey (aeCallID a) (aeFromTag a) (aeToTag a)" by blast
  have "False" if "''call-1'' = aeCallID a @ '':'' @ aeFromTag a @ '':'' @ aeToTag a"
  proof -
    have "CHR '':'' \<in> set ''call-1''" by (subst that) simp
    then show False by simp
  qed
  with a(2) have "aeCallID a = ''call-1''"
    by (auto simp: dialogKey_def base_key_def split: if_splits)
  with a(1) v show ?thesis by blast
qed

end
