(* ===== verification/SpeakerQueue.thy ===== *)
theory SpeakerQueue
  imports SpeakerProps
begin

text \<open>
  The abstract speaker queue of a room and the refinement: a queue is the list of the participants
  that ask to speak or speak, each with the stage of the request. A digit raises or lowers a hand, the
  operator lets a participant speak or leave; the handlers of theory Speakers do exactly that to the
  queue of one room and nothing to the others.
\<close>

section \<open>The specification\<close>

type_synonym queue = "(string \<times> string) list"

definition raise_spec :: "string \<Rightarrow> queue \<Rightarrow> queue" where
  "raise_spec p q = (if p \<in> fst ` set q then q else q @ [(p, ''QUEUED'')])"

definition lower_spec :: "string \<Rightarrow> queue \<Rightarrow> queue" where
  "lower_spec p q = filter (\<lambda>x. fst x \<noteq> p) q"

definition speak_spec :: "string \<Rightarrow> queue \<Rightarrow> queue" where
  "speak_spec p q = map (\<lambda>x. if fst x = p then (p, ''ACTIVE'') else x) q"

definition spec_digit :: "string \<Rightarrow> string \<Rightarrow> queue \<Rightarrow> queue" where
  "spec_digit digit = (if digit = ''#'' then lower_spec else raise_spec)"

definition spec_operator :: "string \<Rightarrow> string \<Rightarrow> queue \<Rightarrow> queue" where
  "spec_operator act = (if act = ''withdraw'' then lower_spec else speak_spec)"

text \<open>The abstraction.\<close>

definition queue_rows :: "string \<Rightarrow> request_row list \<Rightarrow> queue" where
  "queue_rows br rs =
     map (\<lambda>r. (rqParticipant r, rqStatus r)) (filter (\<lambda>r. rqBridge r = br \<and> open_request (rqStatus r)) rs)"

definition queue_of :: "string \<Rightarrow> db \<Rightarrow> queue" where
  "queue_of br d = queue_rows br (requests d)"

section \<open>Statements on the abstraction\<close>

lemma queue_rows_simps [simp]:
  "queue_rows br [] = []"
  "queue_rows br (r # rs) =
     (if rqBridge r = br \<and> open_request (rqStatus r) then [(rqParticipant r, rqStatus r)] else []) @ queue_rows br rs"
  "queue_rows br (rs @ rs') = queue_rows br rs @ queue_rows br rs'"
  by (simp_all add: queue_rows_def)

lemma queue_member: "p \<in> fst ` set (queue_rows br rs) \<longleftrightarrow> (\<exists>r \<in> set rs. open_for br p r)"
  by (induction rs) (auto simp: open_for_def)

lemma queue_withdraw:
  assumes "\<And>r. r \<in> set rs \<Longrightarrow> open_request (rqStatus r) \<Longrightarrow> mine r \<longleftrightarrow> rqBridge r = b \<and> rqParticipant r = p"
  shows "queue_rows br (update_where mine (withdrawn t) rs) =
    (if br = b then lower_spec p (queue_rows br rs) else queue_rows br rs)"
  using assms
proof (induction rs)
  case Nil
  then show ?case by (simp add: update_where_def lower_spec_def)
next
  case (Cons r rs)
  have "queue_rows br (update_where mine (withdrawn t) rs) =
      (if br = b then lower_spec p (queue_rows br rs) else queue_rows br rs)"
    using Cons by simp
  moreover have "\<not> open_request (rqStatus (withdrawn t r))" by (simp add: open_request_def withdrawn_def)
  ultimately show ?case
    using Cons.prems [of r] by (cases "open_request (rqStatus r)") (auto simp: update_where_def lower_spec_def)
qed

lemma queue_activate:
  assumes "\<And>r. r \<in> set rs \<Longrightarrow> mine r \<longleftrightarrow> rqBridge r = b \<and> rqParticipant r = p \<and> open_request (rqStatus r)"
  shows "queue_rows br (update_where mine (\<lambda>r. r\<lparr>rqStatus := ''ACTIVE'', rqGranted := g, rqGrantedBy := h\<rparr>) rs) =
    (if br = b then speak_spec p (queue_rows br rs) else queue_rows br rs)"
  using assms
proof (induction rs)
  case Nil
  then show ?case by (simp add: update_where_def speak_spec_def)
next
  case (Cons r rs)
  have "queue_rows br (update_where mine (\<lambda>r. r\<lparr>rqStatus := ''ACTIVE'', rqGranted := g, rqGrantedBy := h\<rparr>) rs) =
      (if br = b then speak_spec p (queue_rows br rs) else queue_rows br rs)"
    using Cons by simp
  moreover have "open_request ''ACTIVE''" by (simp add: open_request_def)
  ultimately show ?case
    using Cons.prems [of r] by (auto simp: update_where_def speak_spec_def)
qed

section \<open>Digits\<close>

lemma raise_hand_queue:
  assumes "raise_hand W l g d = Inr d'"
  shows "queue_of br d' = (if br = lgBridge l then raise_spec (lgParticipant l) (queue_of br d) else queue_of br d)"
proof -
  obtain q d1 where e: "enqueue q d = Some d1" "requests d' = requests d1" "rqBridge q = lgBridge l"
    "rqParticipant q = lgParticipant l" "rqStatus q = ''QUEUED''"
    using assms by (auto simp: raise_hand_def sql_exec_Inr Let_def sql_try_def split: sum.splits if_splits)
  have "open_request ''QUEUED''" by (simp add: open_request_def)
  then show ?thesis
    using e by (auto simp: queue_of_def raise_spec_def queue_member enqueue_def split: if_splits)
qed

lemma request_workspace:
  assumes "consistent d" and "q \<in> set (requests d)" and "(rqParticipant q, ws) \<in> pkeys d"
  shows "rqWorkspace q = ws"
proof -
  have "(rqParticipant q, rqWorkspace q) \<in> pkeys d" using assms(1,2) by (auto simp: consistent_def)
  then obtain p where "p \<in> set (participants d)" "paID p = rqParticipant q" "paWorkspace p = rqWorkspace q"
    by (auto simp: pkeys_def)
  with pkeys_unique [OF assms(1,3)] show ?thesis by simp
qed

lemma lower_hand_queue:
  assumes "consistent d" and "l \<in> set (legs d)" and "\<not> wfail W 1"
  shows "queue_of br (lower_hand W l g d) =
    (if br = lgBridge l then lower_spec (lgParticipant l) (queue_of br d) else queue_of br d)"
proof -
  let ?mine = "\<lambda>r. rqWorkspace r = lgWorkspace l \<and> open_for (lgBridge l) (lgParticipant l) r"
  have pk: "(lgParticipant l, lgWorkspace l) \<in> pkeys d" using assms(1,2) by (simp add: consistent_def)
  have "requests (lower_hand W l g d) = update_where ?mine (withdrawn (wnow W 1)) (requests d)"
    using assms(3) by (simp add: lower_hand_def Let_def sql_try_def on_request_def)
  moreover have "?mine r \<longleftrightarrow> rqBridge r = lgBridge l \<and> rqParticipant r = lgParticipant l"
    if "r \<in> set (requests d)" "open_request (rqStatus r)" for r
    using that request_workspace [OF assms(1) that(1)] pk by (auto simp: open_for_def)
  ultimately show ?thesis unfolding queue_of_def by (simp only: queue_withdraw)
qed

lemma digit_queue:
  assumes "consistent d" and "\<not> wfail W 1" and "dtmf W ok (Some i) d = (r, d')" and "code r = 202"
  shows "\<exists>l \<in> set (dtmf_legs i d). \<forall>br. queue_of br d' =
    (if br = lgBridge l then spec_digit (dtDigit i) (lgParticipant l) (queue_of br d) else queue_of br d)"
proof -
  obtain l where l: "l \<in> set (dtmf_legs i d)" "l \<in> set (legs d)" "dtDigit i = ''#'' \<longrightarrow> d' = lower_hand W l ''#'' d"
    "dtDigit i \<noteq> ''#'' \<longrightarrow> raise_hand W l (dtDigit i) d = Inr d'"
    by (rule dtmf_accepted [OF assms(3,4)])
  have "queue_of br d' =
      (if br = lgBridge l then spec_digit (dtDigit i) (lgParticipant l) (queue_of br d) else queue_of br d)" for br
    using l(3,4) lower_hand_queue [OF assms(1) l(2) assms(2)] raise_hand_queue [of W l "dtDigit i" d d']
    by (cases "dtDigit i = ''#''") (simp_all add: spec_digit_def)
  with l(1) show ?thesis by blast
qed

section \<open>The operator\<close>

lemma open_unique:
  assumes "exclusive d" and "q \<in> set (requests d)" and "r \<in> set (requests d)"
    and "open_request (rqStatus q)" and "open_request (rqStatus r)" and "rqBridge r = rqBridge q"
    and "rqParticipant r = rqParticipant q"
  shows "r = q"
proof -
  have "inj_on (\<lambda>r. (rqBridge r, rqParticipant r)) (set (filter (\<lambda>r. open_request (rqStatus r)) (requests d)))"
    using assms(1) by (simp add: exclusive_def one_request_def distinct_map del: set_filter)
  then show ?thesis using assms(2-) by (auto simp: inj_on_def)
qed

lemma request_id_unique:
  "exclusive d \<Longrightarrow> q \<in> set (requests d) \<Longrightarrow> r \<in> set (requests d) \<Longrightarrow> rqID r = rqID q \<Longrightarrow> r = q"
  by (auto simp: exclusive_def one_request_def distinct_map inj_on_def)

lemma mine_open:
  assumes "exclusive d" and "q \<in> set (requests d)" and "open_request (rqStatus q)" and "rqWorkspace q = ws"
    and "r \<in> set (requests d)"
  shows "rqID r = rqID q \<and> rqWorkspace r = ws \<longleftrightarrow>
    rqBridge r = rqBridge q \<and> rqParticipant r = rqParticipant q \<and> open_request (rqStatus r)"
  using open_unique [OF assms(1,2,5,3)] request_id_unique [OF assms(1,2,5)] assms(3,4) by auto

lemma withdraw_queue:
  assumes "exclusive d" and "q \<in> set (requests d)" and "open_request (rqStatus q)" and "rqWorkspace q = ws" and "\<not> wfail W 1"
  shows "queue_of br (withdraw_request W ws q d) =
    (if br = rqBridge q then lower_spec (rqParticipant q) (queue_of br d) else queue_of br d)"
proof -
  let ?mine = "\<lambda>r. rqID r = rqID q \<and> rqWorkspace r = ws \<and> open_request (rqStatus r)"
  have "requests (withdraw_request W ws q d) = update_where ?mine (withdrawn (wnow W 1)) (requests d)"
    using assms(5) by (simp add: withdraw_request_def Let_def sql_try_def on_request_def on_participant_def)
  moreover have "?mine r \<longleftrightarrow> rqBridge r = rqBridge q \<and> rqParticipant r = rqParticipant q"
    if "r \<in> set (requests d)" "open_request (rqStatus r)" for r
    using mine_open [OF assms(1-4) that(1)] that(2) by blast
  ultimately show ?thesis unfolding queue_of_def by (simp only: queue_withdraw)
qed

lemma grant_queue:
  assumes "exclusive d" and "q \<in> set (requests d)" and "open_request (rqStatus q)" and "rqWorkspace q = ws" and "\<not> wfail W 4"
  shows "queue_of br (grant_noted W ws q c k d) =
    (if br = rqBridge q then speak_spec (rqParticipant q) (queue_of br d) else queue_of br d)"
proof -
  let ?mine = "\<lambda>r. rqID r = rqID q \<and> rqWorkspace r = ws"
  have m: "?mine r \<longleftrightarrow> rqBridge r = rqBridge q \<and> rqParticipant r = rqParticipant q \<and> open_request (rqStatus r)"
    if "r \<in> set (requests d)" for r
    using mine_open [OF assms(1-4) that] .
  have none: "\<not> (\<exists>r \<in> set (requests d). ?mine r \<and>
      (\<exists>x \<in> set (requests d). \<not> ?mine x \<and> open_for (rqBridge r) (rqParticipant r) x))"
    using m by (auto simp: open_for_def)
  have "requests (grant_noted W ws q c k d) = update_where ?mine
      (\<lambda>r. r\<lparr>rqStatus := ''ACTIVE'', rqGranted := Some (wnow W 4), rqGrantedBy := Some ''admin''\<rparr>) (requests d)"
    using assms(5) none
    by (auto simp: grant_noted_def Let_def sql_try_def activate_request_def on_request_def on_participant_def on_leg_def)
  with m show ?thesis unfolding queue_of_def by (simp only: queue_activate)
qed

text \<open>C7: the requests of a room refine its abstract queue. An accepted digit of a caller is the
  specification's operation on the queue of the caller's room and leaves every other queue alone; so
  is an operator's decision on an open request, when its statement on the request does not fail.\<close>

theorem speaker_queue_refines:
  assumes "consistent d" and "exclusive d" and "\<not> wfail W 1" and "\<not> wfail W 4"
  shows "(dtmf W ok (Some i) d = (r, d') \<and> code r = 202 \<longrightarrow>
      (\<exists>l \<in> set (dtmf_legs i d). \<forall>br. queue_of br d' =
         (if br = lgBridge l then spec_digit (dtDigit i) (lgParticipant l) (queue_of br d) else queue_of br d))) \<and>
    (speakerRequestAction W F setting ws path d = (r, ps, d') \<and> code r = 200 \<longrightarrow>
      (\<exists>rid act q. speaker_path path = Some (rid, act) \<and> q \<in> set (requests d) \<and> rqID q = rid \<and>
        (open_request (rqStatus q) \<longrightarrow> (\<forall>br. queue_of br d' =
           (if br = rqBridge q then spec_operator act (rqParticipant q) (queue_of br d) else queue_of br d)))))"
proof (intro conjI impI)
  assume "dtmf W ok (Some i) d = (r, d') \<and> code r = 202"
  with digit_queue [OF assms(1,3)] show "\<exists>l \<in> set (dtmf_legs i d). \<forall>br. queue_of br d' =
      (if br = lgBridge l then spec_digit (dtDigit i) (lgParticipant l) (queue_of br d) else queue_of br d)" by blast
next
  assume a: "speakerRequestAction W F setting ws path d = (r, ps, d') \<and> code r = 200"
  then obtain rid act where p: "speaker_path path = Some (rid, act)"
    by (auto simp: speakerRequestAction_def split: option.splits)
  with a obtain q where q: "query_row W 0 (filter (\<lambda>r. rqID r = rid \<and> rqWorkspace r = ws) (requests d)) = Row q"
    by (auto simp: speakerRequestAction_def split: fetched_row.splits)
  from query_row_Row [OF this] have m: "q \<in> set (requests d)" "rqID q = rid" "rqWorkspace q = ws" by auto
  have "queue_of br d' = (if br = rqBridge q then spec_operator act (rqParticipant q) (queue_of br d) else queue_of br d)"
    if o: "open_request (rqStatus q)" for br
  proof (cases "act = ''withdraw''")
    case True
    then have "d' = withdraw_request W ws q d" using a p q by (simp add: speakerRequestAction_def)
    with withdraw_queue [OF assms(2) m(1) o m(3) assms(3)] True show ?thesis by (simp add: spec_operator_def)
  next
    case False
    then have "grant_request W F setting ws q d = (r, ps, d')" using a p q by (simp add: speakerRequestAction_def)
    then obtain c k where "d' = grant_noted W ws q c k d"
      using a by (auto simp: grant_request_def Let_def split: if_splits fetched_row.splits sum.splits option.splits)
    with grant_queue [OF assms(2) m(1) o m(3) assms(4)] False show ?thesis by (simp add: spec_operator_def)
  qed
  with p m show "\<exists>rid act q. speaker_path path = Some (rid, act) \<and> q \<in> set (requests d) \<and> rqID q = rid \<and>
      (open_request (rqStatus q) \<longrightarrow> (\<forall>br. queue_of br d' =
         (if br = rqBridge q then spec_operator act (rqParticipant q) (queue_of br d) else queue_of br d)))" by metis
qed

theorem speaker_queue_refines_witness:
  "queue_of ''r1'' (snd (dtmf fine True (Some (press ''0'')) raised_db)) = raise_spec ''p1'' (queue_of ''r1'' raised_db) \<and>
   queue_of ''r1'' raised_db = [(''p1'', ''QUEUED'')]"
proof -
  obtain r d where e: "dtmf fine True (Some (press ''0'')) raised_db = (r, d)" by fastforce
  have "code (fst (dtmf fine True (Some (press ''0'')) raised_db)) = 202" by code_simp
  then have c: "code r = 202" by (simp add: e)
  have "map (\<lambda>l. (lgBridge l, lgParticipant l)) (dtmf_legs (press ''0'') raised_db) = [(''r1'', ''p1'')]" by code_simp
  then have "(lgBridge l, lgParticipant l) = (''r1'', ''p1'')" if "l \<in> set (dtmf_legs (press ''0'') raised_db)" for l
    using that by (cases "dtmf_legs (press ''0'') raised_db") auto
  moreover have "\<not> wfail fine 1" "\<not> wfail fine 4" using fine_fine by (simp_all add: all_fine_def)
  ultimately have "queue_of ''r1'' d = raise_spec ''p1'' (queue_of ''r1'' raised_db)"
    using speaker_queue_refines [OF raised_ok, of fine True "press ''0''" r d] e c by (fastforce simp: spec_digit_def)
  moreover have "queue_of ''r1'' raised_db = [(''p1'', ''QUEUED'')]" by code_simp
  ultimately show ?thesis by (simp add: e)
qed

end
