(* ===== verification/EdgeToRooms.thy ===== *)
theory EdgeToRooms
  imports FleetProps AdminProps SpeakerQueue
begin

text \<open>
  Behaviour that only the components together have: the standalone heartbeat utility gives its node
  another epoch with every message, which the listing of a room takes for a restart of the node; and
  a digit that a caller dials at an edge reaches the queue of the caller's room.
\<close>

section \<open>The heartbeat of the standalone utility at the edge\<close>

definition tool_node :: "tool_config \<Rightarrow> int \<Rightarrow> pbx_node" where
  "tool_node c epoch =
     (let port = (\<lambda>p. if atoi_value p = 0 then 5060 else atoi_value p) in
      \<lparr>pnNodeID = tcNodeID c, pnPrivateIP = tcPrivateIP c, pnMediaPublicIP = tcMediaIP c,
       pnSIPUDPPort = port (tcSIPPort c), pnSIPTCPPort = port (tcTCPPort c), pnControlURL = tcControlURL c,
       pnRole = tcRole c, pnDrainState = tcDrain c, pnCapacity = tcCapacity c,
       pnActiveCalls = 0, pnActiveBridges = 0, pnActiveRTP = 0, pnRTPPacketsPerSecond = 0, pnActiveSpeakers = 0,
       pnLoadScore = 0, pnNodeEpoch = epoch, pnLastSeenUnix = 0\<rparr>)"

definition neat_tool :: "tool_config \<Rightarrow> bool" where
  "neat_tool c \<longleftrightarrow>
     neat (tcNodeID c) \<and> neat (tcPrivateIP c) \<and> neat (tcMediaIP c) \<and> neat (tcControlURL c) \<and> neat (tcSIPPort c) \<and>
     neat (tcTCPPort c) \<and> neat (tcRole c) \<and> neat (tcDrain c) \<and> neat (tcInstance c) \<and>
     tcNodeID c \<noteq> '''' \<and> tcSIPPort c \<noteq> '''' \<and> tcInstance c \<noteq> '''' \<and> tcCapacity c \<in> {1..<2 ^ 63} \<and>
     list_all no_crlf (tcTargets c)"

definition tool_names :: "string list" where
  "tool_names = filter (\<lambda>n. n \<notin> {''X-PhonArch-Active-RTP-Sessions'', ''X-PhonArch-RTP-Packets-Per-Second'',
     ''X-PhonArch-Active-Speakers''}) option_names"

lemma tool_names_fst: "map fst (tool_headers c sq now) = tool_names"
  by (simp add: tool_headers_def tool_names_def option_names_def)

lemma tool_clean: "neat_tool c \<Longrightarrow> clean_headers (tool_headers c sq now)"
proof -
  assume t: "neat_tool c"
  have "list_all neat (map snd (tool_headers c sq now))"
    using t by (auto simp: tool_headers_def neat_tool_def lt_gt_plain neat_def)
  then have "list_all clean (map snd (tool_headers c sq now))"
    using neat_clean by (auto simp: list_all_iff)
  moreover have "list_all header_name tool_names"
    using option_names_header by (auto simp: tool_names_def list_all_iff)
  ultimately show ?thesis by (simp add: clean_headers_parts tool_names_fst)
qed

lemma tool_names_distinct: "distinct (map (map lower_char) tool_names)"
  unfolding tool_names_def using option_names_distinct by (rule distinct_map_filter)

lemma tool_header_at:
  assumes "sip_parser parse" and "parse (sip_text (options_start target) (tool_headers c sq now)) = Some req"
    and "no_crlf target" and "neat_tool c"
  shows "extension_header n \<Longrightarrow> headerValue req n = lookup_header (tool_headers c sq now) n"
    and "i < 20 \<Longrightarrow> lookup_header (tool_headers c sq now) (tool_names ! i) = snd (tool_headers c sq now ! i)"
proof -
  show "extension_header n \<Longrightarrow> headerValue req n = lookup_header (tool_headers c sq now) n"
    using sip_parser.parse_header [OF assms(1,2) options_start_line [OF assms(3)] tool_clean [OF assms(4)]] .
  have l: "length (tool_headers c sq now) = 20" by (simp add: tool_headers_def)
  show "lookup_header (tool_headers c sq now) (tool_names ! i) = snd (tool_headers c sq now ! i)" if "i < 20"
    using lookup_nth [OF tool_names_distinct [folded tool_names_fst [of c sq now]], of i "tool_names ! i"] that l
    by (simp add: tool_names_fst [of c sq now, symmetric])
qed

lemma absent_header: "map lower_char n \<notin> set (map (map lower_char) (map fst hs)) \<Longrightarrow> lookup_header hs n = ''''"
  unfolding lookup_header_def by (induction hs) auto

lemma filtered_names:
  assumes "distinct (map f xs)" and "x \<in> set xs" and "\<not> P x"
  shows "f x \<notin> set (map f (filter P xs))"
  using assms by (auto simp: distinct_map inj_on_def)

lemma tool_absent:
  "lookup_header (tool_headers c sq now) ''X-PhonArch-Active-RTP-Sessions'' = ''''"
  "lookup_header (tool_headers c sq now) ''X-PhonArch-RTP-Packets-Per-Second'' = ''''"
  "lookup_header (tool_headers c sq now) ''X-PhonArch-Active-Speakers'' = ''''"
proof -
  have m: "lookup_header (tool_headers c sq now) n = ''''"
    if "n \<in> set option_names" "n \<in> {''X-PhonArch-Active-RTP-Sessions'', ''X-PhonArch-RTP-Packets-Per-Second'',
      ''X-PhonArch-Active-Speakers''}" for n
    by (rule absent_header, unfold tool_names_fst tool_names_def, rule filtered_names [OF option_names_distinct that(1)])
      (use that(2) in blast)
  show "lookup_header (tool_headers c sq now) ''X-PhonArch-Active-RTP-Sessions'' = ''''"
    and "lookup_header (tool_headers c sq now) ''X-PhonArch-RTP-Packets-Per-Second'' = ''''"
    and "lookup_header (tool_headers c sq now) ''X-PhonArch-Active-Speakers'' = ''''"
    by (rule m; simp add: option_names_def)+
qed

lemma extension_names: "n \<in> set (take 16 (drop 6 option_names)) \<Longrightarrow> extension_header n"
proof -
  assume n: "n \<in> set (take 16 (drop 6 option_names))"
  have l: "length option_names = 23" by (simp add: option_names_def)
  from n obtain i where "i < 16" "n = option_names ! (6 + i)"
    unfolding in_set_conv_nth by (auto simp: l)
  then show ?thesis using option_extension [of "6 + i"] by simp
qed

lemma no_number [simp]: "atoi_value '''' = 0"
  by code_simp

lemma digit_zero: "is_digit CHR ''0''" "digit_value CHR ''0'' = 0" "digits_value 0 ''0'' = 0"
  by (simp_all add: is_digit_def digit_value_def char_code_def)

lemma zero_value: "decimal_value ''0'' = Some 0"
  by (simp add: decimal_value_def decimal_exponent_def digit_zero Let_def)

lemma zero_not_special: "\<not> special_float ''0''"
  by (simp add: special_float_def lower_char_def char_code_def)

lemma zero_load [simp]: "ParseFloat hex ''0'' = Some 0"
  by (simp add: ParseFloat_def zero_value zero_not_special  max_float_def)

lemma tool_taken_in:
  assumes "sip_parser parse" and "(target, msg) \<in> set (tool_round up c sq clock)" and "parse msg = Some req"
    and "neat_tool c" and "\<forall>i. clock i \<in> int64_range"
  shows "\<exists>i. optionsHandler hex R now F ttl req e =
    (case registry_upsert R now F ttl (tool_node c (clock i)) (rdb e) of
       (ok, r) \<Rightarrow> if ok then ([Respond 200 ''OK''], e\<lparr>rdb := r\<rparr>) else ([Respond 503 ''Redis Unavailable''], e))"
proof -
  obtain i where i: "target \<in> set (tcTargets c)" "msg = sip_text (options_start target) (tool_headers c sq (clock i))"
    using assms(2) by (auto simp: tool_round_def in_set_enumerate_eq split: if_splits)
  let ?hs = "tool_headers c sq (clock i)"
  have plain: "no_crlf target" using i(1) assms(4) by (simp add: neat_tool_def list_all_iff)
  note at = tool_header_at [OF assms(1) assms(3) [unfolded i(2)] plain assms(4)]
  have named: "headerValue req (tool_names ! j) = snd (?hs ! j)" if j: "6 \<le> j" "j < 19" for j
  proof -
    have "list_all (\<lambda>n. n \<in> set (take 16 (drop 6 option_names))) (take 13 (drop 6 tool_names))"
      by (simp add: tool_names_def option_names_def)
    moreover have "length tool_names = 20" by (simp add: tool_names_def option_names_def)
    ultimately have "\<forall>n < 13. tool_names ! (6 + n) \<in> set (take 16 (drop 6 option_names))"
      by (simp add: list_all_length)
    from this [rule_format, of "j - 6"] j have "tool_names ! j \<in> set (take 16 (drop 6 option_names))" by simp
    then have "extension_header (tool_names ! j)" using extension_names j by simp
    with at(1) at(2) [of j] j show ?thesis by simp
  qed
  have absent: "headerValue req ''X-PhonArch-Active-RTP-Sessions'' = ''''"
    "headerValue req ''X-PhonArch-RTP-Packets-Per-Second'' = ''''" "headerValue req ''X-PhonArch-Active-Speakers'' = ''''"
    using at(1) [OF extension_names] tool_absent by (simp_all add: option_names_def)
  note eval = tool_names_def option_names_def tool_headers_def
  note v = named [of 6, simplified eval, simplified] named [of 7, simplified eval, simplified]
    named [of 8, simplified eval, simplified] named [of 9, simplified eval, simplified]
    named [of 10, simplified eval, simplified] named [of 11, simplified eval, simplified]
    named [of 12, simplified eval, simplified] named [of 13, simplified eval, simplified]
    named [of 14, simplified eval, simplified] named [of 15, simplified eval, simplified]
    named [of 16, simplified eval, simplified] named [of 17, simplified eval, simplified]
    named [of 18, simplified eval, simplified]
  have zero: "atoi_value ''0'' = 0"
    using atoi_value_Itoa [of 0] by (simp add: int64_range_def Itoa_def nat_digits.simps digit_char_def char_of_def bit_Suc_0_iff)
  have range: "tcCapacity c \<in> int64_range" "clock i \<in> int64_range" "tcNodeID c \<noteq> ''''"
    using assms(4,5) by (auto simp: neat_tool_def int64_range_def)
  have "(options_node req)\<lparr>pnLoadScore := 0\<rparr> = tool_node c (clock i)"
    using range by (simp add: options_node_def tool_node_def v absent zero Let_def)
  then have "optionsHandler hex R now F ttl req e =
    (case registry_upsert R now F ttl (tool_node c (clock i)) (rdb e) of
       (ok, r) \<Rightarrow> if ok then ([Respond 200 ''OK''], e\<lparr>rdb := r\<rparr>) else ([Respond 503 ''Redis Unavailable''], e))"
    using range by (simp add: optionsHandler_def v)
  then show ?thesis ..
qed

section \<open>What the listing of a room makes of it\<close>

definition over :: "string \<Rightarrow> string \<Rightarrow> db \<Rightarrow> bool" where
  "over ws c d \<longleftrightarrow> (\<forall>x \<in> set (legs d). lgID x = c \<and> lgWorkspace x = ws \<longrightarrow> terminal_leg (lgState x))"

lemma end_stale_legs:
  "legs (end_stale W k ws y d) =
    (if wfail W k then legs d
     else map (\<lambda>x. if lgID x = lgID y \<and> lgWorkspace x = ws \<and> \<not> terminal_leg (lgState x)
       then x\<lparr>lgState := ''ENDED'', lgEnded := coalesce_time (lgEnded x) (wnow W k),
              lgError := Some ''sidecar epoch changed; call no longer active''\<rparr> else x) (legs d))"
  by (simp add: end_stale_def sql_try_def on_leg_def update_where_def)

lemma ended_terminal: "terminal_leg ''ENDED''"
  by (simp add: terminal_leg_def)

lemma end_stale_over:
  assumes "\<not> wfail W k \<and> c = lgID y \<or> over ws c d"
  shows "over ws c (end_stale W k ws y d)"
  unfolding over_def
proof (intro ballI impI)
  fix x
  assume x: "x \<in> set (legs (end_stale W k ws y d))" "lgID x = c \<and> lgWorkspace x = ws"
  show "terminal_leg (lgState x)"
  proof (cases "wfail W k")
    case True
    with assms x show ?thesis by (simp add: end_stale_legs over_def)
  next
    case False
    with x(1) obtain z where z: "z \<in> set (legs d)"
      "x = (if lgID z = lgID y \<and> lgWorkspace z = ws \<and> \<not> terminal_leg (lgState z)
         then z\<lparr>lgState := ''ENDED'', lgEnded := coalesce_time (lgEnded z) (wnow W k),
              lgError := Some ''sidecar epoch changed; call no longer active''\<rparr> else z)"
      unfolding end_stale_legs by (simp only: if_False set_map) (elim imageE, rule that)
    show ?thesis
    proof (cases "lgID z = lgID y \<and> lgWorkspace z = ws \<and> \<not> terminal_leg (lgState z)")
      case True
      then show ?thesis by (simp add: z(2) ended_terminal)
    next
      case False
      then have "x = z" unfolding z(2) by (rule if_not_P)
      with False assms x(2) z(1) show ?thesis by (auto simp: over_def)
    qed
  qed
qed

lemma state_loop_over:
  "state_loop W k ws ep rows d = (js, d') \<Longrightarrow> \<forall>i. \<not> wfail W i \<Longrightarrow>
   (p, Some l) \<in> set rows \<and> stale_leg ep l \<or> over ws (lgID l) d \<Longrightarrow> over ws (lgID l) d'"
proof (induction rows arbitrary: k d js)
  case Nil
  then show ?case by simp
next
  case (Cons py rows)
  obtain q y where py: "py = (q, y)" by (cases py)
  let ?d = "if (case y of None \<Rightarrow> False | Some y \<Rightarrow> stale_leg ep y) then end_stale W k ws (the y) d else d"
  obtain js' where e: "state_loop W (Suc k) ws ep rows ?d = (js', d')"
    using Cons.prems(1) unfolding py by (auto simp: Let_def split: prod.splits)
  have "(p, Some l) \<in> set rows \<and> stale_leg ep l \<or> over ws (lgID l) ?d"
    using Cons.prems(2,3) end_stale_over by (auto simp: py)
  then show ?case by (rule Cons.IH [OF e Cons.prems(2)])
qed

lemma listing_ends_stale:
  assumes "bridgeState W F stamp created ws br d = (r, d')" and "code r = 200" and "\<forall>i. \<not> wfail W i"
    and "flNodes F 0 = Inr ns" and "p \<in> set (state_rows ws br d)" and "latest_leg ws p d = Some l"
    and "stale_leg (current_epochs ns) l"
  shows "over ws (lgID l) d'"
proof -
  let ?rows = "map (\<lambda>p. (p, latest_leg ws p d)) (state_rows ws br d)"
  obtain js where "state_loop W 5 ws (current_epochs ns) ?rows d = (js, d')"
    using assms(1-4)
    by (auto simp: bridgeState_def Let_def query_rows_def sql_failure_def split: fetched_row.splits sum.splits prod.splits if_splits)
  moreover have "(p, Some l) \<in> set ?rows" using assms(5,6) by force
  ultimately show ?thesis using state_loop_over [OF _ assms(3)] assms(7) by blast
qed

lemma current_epoch:
  assumes "distinct (map NodeID ns)" and "n \<in> set ns"
  shows "current_epochs ns (NodeID n) = Some (NodeEpoch n)"
proof -
  let ?m = "rev (map (\<lambda>n. (NodeID n, NodeEpoch n)) ns)"
  have "distinct (map fst ?m)" using assms(1) by (simp add: rev_map [symmetric] o_def)
  moreover have "(NodeID n, NodeEpoch n) \<in> set ?m" using assms(2) by simp
  ultimately show ?thesis unfolding current_epochs_def by (rule map_of_is_SomeI)
qed

text \<open>C20: a core that only runs the standalone heartbeat utility loses its calls. Every message gives the node
  the time of the message as its epoch, so once the edge has taken in a later message than the one
  under which a call was placed, the next listing of the call's room ends the call, though it may go on.\<close>

theorem tool_epoch_ends_calls:
  assumes "redis_store R" and "sip_parser parse"
    and "(target, msg) \<in> set (tool_round up c sq clock)" and "parse msg = Some req"
    and "neat_tool c" and "tcPrivateIP c \<noteq> ''''" and "\<forall>i. clock i \<in> int64_range \<and> lgEpoch l < clock i"
    and "exec_ok F" and "0 < ttl" and "now \<le> u" and "u < now + ttl" and "scan_ok F'" and "get_ok F' (pbx_key (tcNodeID c))"
    and "optionsHandler hex R now F ttl req e = (acts, e')"
    and "fetched_of st err (edge_nodes R u F' x e') = NodeList ns" and "distinct (map NodeID ns)" and "flNodes FL 0 = Inr ns"
    and "p \<in> set (state_rows ws br d)" and "latest_leg ws p d = Some l" and "lgNode l = tcNodeID c"
    and "lgEpoch l \<noteq> 0" and "lgID l \<noteq> ''''" and "lgState l \<noteq> ''''"
    and "\<not> terminal_leg (lgState l)" and "\<forall>i. \<not> wfail W i" and "bridgeState W FL stamp created ws br d = (r, d')" and "code r = 200"
  shows "\<forall>y \<in> set (legs d'). lgID y = lgID l \<and> lgWorkspace y = ws \<longrightarrow> terminal_leg (lgState y)"
proof -
  have st: "edge_store R" using assms(1) by (simp add: edge_store_def)
  obtain i where i: "optionsHandler hex R now F ttl req e =
    (case registry_upsert R now F ttl (tool_node c (clock i)) (rdb e) of
       (ok, r) \<Rightarrow> if ok then ([Respond 200 ''OK''], e\<lparr>rdb := r\<rparr>) else ([Respond 503 ''Redis Unavailable''], e))"
    using tool_taken_in [OF assms(2-5)] assms(7) by blast
  let ?n = "tool_node c (clock i)"
  let ?n' = "?n\<lparr>pnLastSeenUnix := now div 1000000000\<rparr>"
  obtain rd where up: "registry_upsert R now F ttl ?n (rdb e) = (True, rd)"
    using assms(8) by (simp add: registry_upsert_def Let_def)
  have e': "e' = e\<lparr>rdb := rd\<rparr>" using i assms(14) by (simp add: up)
  have n: "pnNodeID ?n = tcNodeID c" "well_formed_node ?n"
    using assms(5,6) by (simp_all add: tool_node_def well_formed_node_def neat_tool_def)
  obtain ps where ps: "registry_list R u F' rd = Inr ps" "?n' \<in> set ps"
    using edge_store.listed_after_upsert [OF st up assms(9-11) n(2) assms(12)] assms(13) unfolding n(1) by blast
  have "ns = map control_view ps"
    using fetched_nodes [of R u F' e' ps st err x] ps(1) assms(15) by (simp add: e')
  then have "control_view ?n' \<in> set ns" using ps(2) by simp
  from current_epoch [OF assms(16) this] have "current_epochs ns (tcNodeID c) = Some (clock i)"
    by (simp add: control_view_def tool_node_def)
  then have "stale_leg (current_epochs ns) l"
    using assms(7,20-24) by (auto simp: stale_leg_def dest: spec [of _ i])
  from listing_ends_stale [OF assms(26,27,25,17,18,19) this] show ?thesis by (simp add: over_def)
qed
text \<open>A utility for the node \<open>core-1\<close> with one target.\<close>

definition sample_tool :: tool_config where
  "sample_tool = load_tool (\<lambda>k. if k = ''NODE_ID'' then ''core-1''
     else if k = ''SIPGO_HEARTBEAT_TARGETS'' then ''127.0.0.1:5060'' else '''') 42"

lemma five_hundred: "atoi_value ''500'' = 500"
  by (simp add: atoi_value_def Atoi_def ParseInt_def ParseUint_def clamp_int64_def max_uint64_def Let_def is_digit_def
      digit_value_def char_code_def)

lemma sample_trim: "TrimSpace ''127.0.0.1:5060'' = ''127.0.0.1:5060''"
  by (rule TrimSpace_id) (simp_all add: space_byte_def go_spaces_def)

lemma sample_tool_eq: "sample_tool =
   \<lparr>tcNodeID = ''core-1'', tcPrivateIP = ''127.0.0.1'', tcMediaIP = '''', tcControlURL = '''', tcSIPPort = ''5060'',
    tcTCPPort = ''5060'', tcRole = ''listener'', tcDrain = ''READY'', tcCapacity = 500, tcTargets = [''127.0.0.1:5060''],
    tcInterval = 2000000000, tcInstance = Itoa 42\<rparr>"
  by (simp add: sample_tool_def load_tool_def getenv_def ParseDuration_samples heartbeat_targets_def five_hundred sample_trim int64_range_def Let_def)

definition sample_round :: string where
  "sample_round = sip_text (options_start ''127.0.0.1:5060'') (tool_headers sample_tool 1 1000)"

lemma sample_tool_neat: "neat_tool sample_tool"
  using neat_Itoa [of 42] by (simp add: sample_tool_eq neat_tool_def neat_def space_byte_def go_spaces_def)

lemma sample_round_in: "(''127.0.0.1:5060'', sample_round) \<in> set (tool_round (\<lambda>_. True) sample_tool 1 (\<lambda>_. 1000))"
  by (simp add: tool_round_def sample_round_def sample_tool_eq)

lemma sample_round_parses: "\<exists>req. lab_parse sample_round = Some req"
  unfolding sample_round_def
  by (rule lab_parse_accepts [OF options_start_line [OF sample_target] tool_clean [OF sample_tool_neat]])
    (simp_all add: options_start_def space_byte_def go_spaces_def)

definition tool_seen :: pbx_node where
  "tool_seen = tool_node sample_tool 1000"

lemma tool_seen_simps: "tool_seen\<lparr>pnLastSeenUnix := 0\<rparr> = tool_seen" "pnNodeID tool_seen = ''core-1''" "well_formed_node tool_seen"
  by (simp_all add: tool_seen_def tool_node_def well_formed_node_def sample_tool_eq)

lemma sample_round_stored:
  assumes "lab_parse sample_round = Some req"
  shows "\<exists>e'. optionsHandler no_hex ttl_client 0 redis_up 7000000000 req empty_edge = ([Respond 200 ''OK''], e') \<and>
      registry_list ttl_client 5 redis_up (rdb e') = Inr [tool_seen]"
proof -
  have "optionsHandler no_hex ttl_client 0 redis_up 7000000000 req empty_edge =
      ([Respond 200 ''OK''], empty_edge\<lparr>rdb := [(''active-pbx:core-1'', NodeValue tool_seen, 7000000000)]\<rparr>)"
    using tool_taken_in [OF lab_sip.sip_parser_axioms sample_round_in assms sample_tool_neat,
        of no_hex ttl_client 0 redis_up 7000000000 empty_edge]
    by (simp add: int64_range_def registry_upsert_def redis_up_def Let_def empty_edge_def tool_seen_def [symmetric]
        tool_seen_simps pbx_key_def ttl_client_def ttl_set_def)
  moreover have "registry_list ttl_client 5 redis_up [(''active-pbx:core-1'', NodeValue tool_seen, 7000000000)] = Inr [tool_seen]"
    by (simp add: registry_list_def redis_up_def ttl_client_def ttl_scan_def ttl_get_def listed_node_def tool_seen_simps
        map_filter_simps HasPrefix_iff)
  ultimately show ?thesis by (intro exI [of _ "empty_edge\<lparr>rdb := [(''active-pbx:core-1'', NodeValue tool_seen, 7000000000)]\<rparr>"]) simp
qed
definition tool_fleet :: fleet where
  "tool_fleet = sample_fleet\<lparr>flNodes := \<lambda>_. Inr [\<lparr>NodeID = ''core-1'', ControlURL = '''', PrivateIP = ''127.0.0.1'',
     MediaPublicIP = '''', Role = ''listener'', DrainState = ''READY'', Capacity = 500, ActiveCalls = 0, ActiveRTP = 0,
     RTPPacketsPerSecond = 0, ActiveSpeakers = 0, LoadScore = 0, NodeEpoch = 1000\<rparr>]\<rparr>"

lemma tool_fleet_nodes: "flNodes tool_fleet 0 = Inr [control_view tool_seen]"
  by (simp add: tool_fleet_def control_view_def tool_seen_def tool_node_def sample_tool_eq)

definition stale_sample :: leg_row where
  "stale_sample = hd (legs sample_stale)"

theorem tool_epoch_ends_calls_witness:
  "list_all (\<lambda>y. terminal_leg (lgState y))
     (legs (snd (bridgeState fine tool_fleet (\<lambda>_. JNull) (\<lambda>_. JNull) ''w1'' ''r1'' sample_stale))) \<and>
   lgState stale_sample = ''ANSWERED''"
proof -
  let ?B = "bridgeState fine tool_fleet (\<lambda>_. JNull) (\<lambda>_. JNull) ''w1'' ''r1'' sample_stale"
  obtain req where req: "lab_parse sample_round = Some req" using sample_round_parses by blast
  obtain e' where e': "optionsHandler no_hex ttl_client 0 redis_up 7000000000 req empty_edge = ([Respond 200 ''OK''], e')"
    "registry_list ttl_client 5 redis_up (rdb e') = Inr [tool_seen]"
    using sample_round_stored [OF req] by (elim exE conjE) (rule that)
  have f: "fetched_of '''' '''' (edge_nodes ttl_client 5 redis_up '''' e') = NodeList [control_view tool_seen]"
    using fetched_nodes [OF e'(2), of "''''" "''''" "''''"] by simp
  have leg: "lgEpoch stale_sample = 6" "lgNode stale_sample = ''core-1''" "lgID stale_sample = ''c1''"
    "lgState stale_sample = ''ANSWERED''" "\<not> terminal_leg (lgState stale_sample)"
    by (simp_all add: stale_sample_def sample_stale_def terminal_leg_def)
  have row: "participants sample_stale ! 1 \<in> set (state_rows ''w1'' ''r1'' sample_stale)
      \<and> latest_leg ''w1'' (participants sample_stale ! 1) sample_stale = Some stale_sample"
    by code_simp
  have code: "code (fst ?B) = 200" by code_simp
  have fine: "\<forall>i. \<not> wfail fine i" using fine_fine by (simp add: all_fine_def)
  have tool: "tcNodeID sample_tool = ''core-1''" "tcPrivateIP sample_tool \<noteq> ''''" by (simp_all add: sample_tool_eq)
  obtain r d' where B: "?B = (r, d')" by fastforce
  have "\<forall>y \<in> set (legs d'). lgID y = lgID stale_sample \<and> lgWorkspace y = ''w1'' \<longrightarrow> terminal_leg (lgState y)"
    by (rule tool_epoch_ends_calls [OF ttl_store.redis_store_axioms lab_sip.sip_parser_axioms sample_round_in req
        sample_tool_neat tool(2) _ _ _ _ _ _ _ e'(1) f _ tool_fleet_nodes conjunct1 [OF row] conjunct2 [OF row] _ _ _ _ _ fine B])
      (use leg tool code in \<open>simp_all add: int64_range_def redis_up_def B\<close>)
  moreover have "map (\<lambda>y. (lgID y, lgWorkspace y)) (legs (snd ?B)) = [(''c1'', ''w1'')]" by code_simp
  ultimately show ?thesis using leg by (cases "legs d'") (auto simp: B)
qed
section \<open>From the keypad to the queue\<close>

text \<open>Decoding the document of a digit.\<close>

definition decode_dtmf :: "json \<Rightarrow> dtmf_in option" where
  "decode_dtmf j =
     do {
       c \<leftarrow> str_field ''call_id'' j; f \<leftarrow> str_field ''from_tag'' j; t \<leftarrow> str_field ''to_tag'' j;
       g \<leftarrow> str_field ''digit'' j; w \<leftarrow> str_field ''workspace_id'' j; b \<leftarrow> str_field ''room_id'' j;
       p \<leftarrow> str_field ''participant_id'' j;
       Some \<lparr>dtCallID = c, dtDigit = g, dtWorkspaceID = w, dtRoomID = b, dtParticipantID = p\<rparr>
     }"

lemma decode_notified:
  "decode_dtmf (snd (snd (notifyDTMF environ stamp now req dg))) =
    Some \<lparr>dtCallID = call_id_of req, dtDigit = dg, dtWorkspaceID = headerValue req ''X-PhonArch-Workspace-ID'',
          dtRoomID = headerValue req ''X-PhonArch-Room-ID'', dtParticipantID = headerValue req ''X-PhonArch-Participant-ID''\<rparr>"
  by (simp add: decode_dtmf_def notifyDTMF_def dtmf_payload_def str_field_def split: prod.splits)

text \<open>The calls that an INFO request can mean: those of the participant it names, else those that carry
  its Call-ID in one of three places.\<close>

definition means_call :: "sip_request \<Rightarrow> leg_row \<Rightarrow> bool" where
  "means_call req l \<longleftrightarrow>
     (let p = headerValue req ''X-PhonArch-Participant-ID''; c = call_id_of req in
      \<not> terminal_leg (lgState l) \<and>
      (if p \<noteq> '''' then lgParticipant l = p else lgID l = c \<or> lgPBXCall l = Some c \<or> lgSIPCall l = Some c))"

lemma inDialog_no_notify: "NotifyDTMF dg \<notin> set (fst (inDialog R now F tx req e))"
  by (auto simp: inDialog_def forward_def Let_def split: prod.splits option.splits if_splits)

text \<open>C16: a digit dialled in a call reaches the queue of the caller's room: when the edge reports a digit
  and the control API accepts the report, the specification's operation for this digit is done for the
  caller of a live call that the INFO request means, in that call's room only; of the sixteen digits
  all but 0 and # are refused and change nothing.\<close>

theorem digit_reaches_queue:
  assumes "info_handler R now F tx req e = (acts, e')" and "NotifyDTMF dg \<in> set acts"
    and "notifyDTMF environ stamp now req dg = (url, token, j)" and "dtmf W allowed (decode_dtmf j) d = (r, d')"
    and "consistent d" and "\<not> wfail W 1"
  shows "dg = parseDTMF req \<and> (dg \<notin> {''0'', ''#''} \<longrightarrow> code r \<in> {400, 403} \<and> d' = d) \<and>
    (code r = 202 \<longrightarrow> (\<exists>l \<in> set (legs d). means_call req l \<and> (\<forall>br. queue_of br d' =
       (if br = lgBridge l then spec_digit dg (lgParticipant l) (queue_of br d) else queue_of br d))))"
proof (intro conjI impI)
  let ?i = "\<lparr>dtCallID = call_id_of req, dtDigit = dg, dtWorkspaceID = headerValue req ''X-PhonArch-Workspace-ID'',
    dtRoomID = headerValue req ''X-PhonArch-Room-ID'', dtParticipantID = headerValue req ''X-PhonArch-Participant-ID''\<rparr>"
  have j: "decode_dtmf j = Some ?i" using decode_notified [of environ stamp now req dg] by (simp add: assms(3))
  show "dg = parseDTMF req"
    using assms(1,2) inDialog_no_notify [of dg R now F tx req e]
    by (auto simp: info_handler_def Let_def split: if_splits prod.splits)
  show "code r \<in> {400, 403}" "d' = d" if "dg \<notin> {''0'', ''#''}"
    using assms(4) that by (auto simp: j dtmf_def answer_error_def answer_def split: if_splits)
  assume "code r = 202"
  from digit_queue [OF assms(5,6) assms(4) [unfolded j] this]
  obtain l where l: "l \<in> set (dtmf_legs ?i d)" "\<forall>br. queue_of br d' =
      (if br = lgBridge l then spec_digit dg (lgParticipant l) (queue_of br d) else queue_of br d)" by auto
  then have "l \<in> set (legs d)" "means_call req l" by (auto simp: dtmf_legs_def means_call_def Let_def)
  with l(2) show "\<exists>l \<in> set (legs d). means_call req l \<and> (\<forall>br. queue_of br d' =
      (if br = lgBridge l then spec_digit dg (lgParticipant l) (queue_of br d) else queue_of br d))" by blast
qed
definition digit_request :: sip_request where
  "digit_request = \<lparr>reqMethod = ''INFO'',
     GetHeaders = (\<lambda>n. if n = ''Content-Type'' then [''application/dtmf-relay''] else []),
     CallID = Some ''id8'', FromParams = None, ToParams = None, Body = ''Signal=0''\<rparr>"

definition busy_edge :: "redis_value ttl_map edge" where
  "busy_edge = empty_edge\<lparr>affinity := [''id8'' \<mapsto> \<lparr>aeCallID = ''id8'', aeDestination = ''10.0.0.5:5060'',
     aeFromTag = '''', aeToTag = '''', aeNodeEpoch = 7, aeExpiresAt = 100\<rparr>]\<rparr>"

lemma digit_request_digit: "parseDTMF digit_request = ''0''"
proof -
  have c: "contains (lower_ascii (headerValue digit_request ''Content-Type'')) ''dtmf''" by code_simp
  have s: "dtmf_search True ''Signal=0'' = Some CHR ''0''" by code_simp
  have t: "map upper_char (TrimSpace [CHR ''0'']) = ''0''" by code_simp
  show ?thesis using c s t by (simp add: parseDTMF_def digit_request_def)
qed

lemma digit_request_handled:
  "info_handler ttl_client 0 redis_up True digit_request busy_edge = ([NotifyDTMF ''0'', Respond 200 ''OK''], busy_edge)"
  using digit_request_digit
  by (simp add: info_handler_def destination_def busy_edge_def call_id_of_def digit_request_def dialogTags_def Let_def)

theorem digit_reaches_queue_witness:
  "let j = snd (snd (notifyDTMF (\<lambda>_. '''') (\<lambda>_. JNull) 0 digit_request ''0'')) in
   queue_of ''r1'' (snd (dtmf fine True (decode_dtmf j) sample_started)) = [(''p1'', ''QUEUED'')] \<and>
   queue_of ''r1'' sample_started = []"
proof -
  obtain url token j where n: "notifyDTMF (\<lambda>_. '''') (\<lambda>_. JNull) 0 digit_request ''0'' = (url, token, j)"
    by (metis prod_cases3)
  have i: "decode_dtmf j = Some (press ''0'')"
    using decode_notified [of "\<lambda>_. ''''" "\<lambda>_. JNull" 0 digit_request "''0''"] unfolding n snd_conv
    by (simp add: press_def call_id_of_def digit_request_def headerValue_def lower_char_def char_code_def)
  obtain r d where e: "dtmf fine True (decode_dtmf j) sample_started = (r, d)" by fastforce
  have "code (fst (dtmf fine True (Some (press ''0'')) sample_started)) = 202" by code_simp
  then have c: "code r = 202" using e by (simp add: i)
  have u: "\<not> wfail fine 1" using fine_fine by (simp add: all_fine_def)
  obtain l where l: "l \<in> set (legs sample_started)" "means_call digit_request l"
    "\<forall>br. queue_of br d = (if br = lgBridge l then spec_digit ''0'' (lgParticipant l) (queue_of br sample_started)
       else queue_of br sample_started)"
    using digit_reaches_queue [OF digit_request_handled _ n e sample_started_ok(1) u] c by auto
  have "map (\<lambda>l. (lgBridge l, lgParticipant l)) (legs sample_started) = [(''r1'', ''p1'')]" by code_simp
  then have "lgBridge l = ''r1''" "lgParticipant l = ''p1''" using l(1) by (cases "legs sample_started"; auto)+
  moreover have "queue_of ''r1'' sample_started = []" by code_simp
  ultimately show ?thesis using l(3) e by (simp add: n spec_digit_def raise_spec_def)
qed

end
