(* ===== verification/CallFlow.thy ===== *)
theory CallFlow
  imports EdgeToRooms HostWait ReportProps SessionProps SidecarFacts
begin

text \<open>
  From the start of a room to the conference: the events of a sidecar and the command that calls the host
  as documents, their decoding, the way of an answered host call from the engine's report to the running
  session, and a drop that a poll undoes.
\<close>

section \<open>The documents of the sidecar's events\<close>

text \<open>Fields with omitempty are left out when they have the zero value; \<open>stamp\<close> formats a time. Keys stand
  in the order of the code; the order in which encoding/json sends those of a map is of no account to a decoder.\<close>

definition call_json :: "(int \<Rightarrow> json) \<Rightarrow> call_state \<Rightarrow> json" where
  "call_json stamp c = JObj
     ([(''call_id'', JStr (csCallID c)), (''bridge_id'', JStr (csBridgeID c)), (''participant_id'', JStr (csParticipantID c))] @
      (if csPBXMemberID c = '''' then [] else [(''pbx_member_id'', JStr (csPBXMemberID c))]) @
      [(''destination'', JStr (csDestination c))] @
      (if csRole c = '''' then [] else [(''role'', JStr (csRole c))]) @
      [(''desired_mute'', JBool (csDesiredMute c)), (''state'', JStr (csState c)), (''muted'', JBool (csMuted c))] @
      (if csVolumeDB c = 0 then [] else [(''volume_db'', JNum (csVolumeDB c))]) @
      [(''updated_at'', stamp (csUpdatedAt c))])"

definition result_json :: "(string \<times> json) list option \<Rightarrow> json" where
  "result_json out = (case out of None \<Rightarrow> JNull | Some kvs \<Rightarrow> JObj kvs)"

definition call_event_json :: "(int \<Rightarrow> json) \<Rightarrow> string \<Rightarrow> string \<Rightarrow> int \<Rightarrow> string \<Rightarrow> call_state \<Rightarrow> json" where
  "call_event_json stamp typ node epoch inst c = JObj
     [(''type'', JStr typ), (''node_id'', JStr node), (''node_epoch'', JInt epoch), (''sidecar_instance_id'', JStr inst),
      (''call'', call_json stamp c)]"

definition participant_event_json :: "string \<Rightarrow> string \<Rightarrow> int \<Rightarrow> string \<Rightarrow> string \<Rightarrow> (string \<times> json) list option \<Rightarrow> json" where
  "participant_event_json typ node epoch p c out = JObj
     [(''type'', JStr typ), (''node_id'', JStr node), (''node_epoch'', JInt epoch), (''participant_id'', JStr p),
      (''call_id'', JStr c), (''result'', result_json out)]"

definition room_event_json ::
  "string \<Rightarrow> string \<Rightarrow> int \<Rightarrow> string \<Rightarrow> string \<Rightarrow> string \<Rightarrow> string \<Rightarrow> (string \<times> json) list option \<Rightarrow> json" where
  "room_event_json typ node epoch ws room p cmd out = JObj
     [(''type'', JStr typ), (''node_id'', JStr node), (''node_epoch'', JInt epoch), (''workspace_id'', JStr ws),
      (''room_id'', JStr room), (''participant_id'', JStr p), (''command_id'', JStr cmd), (''result'', result_json out)]"

definition event_json :: "(int \<Rightarrow> json) \<Rightarrow> sidecar_event \<Rightarrow> json" where
  "event_json stamp e =
     (case e of
        CallEvent typ node epoch inst c \<Rightarrow> call_event_json stamp typ node epoch inst c
      | ParticipantEvent typ node epoch p c out \<Rightarrow> participant_event_json typ node epoch p c out
      | RoomMediaEvent typ node epoch ws room p cmd out \<Rightarrow> room_event_json typ node epoch ws room p cmd out)"

text \<open>The decoding in \<open>events\<close>; the nested call is a struct, so a missing or null one is the zero value.\<close>

definition decode_call :: "json option \<Rightarrow> (string \<times> string \<times> string) option" where
  "decode_call j =
     (case j of
        None \<Rightarrow> Some ('''', '''', '''')
      | Some JNull \<Rightarrow> Some ('''', '''', '''')
      | Some (JObj kvs) \<Rightarrow>
          do {
            c \<leftarrow> str_field ''call_id'' (JObj kvs); st \<leftarrow> str_field ''state'' (JObj kvs);
            m \<leftarrow> str_field ''pbx_member_id'' (JObj kvs); Some (c, st, m)
          }
      | _ \<Rightarrow> None)"

definition decode_event :: "json \<Rightarrow> event_in option" where
  "decode_event j =
     do {
       t \<leftarrow> str_field ''type'' j; (c, st, m) \<leftarrow> decode_call (json_field ''call'' j);
       i \<leftarrow> str_field ''call_id'' j; s \<leftarrow> str_field ''state'' j;
       Some \<lparr>eiCallID = i, eiState = s, eiInnerCallID = c, eiInnerState = st, eiMember = m\<rparr>
     }"

lemma decode_call_event:
  "decode_event (event_json stamp (CallEvent typ node epoch inst c)) =
    Some \<lparr>eiCallID = '''', eiState = '''', eiInnerCallID = csCallID c, eiInnerState = csState c, eiMember = csPBXMemberID c\<rparr>"
  by (simp add: decode_event_def event_json_def call_event_json_def decode_call_def call_json_def str_field_def)

text \<open>Events about participants and rooms change nothing: they carry no state of a call.\<close>

lemma other_events_inert:
  "events W ok (decode_event (event_json stamp (ParticipantEvent typ node epoch p c out))) d = (r, d') \<Longrightarrow> d' = d"
  "events W ok (decode_event (event_json stamp (RoomMediaEvent typ node epoch ws room p cmd out))) d = (r, d') \<Longrightarrow> d' = d"
  by (auto simp: decode_event_def event_json_def participant_event_json_def room_event_json_def decode_call_def
      str_field_def events_def Let_def split: if_splits)

section \<open>The host's call ends\<close>

text \<open>C6: a report of a sidecar - the document it sends for one of its calls - that the call of the host of an
  active session has ended, failed or been dropped is accepted and closes the session, ENDED when it was running
  and FAILED when it was still starting, with its end and duration; everyone who was in it has a leaving time,
  and its room is open for a new start.\<close>

theorem host_hangup_closes:
  assumes "events W True (decode_event (event_json stamp (CallEvent typ node epoch inst call))) d = (r, d')" and "all_fine W"
    and "terminal_leg (csState call)" and "csCallID call \<noteq> ''''" and "host_sessions (csCallID call) d = s # rest"
  shows "code r = 202 \<and> closed_session W s \<in> set (sessions d') \<and>
    (\<forall>a \<in> set (attendance d'). atSession a = seID s \<longrightarrow> atLeft a \<noteq> None) \<and>
    (\<forall>b \<in> set (room_rows (seWorkspace s) (seBridge s) d'). \<not> busy (brState b))"
  using assms(1) unfolding decode_call_event
  by (rule host_hangup_reported [OF _ assms(2-4) _ _ assms(5)]) simp_all

definition hung_up :: remote_call where
  "hung_up = \<lparr>rcState = ''ENDED'', rcPBXMemberID = ''m1'', rcMuted = False, rcVolumeDB = 0\<rparr>"

text \<open>The call of the started room, as the sidecar holds it; its engine then answers that it has ended.\<close>

definition host_call :: call_state where
  "host_call = \<lparr>csCallID = ''id8'', csBridgeID = ''r1'', csParticipantID = ''p1'', csPBXMemberID = ''m1'',
     csDestination = ''+919820012345'', csRole = ''HOST'', csDesiredMute = False, csState = ''DISPATCHED'', csMuted = False,
     csVolumeDB = 0, csUpdatedAt = 0\<rparr>"

definition host_core :: sidecar where
  "host_core = (newStore ''core-1'' 7 ''i1'')\<lparr>sCalls := [(''id8'', host_call)], sActive := 1\<rparr>"

theorem host_hangup_closes_witness:
  "\<exists>e s. poll_tick 5 (\<lambda>_. Some hung_up) host_core = ([e], s) \<and>
     code (fst (events fine True (decode_event (event_json (\<lambda>_. JNull) e)) sample_started)) = 202 \<and>
     (\<exists>t \<in> set (sessions (snd (events fine True (decode_event (event_json (\<lambda>_. JNull) e)) sample_started))).
        seID t = ''id4'' \<and> seStatus t = ''FAILED'')"
proof -
  let ?call = "merge_remote 5 hung_up host_call"
  let ?e = "CallEvent ''call.state'' ''core-1'' 7 ''i1'' ?call"
  obtain s where p: "poll_tick 5 (\<lambda>_. Some hung_up) host_core = ([?e], s)"
    by (simp add: poll_tick_def poll_snapshot_def host_core_def host_call_def hung_up_def newStore_def poll_call_def
        merge_remote_def Let_def terminalState_def)
  obtain r d where e: "events fine True (decode_event (event_json (\<lambda>_. JNull) ?e)) sample_started = (r, d)" by fastforce
  have c: "csCallID ?call = ''id8''" "csState ?call = ''ENDED''"
    by (simp_all add: merge_remote_def Let_def hung_up_def host_call_def)
  have t: "terminal_leg (csState ?call)" by (simp add: c terminal_leg_def)
  have hs: "host_sessions ''id8'' sample_started = [sample_session]" unfolding sample_session_def by code_simp
  have "code r = 202" "closed_session fine sample_session \<in> set (sessions d)"
    using host_hangup_closes [OF e fine_fine t, unfolded c, of sample_session "[]"] hs by simp_all
  moreover from this(2) have "\<exists>t \<in> set (sessions d). seID t = ''id4'' \<and> seStatus t = ''FAILED''"
    by (rule rev_bexI) (simp add: closed_session_def sample_session_def)
  ultimately show ?thesis using p e by (intro exI [of _ ?e] exI [of _ s]) simp
qed

section \<open>The answer of the host\<close>

lemma all_same_image: "map f xs = map (\<lambda>_. c) ys \<Longrightarrow> f ` set xs \<subseteq> {c}"
  by (metis image_set image_subset_iff list.set_map singleton_iff image_iff)

lemma distinct_filter_single: "distinct (map f xs) \<Longrightarrow> x \<in> set xs \<Longrightarrow> f x = c \<Longrightarrow> filter (\<lambda>y. f y = c) xs = [x]"
  by (induction xs) (auto simp: filter_empty_conv image_iff)

lemma filter_update_single:
  "filter P xs = [x] \<Longrightarrow> (\<And>y. P (f y) = P y) \<Longrightarrow> filter P (update_where P f xs) = [f x]"
  by (induction xs) (auto simp: update_where_def filter_empty_conv split: if_splits)

lemma poll_calls_event:
  assumes "call \<in> set calls" and "remote (csCallID call) = Some rc" and "rcState rc \<noteq> ''''" and "rcState rc \<noteq> csState call"
    and "poll_calls now remote calls s = (es, s')"
  shows "\<exists>typ node epoch inst c. CallEvent typ node epoch inst c \<in> set es \<and> csCallID c = csCallID call \<and> csState c = rcState rc"
  using assms(1,5)
proof (induction calls arbitrary: s es)
  case Nil
  then show ?case by simp
next
  case (Cons x calls)
  obtain e1 s1 where one: "poll_call now (remote (csCallID x)) x s = (e1, s1)" by fastforce
  obtain e2 where rest: "poll_calls now remote calls s1 = (e2, s')" "es = e1 @ e2"
    using Cons.prems(2) one by (auto split: prod.splits)
  show ?case
  proof (cases "x = call")
    case True
    have "csCallID (merge_remote now rc call) = csCallID call" "csState (merge_remote now rc call) = rcState rc"
      by (simp_all add: merge_remote_def Let_def)
    moreover have "\<exists>typ node epoch inst. CallEvent typ node epoch inst (merge_remote now rc call) \<in> set e1"
      using one True assms(2-4) by (auto simp: poll_call_def Let_def)
    ultimately show ?thesis using rest(2) by fastforce
  next
    case False
    with Cons.prems(1) have "call \<in> set calls" by simp
    from Cons.IH [OF this rest(1)] show ?thesis unfolding rest(2) set_append by blast
  qed
qed

lemma answer_reported:
  assumes "st = ''ANSWERED'' \<or> st = ''IN_BRIDGE''" and "all_fine W" and "c \<noteq> ''''"
    and "consistent d" and "l \<in> set (legs d)" and "lgID l = c"
    and "i = \<lparr>eiCallID = '''', eiState = '''', eiInnerCallID = c, eiInnerState = st, eiMember = m\<rparr>"
  obtains d1 l' where "events W True (Some i) d = (answer 202 [(''status'', JStr ''accepted'')], d1)"
    "sessions d1 = sessions d" "bridges d1 = bridges d" "filter (\<lambda>l. lgID l = c) (legs d1) = [l']" "lgState l' = st"
proof -
  obtain d1 where d1: "report_call W c st m d = finishHostSession W 3 c st d1"
    "legs d1 = update_where (\<lambda>l. lgID l = c) (leg_reported st m (wnow W 0)) (legs d)"
    "sessions d1 = sessions d" "bridges d1 = bridges d"
    by (rule reported_tables [OF assms(2)])
  have live: "\<not> terminal_leg st" using assms(1) by (auto simp: terminal_leg_def)
  have "st \<noteq> ''''" using assms(1) by auto
  with d1(1) live have "events W True (Some i) d = (answer 202 [(''status'', JStr ''accepted'')], d1)"
    using assms(3) by (simp add: events_def Let_def assms(7) finishHostSession_def)
  moreover have "filter (\<lambda>l. lgID l = c) (legs d) = [l]"
    using assms(4-6) by (intro distinct_filter_single) (auto simp: consistent_def)
  then have "filter (\<lambda>l. lgID l = c) (legs d1) = [leg_reported st m (wnow W 0) l]"
    unfolding d1(2) by (rule filter_update_single) (simp add: leg_reported_def)
  moreover have "lgState (leg_reported st m (wnow W 0) l) = st" by (simp add: leg_reported_def)
  ultimately show thesis using that d1(3,4) by blast
qed

lemma dispatch_all_frame:
  "sessions (snd (dispatch_all W F i a ids d)) = sessions d \<and> bridges (snd (dispatch_all W F i a ids d)) = bridges d"
proof (induction ids arbitrary: i d)
  case Nil
  then show ?case by simp
next
  case (Cons p ids)
  obtain r ps d1 where "dispatchExistingParticipant W (10 + 5 * i) F i (acWorkspace a) (acBridge a) p (acSession a) d = (r, ps, d1)"
    by (metis prod_cases3)
  moreover obtain qs d2 where "dispatch_all W F (Suc i) a ids d1 = (qs, d2)" by fastforce
  ultimately show ?case using dispatch_sessions Cons [of "Suc i" d1] by simp
qed

text \<open>The next pass of the waiting goroutine after the host's call is answered.\<close>

lemma answered_tick:
  assumes "filter (\<lambda>l. lgID l = acCall a) (legs d) = [l]" and "lgState l = ''ANSWERED'' \<or> lgState l = ''IN_BRIDGE''"
    and "all_fine W" and "distinct (map seID (sessions d))" and "s \<in> set (sessions d)" and "seID s = acSession a"
    and "seStatus s = ''STARTING''" and "activate_tick W F a d = (w, ps, d')"
  shows "w = Finished" and "\<forall>t \<in> set (sessions d'). seID t = acSession a \<longrightarrow> seStatus t = ''RUNNING''"
    and "map brState (room_rows (acWorkspace a) (acBridge a) d') =
      map (\<lambda>b. if brState b = ''STARTING'' then ''RUNNING'' else brState b) (room_rows (acWorkspace a) (acBridge a) d)"
proof -
  let ?mine = "\<lambda>s. seID s = acSession a \<and> seStatus s = ''STARTING''"
  let ?d1 = "on_session ?mine (\<lambda>s. s\<lparr>seStatus := ''RUNNING''\<rparr>) d"
  let ?starting = "\<lambda>b. brID b = acBridge a \<and> brWorkspace b = acWorkspace a \<and> brState b = ''STARTING''"
  let ?d2 = "?d1\<lparr>bridges := update_where ?starting (\<lambda>b. b\<lparr>brState := ''RUNNING''\<rparr>) (bridges ?d1)\<rparr>"
  have own: "filter (\<lambda>s. seID s = acSession a) (sessions d) = [s]" by (rule distinct_filter_single [OF assms(4-6)])
  have "filter ?mine (sessions d) = filter (\<lambda>s. seStatus s = ''STARTING'') (filter (\<lambda>s. seID s = acSession a) (sessions d))"
    by (simp add: conj_commute)
  then have one: "length (filter ?mine (sessions d)) = 1" using assms(7) by (simp add: own)
  let ?ids = "case query_rows W 3 (listener_ids (acWorkspace a) (acBridge a) ?d2) of Inl _ \<Rightarrow> [] | Inr ids \<Rightarrow> ids"
  have q: "query_row W 0 (filter (\<lambda>l. lgID l = acCall a) (legs d)) = Row l"
    using assms(1,3) by (simp add: query_row_def all_fine_def)
  have "activate_tick W F a d = (Finished, dispatch_all W F 0 a ?ids ?d2)"
    unfolding activate_tick_def q using assms(2,3) one
    by (simp add: Let_def all_fine_def sql_try_def split: prod.split)
  then have w: "w = Finished" "dispatch_all W F 0 a ?ids ?d2 = (ps, d')" using assms(8) by simp_all
  show "w = Finished" by (rule w(1))
  have e: "sessions d' = sessions ?d1" "bridges d' = bridges ?d2"
    using dispatch_all_frame [of W F 0 a ?ids ?d2] w(2) by simp_all
  have "seStatus t = ''STARTING''" if "t \<in> set (sessions d)" "seID t = acSession a" for t
  proof -
    have "t \<in> set (filter (\<lambda>s. seID s = acSession a) (sessions d))" using that by simp
    then show ?thesis using assms(7) by (simp add: own)
  qed
  then show "\<forall>t \<in> set (sessions d'). seID t = acSession a \<longrightarrow> seStatus t = ''RUNNING''"
    by (auto simp: e(1) on_session_def update_where_def)
  show "map brState (room_rows (acWorkspace a) (acBridge a) d') =
      map (\<lambda>b. if brState b = ''STARTING'' then ''RUNNING'' else brState b) (room_rows (acWorkspace a) (acBridge a) d)"
  proof -
    have "map brState (filter (\<lambda>b. brID b = acBridge a \<and> brWorkspace b = acWorkspace a)
        (update_where ?starting (\<lambda>b. b\<lparr>brState := ''RUNNING''\<rparr>) bs)) =
      map (\<lambda>b. if brState b = ''STARTING'' then ''RUNNING'' else brState b)
        (filter (\<lambda>b. brID b = acBridge a \<and> brWorkspace b = acWorkspace a) bs)" for bs
      by (induction bs) (simp_all add: update_where_def)
    then show ?thesis by (simp add: room_rows_def e(2) on_session_def)
  qed
qed

text \<open>When the engine reports the host's call as answered, the sidecar's next poll sends an event that the
  control API decodes and accepts, and the next pass of the goroutine that waits for this call ends the
  wait with the session and its room RUNNING.\<close>

lemma answer_starts_room:
  assumes "poll_tick now remote s = (es, s')" and "call \<in> set (poll_snapshot s)" and "csCallID call = acCall a"
    and "remote (acCall a) = Some rc" and "rcState rc = ''ANSWERED'' \<or> rcState rc = ''IN_BRIDGE''"
    and "csState call \<noteq> rcState rc" and "acCall a \<noteq> ''''"
    and "consistent d" and "l \<in> set (legs d)" and "lgID l = acCall a"
    and "se \<in> set (sessions d)" and "seID se = acSession a" and "seStatus se = ''STARTING''"
    and "all_fine W" and "all_fine W'"
  shows "\<exists>e \<in> set es. \<exists>r d1 ps d2. events W True (decode_event (event_json stamp e)) d = (r, d1) \<and> code r = 202 \<and>
    activate_tick W' F a d1 = (Finished, ps, d2) \<and>
    (\<forall>t \<in> set (sessions d2). seID t = acSession a \<longrightarrow> seStatus t = ''RUNNING'') \<and>
    map brState (room_rows (acWorkspace a) (acBridge a) d2) =
      map (\<lambda>b. if brState b = ''STARTING'' then ''RUNNING'' else brState b) (room_rows (acWorkspace a) (acBridge a) d)"
proof -
  have "rcState rc \<noteq> ''''" using assms(5) by auto
  from poll_calls_event [OF assms(2) _ this _ assms(1) [unfolded poll_tick_def]] assms(3,4,6)
  obtain ty node epoch inst c where e: "CallEvent ty node epoch inst c \<in> set es" "csCallID c = acCall a"
    "csState c = rcState rc" by auto
  let ?e = "CallEvent ty node epoch inst c"
  let ?i = "\<lparr>eiCallID = '''', eiState = '''', eiInnerCallID = acCall a, eiInnerState = rcState rc, eiMember = csPBXMemberID c\<rparr>"
  have i: "decode_event (event_json stamp ?e) = Some ?i" by (simp only: decode_call_event e(2,3))
  obtain d1 l' where d1: "events W True (Some ?i) d = (answer 202 [(''status'', JStr ''accepted'')], d1)"
    "sessions d1 = sessions d" "bridges d1 = bridges d" "filter (\<lambda>l. lgID l = acCall a) (legs d1) = [l']" "lgState l' = rcState rc"
    by (rule answer_reported [OF assms(5,14,7-10), of ?i "csPBXMemberID c"]) simp_all
  obtain w ps d2 where t: "activate_tick W' F a d1 = (w, ps, d2)" by (metis prod_cases3)
  have s: "distinct (map seID (sessions d1))" "se \<in> set (sessions d1)"
    using assms(8,11) by (simp_all add: d1(2) consistent_def)
  note run = answered_tick [OF d1(4) assms(5) [folded d1(5)] assms(15) s assms(12,13) t]
  have "room_rows (acWorkspace a) (acBridge a) d1 = room_rows (acWorkspace a) (acBridge a) d"
    by (simp add: room_rows_def d1(3))
  with run d1(1) t e(1) show ?thesis by (intro bexI [of _ ?e] exI conjI) (auto simp: answer_def i)
qed

section \<open>The command that calls the host\<close>

text \<open>The decoding in the sidecar's \<open>originate\<close>; \<open>caller_id\<close> is not among the fields it reads.\<close>

definition bool_field :: "string \<Rightarrow> json \<Rightarrow> bool option" where
  "bool_field k j =
     (case json_field k j of None \<Rightarrow> Some False | Some JNull \<Rightarrow> Some False | Some (JBool b) \<Rightarrow> Some b | _ \<Rightarrow> None)"

definition decode_originate :: "json \<Rightarrow> originate_in option" where
  "decode_originate j =
     do {
       command \<leftarrow> str_field ''command_id'' j; call \<leftarrow> str_field ''call_id'' j;
       bridge \<leftarrow> str_field ''bridge_id'' j; p \<leftarrow> str_field ''participant_id'' j;
       dest \<leftarrow> str_field ''destination'' j; role \<leftarrow> str_field ''role'' j; mute \<leftarrow> bool_field ''desired_mute'' j;
       Some \<lparr>oiCommandID = command, oiCallID = call, oiBridgeID = bridge, oiParticipantID = p, oiDestination = dest,
         oiRole = role, oiDesiredMute = mute\<rparr>
     }"

lemma decode_originate_post:
  "decode_originate (JObj (spBody (originate_post n command call br pid number tfn role))) =
    Some \<lparr>oiCommandID = command, oiCallID = call, oiBridgeID = br, oiParticipantID = pid, oiDestination = number,
      oiRole = role, oiDesiredMute = (role \<noteq> ''HOST'')\<rparr>"
  by (simp add: decode_originate_def originate_post_def str_field_def bool_field_def)

text \<open>A new command that the engine takes leaves its call in the next snapshot of the poll.\<close>

lemma originated_polled:
  assumes "oiCallID i \<noteq> ''''" and "oiDestination i \<noteq> ''''" and "sCommands s (oiCommandID (originate_command hdr i)) = None"
  obtains r ps es s' where "originate now hdr (Some i) (Inr m) s = (r, ps, es, s')" "srStatus r = 202"
    "ps = [PostOriginate (originate_command hdr i)]"
    "new_call now i m \<in> set (poll_snapshot s')"
proof -
  have c: "oiCallID (originate_command hdr i) = oiCallID i" "new_call now (originate_command hdr i) m = new_call now i m"
    by (simp_all add: originate_command_def Let_def new_call_def)
  have "map_of (AList.update (oiCallID i) (new_call now i m) (sCalls s)) (oiCallID i) = Some (new_call now i m)"
    by (simp add: update_conv')
  from map_of_SomeD [OF this]
  have "new_call now i m \<in> snd ` set (AList.update (oiCallID i) (new_call now i m) (sCalls s))" by force
  moreover have "\<not> terminalState (csState (new_call now i m))" by (simp add: new_call_def terminalState_def)
  ultimately have "new_call now i m \<in> set (poll_snapshot (snd (snd (snd (originate now hdr (Some i) (Inr m) s)))))"
    using assms by (simp add: originate_def originate_begin_def originate_finish_def Let_def c poll_snapshot_def)
  moreover have "srStatus (fst (originate now hdr (Some i) (Inr m) s)) = 202"
    "fst (snd (originate now hdr (Some i) (Inr m) s)) = [PostOriginate (originate_command hdr i)]"
    using assms by (simp_all add: originate_def originate_begin_def originate_finish_def Let_def)
  ultimately show thesis using that by (metis prod.collapse)
qed

text \<open>C4: from the start of a room to the running conference. An accepted start sends one command, which the
  sidecar that it reaches decodes, and, when the command is new to it and the engine takes it, accepts.
  When the engine then reports the call as answered, the sidecar's next poll sends an event that the control
  API decodes and accepts, and the next pass of the goroutine that waits for the host ends the wait with the
  session and the room RUNNING.\<close>

theorem room_comes_up:
  assumes "startRoom W F ws br d = (r, Some a, ps, d')" and "consistent d" and "acCall a \<noteq> ''''"
    and "flCommand F 0 \<noteq> ''''" and "sCommands s (flCommand F 0) = None" and "rcState rc = ''ANSWERED'' \<or> rcState rc = ''IN_BRIDGE''"
    and "remote (acCall a) = Some rc" and "all_fine W'" and "all_fine W''"
  shows "\<exists>p i. ps = [p] \<and> decode_originate (JObj (spBody p)) = Some i \<and> oiCallID i = acCall a \<and> \<not> oiDesiredMute i \<and>
    (\<exists>r1 posts es1 s1. originate now hdr (Some i) (Inr m) s = (r1, posts, es1, s1) \<and> srStatus r1 = 202 \<and>
      (\<exists>e \<in> set (fst (poll_tick later remote s1)). \<exists>r2 d1 ps2 d2.
        events W' True (decode_event (event_json stamp e)) d' = (r2, d1) \<and> code r2 = 202 \<and>
        activate_tick W'' F' a d1 = (Finished, ps2, d2) \<and>
        (\<forall>t \<in> set (sessions d2). seID t = acSession a \<longrightarrow> seStatus t = ''RUNNING'') \<and>
        (\<forall>b \<in> set (room_rows ws br d2). brState b = ''RUNNING'')))"
proof -
  from assms(1,2) obtain n pid number tfn t where st: "ps = [originate_post n (flCommand F 0) (acCall a) br pid number tfn ''HOST'']"
    "dialable number" "new_leg (acCall a) ws pid br n ''HOST'' \<in> set (legs d')"
    "t \<in> set (sessions d')" "seID t = acSession a" "seStatus t = ''STARTING''"
    "\<forall>b \<in> set (room_rows ws br d'). brState b = ''STARTING''" "acWorkspace a = ws" "acBridge a = br"
    by (rule accepted_start)
  let ?p = "originate_post n (flCommand F 0) (acCall a) br pid number tfn ''HOST''"
  let ?i = "\<lparr>oiCommandID = flCommand F 0, oiCallID = acCall a, oiBridgeID = br, oiParticipantID = pid,
    oiDestination = number, oiRole = ''HOST'', oiDesiredMute = False\<rparr>"
  have i: "decode_originate (JObj (spBody ?p)) = Some ?i" by (simp add: decode_originate_post)
  have dest: "number \<noteq> ''''" using st(2) by (auto simp: dialable_def)
  obtain r1 posts es1 s1 where o1: "originate now hdr (Some ?i) (Inr m) s = (r1, posts, es1, s1)" "srStatus r1 = 202"
    "new_call now ?i m \<in> set (poll_snapshot s1)"
    by (rule originated_polled [of ?i s hdr now m]) (use assms(3-5) dest in \<open>simp_all add: originate_command_def\<close>)
  obtain es s2 where poll: "poll_tick later remote s1 = (es, s2)" by fastforce
  have call: "csCallID (new_call now ?i m) = acCall a" "csState (new_call now ?i m) \<noteq> rcState rc"
    using assms(6) by (auto simp: new_call_def)
  have cons: "consistent d'" using changes_consistent [OF startRoom_changes(1) [OF assms(1)] assms(2)] .
  have leg: "lgID (new_leg (acCall a) ws pid br n ''HOST'') = acCall a" by (simp add: new_leg_def)
  from answer_starts_room [OF poll o1(3) call(1) assms(7,6) call(2) assms(3) cons st(3) leg st(4-6) assms(8,9), of stamp F']
  obtain e r2 d1 ps2 d2 where up: "e \<in> set es" "events W' True (decode_event (event_json stamp e)) d' = (r2, d1)" "code r2 = 202"
    "activate_tick W'' F' a d1 = (Finished, ps2, d2)" "\<forall>t \<in> set (sessions d2). seID t = acSession a \<longrightarrow> seStatus t = ''RUNNING''"
    "map brState (room_rows (acWorkspace a) (acBridge a) d2) =
      map (\<lambda>b. if brState b = ''STARTING'' then ''RUNNING'' else brState b) (room_rows (acWorkspace a) (acBridge a) d')"
    by blast
  have "map brState (room_rows ws br d2) = map (\<lambda>_. ''RUNNING'') (room_rows ws br d')"
    using up(6) st(7-9) by (simp cong: map_cong)
  then have "brState ` set (room_rows ws br d2) \<subseteq> {''RUNNING''}" by (metis all_same_image)
  then have "\<forall>b \<in> set (room_rows ws br d2). brState b = ''RUNNING''" by blast
  with up have "\<exists>e \<in> set (fst (poll_tick later remote s1)). \<exists>r2 d1 ps2 d2.
      events W' True (decode_event (event_json stamp e)) d' = (r2, d1) \<and> code r2 = 202 \<and>
      activate_tick W'' F' a d1 = (Finished, ps2, d2) \<and>
      (\<forall>t \<in> set (sessions d2). seID t = acSession a \<longrightarrow> seStatus t = ''RUNNING'') \<and>
      (\<forall>b \<in> set (room_rows ws br d2). brState b = ''RUNNING'')"
    by (intro bexI [of _ e] exI [of _ r2] exI [of _ d1] exI [of _ ps2] exI [of _ d2]) (simp_all add: poll)
  with o1(1,2) have "\<exists>r1 posts es1 s1. originate now hdr (Some ?i) (Inr m) s = (r1, posts, es1, s1) \<and> srStatus r1 = 202 \<and>
      (\<exists>e \<in> set (fst (poll_tick later remote s1)). \<exists>r2 d1 ps2 d2.
        events W' True (decode_event (event_json stamp e)) d' = (r2, d1) \<and> code r2 = 202 \<and>
        activate_tick W'' F' a d1 = (Finished, ps2, d2) \<and>
        (\<forall>t \<in> set (sessions d2). seID t = acSession a \<longrightarrow> seStatus t = ''RUNNING'') \<and>
        (\<forall>b \<in> set (room_rows ws br d2). brState b = ''RUNNING''))" by blast
  with st(1) i show ?thesis by (intro exI [of _ ?p] exI [of _ ?i] conjI) simp_all
qed

definition picked_up :: remote_call where
  "picked_up = \<lparr>rcState = ''ANSWERED'', rcPBXMemberID = ''m1'', rcMuted = False, rcVolumeDB = 0\<rparr>"

theorem room_comes_up_witness:
  "\<exists>p i r1 posts es1 s1 e r2 d1 ps2 d2. fst (snd (snd sample_start)) = [p] \<and>
     decode_originate (JObj (spBody p)) = Some i \<and>
     originate 1 '''' (Some i) (Inr ''m1'') (newStore ''core-1'' 7 ''i1'') = (r1, posts, es1, s1) \<and>
     e \<in> set (fst (poll_tick 5 (\<lambda>_. Some picked_up) s1)) \<and>
     events fine True (decode_event (event_json (\<lambda>_. JNull) e)) sample_started = (r2, d1) \<and>
     activate_tick fine sample_fleet sample_activation d1 = (Finished, ps2, d2) \<and>
     (\<forall>t \<in> set (sessions d2). seID t = ''id4'' \<longrightarrow> seStatus t = ''RUNNING'')"
proof -
  have "acCall sample_activation \<noteq> ''''" "acSession sample_activation = ''id4''" by (simp_all add: sample_activation_def)
  moreover have "flCommand sample_fleet 0 \<noteq> ''''" "sCommands (newStore ''core-1'' 7 ''i1'') (flCommand sample_fleet 0) = None"
    by (simp_all add: newStore_def sample_fleet_def)
  moreover have "rcState picked_up = ''ANSWERED'' \<or> rcState picked_up = ''IN_BRIDGE''" by (simp add: picked_up_def)
  ultimately show ?thesis
    using room_comes_up [OF sample_start_eq sample_ok(2), of "newStore ''core-1'' 7 ''i1''" picked_up "\<lambda>_. Some picked_up"
        fine fine 1 "''''" "''m1''" 5 "\<lambda>_. JNull" sample_fleet] fine_fine
    by metis
qed
section \<open>A drop that meets a poll\<close>

lemma drop_finish:
  assumes "participant_finish now ''drop'' pid i (Inr out) s = (r, es, s')" and "map_of (sCalls s) k = Some c" and "csParticipantID c = pid"
  shows "\<exists>c'. map_of (sCalls s') k = Some c' \<and> csState c' = ''DROPPED''"
proof -
  have "sCalls s' = fst (action_loop ''drop'' pid now (sCalls s) (sActive s))"
    using assms(1) by (auto simp: participant_finish_def split: prod.splits)
  then show ?thesis using assms(2,3) by (simp add: action_loop_calls map_of_map)
qed

text \<open>C28: a drop that a poll undoes. The poll asks the engine about a copy of the call. When a drop is executed
  between the engine's answer and its processing, the sidecar's call and the control API's call leg, both
  DROPPED by then, take the older live state that the engine had answered with, and the active counter stays
  one below the number of live calls.\<close>

theorem poll_undoes_drop:
  assumes "call \<in> set (poll_snapshot s)" and "keyed s" and "ended_calls_of (csParticipantID call) (sCalls s) = 0"
    and "participant_finish now ''drop'' (csParticipantID call) i (Inr out) s = (r, es1, s1)"
    and "rcState rc \<noteq> ''''" and "\<not> terminalState (rcState rc)" and "rcState rc \<noteq> csState call"
    and "poll_call later (Some rc) call s1 = (es2, s2)"
    and "csCallID call \<noteq> ''''" and "l \<in> set (legs d)" and "lgID l = csCallID call" and "all_fine W"
  shows "(\<exists>c. map_of (sCalls s1) (csCallID call) = Some c \<and> csState c = ''DROPPED'') \<and>
    (\<exists>c. map_of (sCalls s2) (csCallID call) = Some c \<and> csState c = rcState rc) \<and>
    sActive s2 - int (live_calls (sCalls s2)) = sActive s - int (live_calls (sCalls s)) - 1 \<and>
    (\<exists>e. es2 = [e] \<and> (\<exists>m \<in> set (legs (snd (events W True (decode_event (event_json stamp e)) d))).
       lgID m = lgID l \<and> lgState m = rcState rc))"
proof -
  let ?k = "csCallID call" and ?new = "merge_remote later rc call"
  have "map_of (sCalls s) ?k = Some call"
    using assms(1,2) by (auto simp: poll_snapshot_def keyed_def)
  from drop_finish [OF assms(4) this refl] obtain c where c: "map_of (sCalls s1) ?k = Some c" "csState c = ''DROPPED''"
    by blast
  have s1: "keyed s1" "sActive s1 - int (live_calls (sCalls s1)) = sActive s - int (live_calls (sCalls s))"
    using participant_finish_store [OF assms(4,2)] assms(3) by (simp_all add: engine_ok_def)
  have new: "csState ?new = rcState rc" "csCallID ?new = ?k" by (simp_all add: merge_remote_def Let_def)
  have s2: "sCalls s2 = AList.update ?k ?new (sCalls s1)" "sActive s2 = sActive s1"
    "es2 = [CallEvent ''call.state'' (sNodeID s1) (sEpoch s1) (sInstance s1) ?new]"
    using assms(5-8) c new by (auto simp: poll_call_def Let_def terminalState_def)
  have "int (live_calls (sCalls s2)) = int (live_calls (sCalls s1)) + 1"
    using live_update [of "sCalls s1" ?k ?new] s1(1) assms(6) c
    by (simp add: s2(1) keyed_def alive_def alive_opt_def new terminalState_def)
  then have n: "sActive s2 - int (live_calls (sCalls s2)) = sActive s - int (live_calls (sCalls s)) - 1"
    using s1(2) s2(2) by simp
  let ?e = "CallEvent ''call.state'' (sNodeID s1) (sEpoch s1) (sInstance s1) ?new"
  obtain d1 where d1: "report_call W ?k (rcState rc) (csPBXMemberID ?new) d = finishHostSession W 3 ?k (rcState rc) d1"
    "legs d1 = update_where (\<lambda>l. lgID l = ?k) (leg_reported (rcState rc) (csPBXMemberID ?new) (wnow W 0)) (legs d)"
    by (rule reported_tables [OF assms(12)])
  have "snd (events W True (decode_event (event_json stamp ?e)) d) = finishHostSession W 3 ?k (rcState rc) d1"
    using assms(5,9) by (simp add: decode_call_event new events_def Let_def d1(1))
  then have "leg_reported (rcState rc) (csPBXMemberID ?new) (wnow W 0) l \<in> set (legs (snd (events W True (decode_event (event_json stamp ?e)) d)))"
    using assms(10,11) by (auto simp: d1(2) set_update_where)
  then have "\<exists>m \<in> set (legs (snd (events W True (decode_event (event_json stamp ?e)) d))). lgID m = lgID l \<and> lgState m = rcState rc"
    by (rule rev_bexI) (simp add: leg_reported_def)
  moreover have "map_of (sCalls s2) ?k = Some ?new" by (simp add: s2(1) update_conv')
  ultimately show ?thesis using c n new s2(3) by blast
qed

definition dispatched_call :: call_state where
  "dispatched_call = \<lparr>csCallID = ''id8'', csBridgeID = ''r1'', csParticipantID = ''p1'', csPBXMemberID = ''m1'',
     csDestination = ''+919820012345'', csRole = '''', csDesiredMute = False, csState = ''DISPATCHED'', csMuted = False,
     csVolumeDB = 0, csUpdatedAt = 0\<rparr>"

definition dispatched_core :: sidecar where
  "dispatched_core = (newStore ''core-1'' 7 ''i1'')\<lparr>sCalls := [(''id8'', dispatched_call)], sActive := 1\<rparr>"

theorem poll_undoes_drop_witness:
  "\<exists>r es1 s1 es2 s2. participant_finish 3 ''drop'' ''p1'' drop_input (Inr None) dispatched_core = (r, es1, s1) \<and>
     poll_call 4 (Some picked_up) dispatched_call s1 = (es2, s2) \<and> sActive s2 - int (live_calls (sCalls s2)) = -1 \<and>
     list_ex (\<lambda>l. lgState l = ''DROPPED'') (legs stopped_db) \<and>
     (\<exists>e. es2 = [e] \<and> (\<exists>m \<in> set (legs (snd (events fine True (decode_event (event_json (\<lambda>_. JNull) e)) stopped_db))).
        lgID m = ''id8'' \<and> lgState m = ''ANSWERED''))"
proof -
  have call: "dispatched_call \<in> set (poll_snapshot dispatched_core)" "keyed dispatched_core"
    "ended_calls_of (csParticipantID dispatched_call) (sCalls dispatched_core) = 0" "csParticipantID dispatched_call = ''p1''"
    "csCallID dispatched_call = ''id8''" "csState dispatched_call = ''DISPATCHED''"
    by (simp_all add: poll_snapshot_def keyed_def ended_calls_of_def dispatched_core_def dispatched_call_def terminalState_def)
  obtain r es1 s1 where f: "participant_finish 3 ''drop'' (csParticipantID dispatched_call) drop_input (Inr None) dispatched_core = (r, es1, s1)"
    by (metis prod_cases3)
  obtain es2 s2 where p: "poll_call 4 (Some picked_up) dispatched_call s1 = (es2, s2)" by fastforce
  have "list_ex (\<lambda>l. lgID l = ''id8'' \<and> lgState l = ''DROPPED'') (legs stopped_db)" by code_simp
  then obtain l where l: "l \<in> set (legs stopped_db)" "lgID l = ''id8''" "lgState l = ''DROPPED''" by (auto simp: list_ex_iff)
  have st: "rcState picked_up = ''ANSWERED''" by (simp add: picked_up_def)
  have n: "sActive dispatched_core - int (live_calls (sCalls dispatched_core)) = 0"
    by (simp add: dispatched_core_def dispatched_call_def terminalState_def)
  from poll_undoes_drop [OF call(1-3) f _ _ _ p _ l(1) _ fine_fine, of "\<lambda>_. JNull"] obtain e where
    "sActive s2 - int (live_calls (sCalls s2)) = -1" "es2 = [e]"
    "\<exists>m \<in> set (legs (snd (events fine True (decode_event (event_json (\<lambda>_. JNull) e)) stopped_db))).
       lgID m = ''id8'' \<and> lgState m = ''ANSWERED''"
    using l(2) n call(4-6) st by (auto simp: terminalState_def)
  then show ?thesis using f p l unfolding call(4) by (auto simp: list_ex_iff)
qed

end
