(* ===== verification/SidecarClient.thy ===== *)
theory SidecarClient
  imports CallFlow Live
begin

text \<open>
  The control API as a client of the sidecars (main.go: \<open>newID\<close>, \<open>sidecar\<close>, \<open>sidecarGet\<close>): its commands and
  readings as requests, what it makes of the answers, and how an operator's action reaches the engine's
  call and the volume of a call reaches the operator.
\<close>

section \<open>Command ids\<close>

definition hex_digit :: "nat \<Rightarrow> char" where
  "hex_digit n = ''0123456789abcdef'' ! n"

definition hex_encode :: "nat list \<Rightarrow> string" where
  "hex_encode bs = concat (map (\<lambda>b. [hex_digit (b div 16), hex_digit (b mod 16)]) bs)"

text \<open>The sixteen bytes are the random source's.\<close>

definition newID :: "nat list \<Rightarrow> string" where
  "newID bs = hex_encode (take 16 bs)"

lemma hex_digit_inj:
  assumes "m < 16" and "n < 16" and "hex_digit m = hex_digit n"
  shows "m = n"
proof -
  have "distinct ''0123456789abcdef''" by simp
  with assms show ?thesis unfolding hex_digit_def by (subst (asm) nth_eq_iff_index_eq) simp_all
qed

lemma hex_encode_inj:
  "\<lbrakk>\<forall>b \<in> set as. b < 256; \<forall>b \<in> set bs. b < 256; length as = length bs; hex_encode as = hex_encode bs\<rbrakk> \<Longrightarrow> as = bs"
proof (induction as bs rule: list_induct2')
  case (4 a as b bs)
  from 4(5) have "hex_digit (a div 16) = hex_digit (b div 16)" "hex_digit (a mod 16) = hex_digit (b mod 16)"
    "hex_encode as = hex_encode bs" by (simp_all add: hex_encode_def)
  moreover have "a div 16 < 16" "b div 16 < 16" using 4(2,3) by auto
  ultimately have "a div 16 = b div 16" "a mod 16 = b mod 16" by (auto intro!: hex_digit_inj)
  then have "a = b" by (metis mult_div_mod_eq)
  with 4 \<open>hex_encode as = hex_encode bs\<close> show ?case by simp
qed simp_all

text \<open>Ids are never empty, and different draws of sixteen bytes give different ids.\<close>

lemma newID_distinct:
  assumes "length as = 16" and "length bs = 16" and "\<forall>b \<in> set as. b < 256" and "\<forall>b \<in> set bs. b < 256" and "as \<noteq> bs"
  shows "newID as \<noteq> newID bs" and "newID as \<noteq> ''''"
proof -
  show "newID as \<noteq> newID bs" using assms hex_encode_inj [of as bs] by (auto simp: newID_def)
  have "as \<noteq> []" using assms(1) by auto
  then show "newID as \<noteq> ''''" using assms(1) by (auto simp: newID_def hex_encode_def neq_Nil_conv)
qed

section \<open>Requests to a sidecar\<close>

definition sidecar_url :: "node \<Rightarrow> string \<Rightarrow> string" where
  "sidecar_url n path = TrimRight (ControlURL n) ''/'' @ path"

text \<open>The key of a command is sent in the header as well, when the body has one that is a string.\<close>

definition idempotency_key :: "(string \<times> json) list \<Rightarrow> string option" where
  "idempotency_key body = (case map_of body ''command_id'' of Some (JStr c) \<Rightarrow> Some c | _ \<Rightarrow> None)"

definition command_headers :: "(string \<times> json) list \<Rightarrow> (string \<times> string) list" where
  "command_headers body =
     (''Content-Type'', ''application/json'') #
     (case idempotency_key body of None \<Rightarrow> [] | Some c \<Rightarrow> [(''Idempotency-Key'', c)])"

fun sidecar_result :: "'a http_outcome \<Rightarrow> string option" where
  "sidecar_result (BadRequest e) = Some e"
| "sidecar_result (NoAnswer e) = Some e"
| "sidecar_result (Answered status txt body) =
     (if status \<ge> 300 then Some (''sidecar returned '' @ txt) else None)"

fun sidecarGet :: "'a http_outcome \<Rightarrow> string + 'a" where
  "sidecarGet (BadRequest e) = Inl e"
| "sidecarGet (NoAnswer e) = Inl e"
| "sidecarGet (Answered status txt body) =
     (if status \<ge> 300 then Inl (''sidecar returned '' @ txt) else body)"

text \<open>The sidecar's \<open>commandID\<close>: the header as the handlers read it.\<close>

definition header_of :: "string \<Rightarrow> (string \<times> string) list \<Rightarrow> string" where
  "header_of k hs = (case map_of hs k of None \<Rightarrow> '''' | Some v \<Rightarrow> v)"

text \<open>The decoding in \<open>participantAction\<close>, whose error is ignored: a field of another kind stays empty and
  the others are read.\<close>

definition decode_participant :: "json \<Rightarrow> participant_in" where
  "decode_participant j =
     (let read = (\<lambda>k. case str_field k j of None \<Rightarrow> '''' | Some v \<Rightarrow> v)
      in \<lparr>piCommandID = read ''command_id'', piCallID = read ''call_id'', piPBXMemberID = read ''pbx_member_id''\<rparr>)"

text \<open>A command of the control API as the sidecar's handler gets it.\<close>

definition deliver_command ::
  "int \<Rightarrow> string list \<Rightarrow> sidecar_post \<Rightarrow> string + (string \<times> json) list option \<Rightarrow> sidecar \<Rightarrow>
     sidecar_response \<times> pbx_post list \<times> sidecar_event list \<times> sidecar" where
  "deliver_command now order p engine s =
     participant_request now order (header_of ''Idempotency-Key'' (command_headers (spBody p))) (spPath p)
       (decode_participant (JObj (spBody p))) engine s"
section \<open>An operator's command\<close>

lemma delivered_command:
  assumes "spPath p = participant_path pid act" and "spBody p = command_body command callID pid epoch"
    and "act \<in> {''mute'', ''unmute'', ''drop''}" and "pid \<noteq> ''''" and "command \<noteq> ''''" and "sCommands s command = None"
  obtains i r es s1 where "participant_finish now act pid i (Inr out) s = (r, es, s1)" "srStatus r = 200"
    "deliver_command now order p (Inr out) s = (r, [PostParticipant (participant_path pid act) i], es, s1)"
proof -
  let ?in = "\<lparr>piCommandID = command, piCallID = callID, piPBXMemberID = ''''\<rparr>"
  have d: "decode_participant (JObj (spBody p)) = ?in"
    by (simp add: assms(2) command_body_def decode_participant_def str_field_def)
  have route: "participant_route (participant_path pid act) = Some act"
    using assms(3) participant_path_routed [of pid] by auto
  let ?i = "participant_command command pid act (participant_target order pid ?in s)"
  have key: "piCommandID (participant_target order pid ?in s) = command"
    by (simp add: participant_target_def split: option.split)
  then have i: "piCommandID ?i = command" using assms(5) by (simp add: participant_command_def)
  have h: "header_of ''Idempotency-Key'' (command_headers (spBody p)) = command"
    by (simp add: assms(2) command_body_def command_headers_def idempotency_key_def header_of_def)
  obtain r es s1 where f: "participant_finish now act pid ?i (Inr out) s = (r, es, s1)" by (metis prod_cases3)
  have "participant_begin order command act pid ?in s = Inr ?i"
    using assms(4,6) i by (simp add: participant_begin_def Let_def)
  then have "deliver_command now order p (Inr out) s = (r, [PostParticipant (participant_path pid act) ?i], es, s1)"
    by (simp add: deliver_command_def participant_request_def participantAction_def d h assms(1) route f)
  moreover have "srStatus r = 200" using f by (auto simp: participant_finish_def split: prod.splits)
  ultimately show thesis using f that by blast
qed

text \<open>What an accepted action of an operator on a participant sends and notes.\<close>

lemma accepted_action:
  assumes "live_action W F ws pid act d = (r, ps, d')" and "code r = 200" and "all_fine W"
  obtains l n where "l \<in> set (participant_live_legs ws pid d)" "NodeID n = lgNode l"
    "ps = [\<lparr>spNode = n, spPath = participant_path pid act, spBody = command_body (flCommand F 0) (lgID l) pid (lgEpoch l)\<rparr>]"
    "d' = action_noted W ws act (lgID l) pid d"
proof -
  have q: "query_row W 0 (rev (participant_live_legs ws pid d)) =
      (case rev (participant_live_legs ws pid d) of [] \<Rightarrow> NoRows | l # _ \<Rightarrow> Row l)"
    using assms(3) by simp
  obtain l rest where l: "rev (participant_live_legs ws pid d) = l # rest"
    using assms(1,2) q by (auto simp: live_action_def answer_error_def answer_def split: list.splits)
  then have "l \<in> set (participant_live_legs ws pid d)" by (metis list.set_intros(1) set_rev)
  moreover obtain n where "owner_of (case flNodes F 0 of Inl _ \<Rightarrow> [] | Inr ns \<Rightarrow> ns) (lgNode l) = Some n"
    "ps = [\<lparr>spNode = n, spPath = participant_command_path pid act, spBody = command_body (flCommand F 0) (lgID l) pid (lgEpoch l)\<rparr>]"
    "d' = action_noted W ws act (lgID l) pid d"
    using assms(1,2) q l
    by (auto simp: live_action_def answer_error_def answer_def Let_def split: option.splits)
  moreover from this(1) have "NodeID n = lgNode l" by (auto simp: owner_of_def find_Some_iff split: if_splits option.splits)
  ultimately show thesis using that by (simp add: participant_command_path_def participant_path_def)
qed

lemma noted_leg:
  assumes "all_fine W" and "l \<in> set (participant_live_legs ws pid d)"
  shows "\<exists>m \<in> set (legs (action_noted W ws act (lgID l) pid d)). lgID m = lgID l \<and>
    (if act = ''mute'' then lgMute m else if act = ''unmute'' then \<not> lgMute m else lgState m = ''DROPPED'')"
proof -
  have l: "l \<in> set (legs d)" "lgWorkspace l = ws" using assms(2) by (auto simp: participant_live_legs_def)
  let ?f = "if act = ''mute'' then (\<lambda>l. l\<lparr>lgMute := True\<rparr>) else if act = ''unmute'' then (\<lambda>l. l\<lparr>lgMute := False\<rparr>)
    else (\<lambda>l. l\<lparr>lgState := ''DROPPED'', lgEnded := Some (wnow W 1)\<rparr>)"
  have "legs (action_noted W ws act (lgID l) pid d) =
      update_where (\<lambda>m. lgID m = lgID l \<and> lgWorkspace m = ws) ?f (legs d)"
    using assms(1) by (simp add: action_noted_def Let_def on_leg_def on_participant_def)
  with l have "?f l \<in> set (legs (action_noted W ws act (lgID l) pid d))" by (auto simp: set_update_where)
  then show ?thesis by (rule rev_bexI) simp
qed

text \<open>C17: an operator's command reaches the engine's call. An accepted mute, unmute or drop sends one command to
  the owner of the participant's live call; a sidecar that does not know the command routes it to this action
  and passes it to the engine, and when the engine takes it answers so that the control API accepts. The
  sidecar's calls of the participant and the control API's call leg are then muted, unmuted or dropped, all
  other calls are as they were, and the active counter loses the participant's calls that had already ended.\<close>

theorem command_reaches_call:
  assumes "live_action W F ws pid act d = (r, ps, d')" and "code r = 200" and "all_fine W"
    and "act \<in> {''mute'', ''unmute'', ''drop''}" and "pid \<noteq> ''''"
    and "keyed s" and "flCommand F 0 \<noteq> ''''" and "sCommands s (flCommand F 0) = None"
  shows "\<exists>p l. ps = [p] \<and> l \<in> set (participant_live_legs ws pid d) \<and> NodeID (spNode p) = lgNode l \<and>
    (\<exists>r1 i es s1. deliver_command now order p (Inr out) s = (r1, [PostParticipant (participant_path pid act) i], es, s1) \<and>
      sidecar_result (Answered (srStatus r1) txt b) = None \<and>
      (\<forall>k c. map_of (sCalls s) k = Some c \<longrightarrow> map_of (sCalls s1) k =
        Some (if csParticipantID c = pid then apply_action act now c else c)) \<and>
      sActive s1 - int (live_calls (sCalls s1)) = sActive s - int (live_calls (sCalls s)) -
        (if act = ''drop'' then int (ended_calls_of pid (sCalls s)) else 0)) \<and>
    (\<exists>m \<in> set (legs d'). lgID m = lgID l \<and>
      (if act = ''mute'' then lgMute m else if act = ''unmute'' then \<not> lgMute m else lgState m = ''DROPPED''))"
proof -
  obtain l n where l: "l \<in> set (participant_live_legs ws pid d)" "NodeID n = lgNode l"
    "ps = [\<lparr>spNode = n, spPath = participant_path pid act, spBody = command_body (flCommand F 0) (lgID l) pid (lgEpoch l)\<rparr>]"
    "d' = action_noted W ws act (lgID l) pid d"
    by (rule accepted_action [OF assms(1-3)])
  let ?p = "\<lparr>spNode = n, spPath = participant_path pid act, spBody = command_body (flCommand F 0) (lgID l) pid (lgEpoch l)\<rparr>"
  obtain i r1 es s1 where f: "participant_finish now act pid i (Inr out) s = (r1, es, s1)" "srStatus r1 = 200"
    "deliver_command now order ?p (Inr out) s = (r1, [PostParticipant (participant_path pid act) i], es, s1)"
    by (rule delivered_command [of ?p, OF _ _ assms(4,5,7,8)]) simp_all
  have "sCalls s1 = fst (action_loop act pid now (sCalls s) (sActive s))"
    using f(1) by (auto simp: participant_finish_def split: prod.splits)
  then have "\<forall>k c. map_of (sCalls s) k = Some c \<longrightarrow> map_of (sCalls s1) k =
      Some (if csParticipantID c = pid then apply_action act now c else c)"
    by (simp add: action_loop_calls map_of_map)
  moreover have "sActive s1 - int (live_calls (sCalls s1)) = sActive s - int (live_calls (sCalls s)) -
      (if act = ''drop'' then int (ended_calls_of pid (sCalls s)) else 0)"
    by (rule participant_finish_store(2) [OF f(1) assms(6)]) (simp add: engine_ok_def)
  moreover have "sidecar_result (Answered (srStatus r1) txt b) = None" by (simp add: f(2))
  moreover note noted_leg [OF assms(3) l(1), of act, folded l(4)]
  ultimately show ?thesis using l(1-3) f(3) by (intro exI [of _ ?p] exI [of _ l]) auto
qed
theorem command_reaches_call_witness:
  "\<exists>r ps d' p r1 posts es s1. live_action fine sample_fleet ''w1'' ''p1'' ''drop'' sample_started = (r, ps, d') \<and> ps = [p] \<and>
     deliver_command 9 [] p (Inr None) dispatched_core = (r1, posts, es, s1) \<and>
     map_of (sCalls s1) ''id8'' = Some (apply_action ''drop'' 9 dispatched_call) \<and> sActive s1 = int (live_calls (sCalls s1)) \<and>
     (\<exists>m \<in> set (legs d'). lgState m = ''DROPPED'')"
proof -
  obtain r ps d' where a: "live_action fine sample_fleet ''w1'' ''p1'' ''drop'' sample_started = (r, ps, d')" by (metis prod_cases3)
  have "code (fst (live_action fine sample_fleet ''w1'' ''p1'' ''drop'' sample_started)) = 200" by code_simp
  with a have ok: "code r = 200" by simp
  have s: "keyed dispatched_core" "flCommand sample_fleet 0 \<noteq> ''''" "sCommands dispatched_core (flCommand sample_fleet 0) = None"
    "map_of (sCalls dispatched_core) ''id8'' = Some dispatched_call" "csParticipantID dispatched_call = ''p1''"
    "sActive dispatched_core - int (live_calls (sCalls dispatched_core)) = 0"
    "ended_calls_of ''p1'' (sCalls dispatched_core) = 0"
    by (simp_all add: keyed_def dispatched_core_def dispatched_call_def newStore_def sample_fleet_def terminalState_def ended_calls_of_def)
  have act: "''drop'' \<in> {''mute'', ''unmute'', ''drop''}" "''p1'' \<noteq> ''''" by simp_all
  from command_reaches_call [OF a ok fine_fine act s(1-3), of 9 "[]" None "''''" "Inl ''''"] obtain p and l :: leg_row and r1 i es s1 where p:
    "ps = [p]" "deliver_command 9 [] p (Inr None) dispatched_core = (r1, [PostParticipant (participant_path ''p1'' ''drop'') i], es, s1)"
    "\<forall>k c. map_of (sCalls dispatched_core) k = Some c \<longrightarrow> map_of (sCalls s1) k =
        Some (if csParticipantID c = ''p1'' then apply_action ''drop'' 9 c else c)"
    "sActive s1 - int (live_calls (sCalls s1)) = sActive dispatched_core - int (live_calls (sCalls dispatched_core)) -
      (if ''drop'' = ''drop'' then int (ended_calls_of ''p1'' (sCalls dispatched_core)) else 0)"
    and m: "\<exists>m \<in> set (legs d'). lgID m = lgID l \<and>
      (if ''drop'' = ''mute'' then lgMute m else if ''drop'' = ''unmute'' then \<not> lgMute m else lgState m = ''DROPPED'')"
    by (elim exE conjE) (rule that)
  have dropped: "\<exists>m \<in> set (legs d'). lgState m = ''DROPPED''" using m by auto
  from p(3) s(4,5) have "map_of (sCalls s1) ''id8'' = Some (apply_action ''drop'' 9 dispatched_call)" by simp
  moreover from p(4) have "sActive s1 = int (live_calls (sCalls s1))" by (simp add: s(6,7))
  ultimately show ?thesis using a p(1,2) dropped by blast
qed

section \<open>The volume of a call\<close>

text \<open>The sidecar's answers as documents, and what \<open>volume\<close> decodes of them.\<close>

definition reply_json :: "(int \<Rightarrow> json) \<Rightarrow> reply \<Rightarrow> json" where
  "reply_json stamp b =
     (case b of ErrorReply e \<Rightarrow> JObj [(''error'', JStr e)] | CallReply c \<Rightarrow> call_json stamp c | ObjectReply out \<Rightarrow> result_json out)"

definition decode_volume :: "json \<Rightarrow> (rat \<times> string) option" where
  "decode_volume j = do { v \<leftarrow> num_field ''volume_db'' j; st \<leftarrow> str_field ''state'' j; Some (v, st) }"

text \<open>The reading for the call \<open>callID\<close> when the sidecar answers; \<open>txt\<close> is the answer's status line and \<open>e\<close>
  the decoder's error.\<close>

definition volume_reading ::
  "(int \<Rightarrow> json) \<Rightarrow> string \<Rightarrow> string \<Rightarrow> string \<Rightarrow> sidecar \<Rightarrow> string + (rat \<times> string)" where
  "volume_reading stamp txt e callID s =
     (let r = get_call (''/v1/calls/'' @ callID) s
      in sidecarGet (Answered (srStatus r) txt
           (case decode_volume (reply_json stamp (srBody r)) of None \<Rightarrow> Inl e | Some v \<Rightarrow> Inr v)))"

text \<open>The operator reads the volume and the state of the sidecar's call, also a volume of 0, which the
  document leaves out, and 502 when the sidecar does not know the call.\<close>

lemma volume_read:
  "volume_reading stamp txt e callID s =
     (case map_of (sCalls s) callID of None \<Rightarrow> Inl (''sidecar returned '' @ txt) | Some c \<Rightarrow> Inr (csVolumeDB c, csState c))"
proof -
  have "decode_volume (call_json stamp c) = Some (csVolumeDB c, csState c)" for c
    by (simp add: decode_volume_def call_json_def str_field_def num_field_def)
  moreover have "get_call (''/v1/calls/'' @ callID) s = (case map_of (sCalls s) callID of
      None \<Rightarrow> \<lparr>srStatus = 404, srBody = ErrorReply ''not found''\<rparr> | Some call \<Rightarrow> \<lparr>srStatus = 200, srBody = CallReply call\<rparr>)"
    by (simp only: get_call_def TrimPrefix_append)
  ultimately show ?thesis by (simp add: volume_reading_def Let_def reply_json_def split: option.split)
qed

lemma volume_of_sidecar:
  assumes "all_fine W" and "rev (participant_live_legs ws pid d) = l # rest" and "flNodes F 0 = Inr ns"
    and "owner_of ns (lgNode l) = Some n" and "map_of (sCalls s) (lgID l) = Some c"
  shows "volume W F (volume_reading stamp txt e (lgID l) s) ws pid d =
    answer 200 [(''participant_id'', JStr pid), (''call_id'', JStr (lgID l)), (''volume_db'', JNum (csVolumeDB c)),
      (''state'', JStr (csState c))]"
  using assms by (simp add: volume_def volume_read)
text \<open>The paths of the requests reach the handlers they are meant for, whatever the ids are.\<close>

lemma sidecar_paths:
  "sidecar_route (participant_path pid act) = Some ParticipantOp"
  "sidecar_route ''/v1/calls/originate'' = Some OriginateOp"
  "callID \<noteq> ''originate'' \<Longrightarrow> sidecar_route (''/v1/calls/'' @ callID) = Some CallOp"
  by (simp_all add: sidecar_route_def participant_path_def HasPrefix_def)

end
