(* ===== verification/Spec2Isabelle.thy ===== *)
theory Spec2Isabelle
  imports Dialing EdgeDtmf SidecarFacts RoomProps InputProps EdgeProps SessionProps ReportProps SpeakerProps AdminProps
    HostWait Equivalences LabProps EdgeToRooms CallFlow SidecarClient
begin

text \<open>
  PhonArch Conference: conference rooms for telephone callers. The Go programs under src/components and
  how they interact:

  \<^item> phonarch-platform-api (cmd/control-api/main.go), the control API: workspaces, rooms, rosters, room
    sessions, speaker requests and accounts in PostgreSQL, login sessions in its memory. It finds the
    SIP edges in Redis, asks one for the live PBX nodes, and posts commands to the sidecars of the nodes.
  \<^item> phonarch-sip-gateway (cmd/sipgo-lb/main.go), the SIP edge: takes in the heartbeats of the nodes,
    places new dialogs on them and keeps a dialog on its node, through Redis also over a restart;
    reports the digits of callers to the control API; advertises itself in Redis.
  \<^item> phonarch-pbx-sidecar (cmd/pbx-sidecar/main.go), one beside each media engine: runs commands once,
    polls the engine, reports calls to the control API, sends heartbeats to all edges.
  \<^item> phonarch-rustpbx/heartbeat, a utility that only sends heartbeats; phonarch-rustpbx-lab, a double of
    the media engine; phonarch-sip-probe, a test call.

  The theories, each with the part of the code it models:

  \<^item> Prelude and standard library. GoBase: answers of handlers, JSON values, shared lemmas. GoStrings
    (strings, unicode), GoNumbers (Itoa, Atoi, ParseInt), GoFloat (float64 as rationals with exact
    rounding), GoFormat (%.6f, ParseFloat, ParseDuration), GoNet (SplitHostPort). A Go string is its bytes.
  \<^item> Interfaces as locales. RedisStore: redis_store, a store with leases, interpreted on an association
    list; EdgeDialogs: edge_store on top of it. Placement: placement, interpreted on the API's chooseNode
    and the edge's selectNode. Targets: target_parser, interpreted on the three parsers of address lists.
    SidecarFacts: command_handler, interpreted on the three command handlers of the sidecar. SipText:
    sip_parser, what the edge relies on of the SIP library, interpreted on the parser of the lab double.
  \<^item> SIP edge: EdgeSelect (selectNode), EdgeDialogs (registry, affinity, INVITE and in-dialog requests),
    EdgeDtmf (INFO), EdgeIntake (OPTIONS, advertisement, digit report, HTTP routes, relaying). The
    process's memory is the record edge; the store shared by all edges is its field rdb.
  \<^item> Sidecar: Sidecar (the store, handlers split where they release the mutex, one tick of the poll,
    discovery), Heartbeat (configuration, message, loop, routes; also the standalone utility).
  \<^item> Control API: Dialing, ControlNodes (normalisation, discovery, placement), Schema (tables as lists of
    row records and the way to run a statement), Rooms, Dispatch, Sessions, Speakers, Live, Batches,
    RoomList, Accounts, Members, Admin, AdminUsers (the handlers), HostWait (the waiting goroutine as a
    loop). A handler takes the decoded body and returns the answer, the requests to sidecars and the tables.
  \<^item> Lab: LabEngine, Probe.
  \<^item> Fleet: the documents by which the programs talk to each other, from the sidecar's message to the node
    that the control API reads.

  How failures are modelled. The k-th statement of a handler fails when wfail W k holds of the record
  world, which also gives clock readings and fresh ids; a theorem without an assumption on W holds
  whatever statements fail. A Redis command fails as the record redis_faults says. The fleet gives the
  result of the discovery and the sidecars' answers. Panics and refusals are values.

  What the theorems show:

  \<^item> Invariants of the running control API (Statements, RoomFacts, RoomSystem, PlatformSteps: the
    statements as a step relation, every handler as a sequence of steps; PlatformProps.platform_step: all
    that changes the tables, one handler at a time): RoomProps.rooms_exclusive, RoomProps.tenant_isolation,
    PlatformProps.number_inventory, AccountProps.owners_protected. They start from tables that satisfy
    their keys, references and indexes (platform_ok, and for the isolation housed: a row of a room lies
    in the room's workspace), as empty tables do.
  \<^item> The life of a room (SessionProps, StopProps, ReportProps, RosterProps, HostWait): start, the wait for
    the host, which ends after at most 180 passes, stop, limits, and the states that stick.
  \<^item> The speaker queue (SpeakerProps, SpeakerQueue): the handlers refine an abstract queue; the limit of
    speakers.
  \<^item> Accounts and administration (AccountProps, AdminProps, PlatformProps): role checks, guarded routes,
    logins, imports, deletion, and the races between two requests.
  \<^item> The edge and the registry (EdgeProps, FleetProps, Equivalences): selection and fairness, affinity
    through all other traffic of the edge (the relation edge_traffic) and over a restart, the
    round trip of a heartbeat, the way from a heartbeat to the placement of a call, the advertisements,
    the kinds of values in the shared store.
  \<^item> The sidecar (SidecarFacts): commands run once, the counter of active calls.
  \<^item> The components together (EdgeToRooms, LabProps): a digit reaches the queue of the caller's room; the
    standalone utility's epochs end calls; the probe completes a call with the double.
  \<^item> The call of the host (CallFlow): the documents of the sidecar's events and of the originate command,
    their decoding, the way from the accepted start over the sidecar, the engine and the poll to the
    running room, the report of the host's end that closes the session, and a poll that undoes a drop.
  \<^item> The control API as a client of the sidecars (SidecarClient): command ids, requests and what it makes of
    the answers; an operator's command reaches the calls of the participant, and the volume the operator.

  Bounds and fuel. The slug of a new workspace is tried 1000 times as in the code. The probe reads at most
  four answers to its INVITE as in the code. The loop that waits for a host is given a number of passes;
  181 suffice, since a pass sleeps half a second and the deadline is 90 seconds away. Integers of the
  programs are unbounded here where the code cannot come near 64 bits; the edge's cursor and parsed
  numbers are kept at 64 bits. The load score of a heartbeat round-trips for fewer than 2^50 calls.

  Not modelled: the tables node_commands, from which the API only deletes, and audit_events,
  room_media_sessions and room_leaf_assignments, which it never touches, so that none of them holds a row;
  bcrypt, random ids, JSON text, HTTP, Redis, PostgreSQL and the SIP library
  beyond what is named above, all arguments or locales; redirects of Go's ServeMux for unclean paths;
  opening of sockets, logging and exit in the main functions; hexadecimal floats (the argument hex of
  ParseFloat); handlers of the API run one statement after the other, those of the lab at once; the web
  console (TypeScript).
\<close>

end
